(* ===== verification/Prelude.thy ===== *)
theory Prelude
  imports Complex_Main "HOL-Library.Word"
begin

text \<open>
  The shared vocabulary of the development.  It holds the result type of fallible operations,
  the reading of SQL tables as row lists, Python's text helpers as far as the modelled code uses
  them, and three interfaces (locales) that several components provide:
  \<^item> \<open>step_system\<close>: operations that keep an invariant, run in any order;
  \<^item> \<open>step_budget\<close>: operations that spend from a potential that only some operations refill
    (the argument behind every at-most-once statement);
  \<^item> \<open>prefix_codec\<close>: an encoder whose output a decoder reads back from the front of any buffer.
\<close>

section \<open>Results, clocks and rows\<close>

text \<open>
  A Python exception is a value: its class, and the message the source gives it.  An operation
  that runs inside a write transaction returns the exception and no new state, because the
  transaction is rolled back when the exception leaves the \<open>with\<close> block.
\<close>

datatype py_error =
    ValueError string
  | KeyError string
  | IndexError
  | IntegrityError
  | EOFError
  | OSError string
  | RuntimeError string
  | TypeError
  | InterruptedError string
  | OverflowError

type_synonym 'a result = "py_error + 'a"

text \<open>
  The k-th call of the clock inside one operation reads \<open>clk k\<close>.  Nothing is assumed of the
  readings: the wall clock may be set back between two calls.  Readings are real numbers, the
  rounding of Python's floats is not modelled.
\<close>

type_synonym clock = "nat \<Rightarrow> real"

definition bindE :: "'a result \<Rightarrow> ('a \<Rightarrow> 'b result) \<Rightarrow> 'b result" where
  "bindE m f = (case m of Inl e \<Rightarrow> Inl e | Inr x \<Rightarrow> f x)"

lemma bindE_simps [simp]: "bindE (Inl e) f = Inl e" "bindE (Inr x) f = f x"
  by (simp_all add: bindE_def)

lemma bindE_eq_Inr: "bindE m f = Inr y \<longleftrightarrow> (\<exists>x. m = Inr x \<and> f x = Inr y)"
  by (cases m) auto

text \<open>A table is the list of its rows in insertion order; a statement is one of these.\<close>

definition update_rows :: "('r \<Rightarrow> bool) \<Rightarrow> ('r \<Rightarrow> 'r) \<Rightarrow> 'r list \<Rightarrow> 'r list" where
  "update_rows p f rs = map (\<lambda>r. if p r then f r else r) rs"

definition delete_rows :: "('r \<Rightarrow> bool) \<Rightarrow> 'r list \<Rightarrow> 'r list" where
  "delete_rows p rs = filter (\<lambda>r. \<not> p r) rs"

definition row_count :: "('r \<Rightarrow> bool) \<Rightarrow> 'r list \<Rightarrow> nat" where
  "row_count p rs = length (filter p rs)"

definition select_first :: "('r \<Rightarrow> bool) \<Rightarrow> 'r list \<Rightarrow> 'r option" where
  "select_first p rs = List.find p rs"

named_theorems rows "facts about row lists"

lemma update_rows_Nil [simp]: "update_rows p f [] = []"
  by (simp add: update_rows_def)

lemma update_rows_Cons [simp]:
  "update_rows p f (r # rs) = (if p r then f r else r) # update_rows p f rs"
  by (simp add: update_rows_def)

lemma delete_rows_simps [simp]:
  "delete_rows p [] = []"
  "delete_rows p (r # rs) = (if p r then delete_rows p rs else r # delete_rows p rs)"
  by (simp_all add: delete_rows_def)

lemma length_update_rows [simp]: "length (update_rows p f rs) = length rs"
  by (simp add: update_rows_def)

lemma set_update_rows: "set (update_rows p f rs) = (\<lambda>r. if p r then f r else r) ` set rs"
  by (simp add: update_rows_def)

lemma in_update_rows:
  "r' \<in> set (update_rows p f rs) \<longleftrightarrow> (\<exists>r\<in>set rs. r' = (if p r then f r else r))"
  by (auto simp: update_rows_def)

lemma update_rows_cases:
  assumes "r' \<in> set (update_rows p f rs)"
  obtains (changed) r where "r \<in> set rs" "p r" "r' = f r" | (kept) "r' \<in> set rs" "\<not> p r'"
  using assms by (auto simp: in_update_rows split: if_splits)

lemma set_delete_rows [simp]: "set (delete_rows p rs) = {r \<in> set rs. \<not> p r}"
  by (auto simp: delete_rows_def)

lemma update_rows_map:
  "(\<And>r. p r \<Longrightarrow> k (f r) = k r) \<Longrightarrow> map k (update_rows p f rs) = map k rs"
  by (simp add: update_rows_def)

lemma distinct_delete_rows [intro]: "distinct (map k rs) \<Longrightarrow> distinct (map k (delete_rows p rs))"
  by (induction rs) auto

lemma select_first_Some:
  "select_first p rs = Some r \<Longrightarrow> r \<in> set rs \<and> p r"
  by (auto simp: select_first_def find_Some_iff)

lemma select_first_None: "select_first p rs = None \<longleftrightarrow> (\<forall>r\<in>set rs. \<not> p r)"
  by (auto simp: select_first_def find_None_iff)

lemma row_count_append [simp]: "row_count p (xs @ ys) = row_count p xs + row_count p ys"
  by (simp add: row_count_def)

lemma row_count_one [simp]: "row_count p [x] = (if p x then 1 else 0)"
  by (simp add: row_count_def)

lemma update_rows_none: "(\<And>x. x \<in> set xs \<Longrightarrow> \<not> p x) \<Longrightarrow> update_rows p f xs = xs"
  by (simp add: update_rows_def map_idI)

lemma update_rows_in: "r \<in> set rs \<Longrightarrow> p r \<Longrightarrow> f r \<in> set (update_rows p f rs)"
  by (force simp: in_update_rows)

lemma list_all2_update_rows:
  "(\<And>r. r \<in> set rs \<Longrightarrow> R r (if p r then f r else r)) \<Longrightarrow> list_all2 R rs (update_rows p f rs)"
  by (simp add: update_rows_def list_all2_conv_all_nth)

lemma list_all2_compose:
  "list_all2 R xs ys \<Longrightarrow> list_all2 S ys zs \<Longrightarrow> (\<And>x y z. x \<in> set xs \<Longrightarrow> R x y \<Longrightarrow> S y z \<Longrightarrow> T x z) \<Longrightarrow> list_all2 T xs zs"
  by (auto simp: list_all2_conv_all_nth)

text \<open>A primary key picks at most one row.\<close>

lemma key_unique:
  "distinct (map k rs) \<Longrightarrow> r \<in> set rs \<Longrightarrow> r' \<in> set rs \<Longrightarrow> k r = k r' \<Longrightarrow> r = r'"
  by (auto simp: distinct_map inj_on_def)

lemma select_key:
  "distinct (map k rs) \<Longrightarrow> r \<in> set rs \<Longrightarrow> select_first (\<lambda>x. k x = k r) rs = Some r"
  by (induction rs) (auto simp: select_first_def image_iff)

lemma list_all2_left: "list_all2 P xs ys \<Longrightarrow> x \<in> set xs \<Longrightarrow> \<exists>y\<in>set ys. P x y"
  by (induction rule: list_all2_induct) auto

text \<open>An index holds at most one entry per key.\<close>

definition assoc_put :: "'k \<Rightarrow> 'v \<Rightarrow> ('k \<times> 'v) list \<Rightarrow> ('k \<times> 'v) list" where
  "assoc_put k v kvs =
     (if k \<in> fst ` set kvs then map (\<lambda>(k', v'). (k', if k' = k then v else v')) kvs else kvs @ [(k, v)])"

lemma map_of_assoc_put [simp]: "map_of (assoc_put k v kvs) = (map_of kvs)(k \<mapsto> v)"
proof -
  have upd: "map_of (map (\<lambda>(k', v'). (k', if k' = k then v else v')) kvs) x
      = (if x = k \<and> k \<in> fst ` set kvs then Some v else map_of kvs x)" for x
  proof (induction kvs)
    case Nil
    then show ?case by simp
  next
    case (Cons kv kvs)
    then show ?case by (cases kv) (cases "k \<in> fst ` set kvs"; cases "x = k"; auto)
  qed
  have app: "k \<notin> fst ` set kvs \<Longrightarrow> map_of (kvs @ [(k, v)]) x = ((map_of kvs)(k \<mapsto> v)) x" for x
    using map_of_eq_None_iff [of kvs k] by (auto simp: map_add_def split: option.splits)
  show ?thesis
    by (cases "k \<in> fst ` set kvs") (simp_all add: assoc_put_def upd app fun_eq_iff del: map_of_append)
qed

section \<open>Text\<close>

text \<open>Characters are the code points below 256.\<close>

definition py_space :: "char \<Rightarrow> bool" where
  "py_space c = (let n = (of_char c :: nat) in (9 \<le> n \<and> n \<le> 13) \<or> (28 \<le> n \<and> n \<le> 32) \<or> n = 133 \<or> n = 160)"

definition py_lower_char :: "char \<Rightarrow> char" where
  "py_lower_char c = (let n = (of_char c :: nat) in
     if (65 \<le> n \<and> n \<le> 90) \<or> (192 \<le> n \<and> n \<le> 222 \<and> n \<noteq> 215) then char_of (n + 32) else c)"

definition py_lower :: "string \<Rightarrow> string" where
  "py_lower s = map py_lower_char s"

definition py_strip :: "string \<Rightarrow> string" where
  "py_strip s = rev (dropWhile py_space (rev (dropWhile py_space s)))"

definition py_digit :: "char \<Rightarrow> bool" where
  "py_digit c = (let n = (of_char c :: nat) in 48 \<le> n \<and> n \<le> 57)"

definition digit_value :: "char \<Rightarrow> nat" where
  "digit_value c = of_char c - 48"

definition decimal_value :: "string \<Rightarrow> nat" where
  "decimal_value s = foldl (\<lambda>n c. 10 * n + digit_value c) 0 s"

fun show_nat :: "nat \<Rightarrow> string" where
  "show_nat n = (if n < 10 then [char_of (48 + n)] else show_nat (n div 10) @ [char_of (48 + n mod 10)])"

declare show_nat.simps [simp del]

text \<open>\<open>str.split(sep)\<close> with a one-character separator, and \<open>sep.join\<close>.\<close>

fun split_on :: "char \<Rightarrow> string \<Rightarrow> string list" where
  "split_on d [] = [[]]"
| "split_on d (c # cs) = (if c = d then [] # split_on d cs
     else (case split_on d cs of [] \<Rightarrow> [[c]] | w # ws \<Rightarrow> (c # w) # ws))"

fun join_with :: "string \<Rightarrow> string list \<Rightarrow> string" where
  "join_with s [] = []"
| "join_with s [w] = w"
| "join_with s (w # ws) = w @ s @ join_with s ws"

text \<open>\<open>str.split()\<close> with no argument: the maximal runs of non-space characters.\<close>

fun split_words_aux :: "string \<Rightarrow> string \<Rightarrow> string list" where
  "split_words_aux acc [] = (if acc = [] then [] else [rev acc])"
| "split_words_aux acc (c # cs) =
     (if py_space c then (if acc = [] then [] else [rev acc]) @ split_words_aux [] cs
      else split_words_aux (c # acc) cs)"

definition split_words :: "string \<Rightarrow> string list" where
  "split_words s = split_words_aux [] s"

lemma split_on_nonempty [simp]: "split_on d s \<noteq> []"
  by (cases s) (auto split: list.splits)

lemma join_split_on: "join_with [d] (split_on d s) = s"
proof (induction s)
  case Nil
  then show ?case by simp
next
  case (Cons c cs)
  obtain w ws where sp: "split_on d cs = w # ws"
    by (cases "split_on d cs") auto
  with Cons show ?case by (cases ws) auto
qed

lemma split_on_word: "d \<notin> set w \<Longrightarrow> split_on d w = [w]"
  by (induction w) auto

lemma split_on_append: "d \<notin> set w \<Longrightarrow> split_on d (w @ d # s) = w # split_on d s"
  by (induction w) auto

lemma split_on_join:
  "ws \<noteq> [] \<Longrightarrow> list_all (\<lambda>w. d \<notin> set w) ws \<Longrightarrow> split_on d (join_with [d] ws) = ws"
  by (induction "[d]" ws rule: join_with.induct) (simp_all add: split_on_word split_on_append)

lemma dropWhile_none: "list_all (\<lambda>c. \<not> p c) s \<Longrightarrow> dropWhile p s = s"
  by (cases s) simp_all

lemma py_strip_no_space: "list_all (\<lambda>c. \<not> py_space c) s \<Longrightarrow> py_strip s = s"
  by (simp add: py_strip_def dropWhile_none list_all_iff)

text \<open>\<open>prefix.startswith\<close>.\<close>

definition starts_with :: "string \<Rightarrow> string \<Rightarrow> bool" where
  "starts_with s p = (take (length p) s = p)"

lemma starts_with_append [simp]: "starts_with (p @ s) p"
  by (simp add: starts_with_def)

section \<open>Bytes\<close>

text \<open>A Python \<open>bytes\<close> value is a list of words of width eight.\<close>

type_synonym byte = "8 word"
type_synonym bytes = "byte list"

definition be16 :: "nat \<Rightarrow> bytes" where
  "be16 n = [of_nat (n div 256), of_nat n]"

definition be32 :: "nat \<Rightarrow> bytes" where
  "be32 n = [of_nat (n div 16777216), of_nat (n div 65536), of_nat (n div 256), of_nat n]"

text \<open>\<open>int.from_bytes(_, 'big')\<close> and \<open>'little'\<close>.\<close>

definition from_be :: "bytes \<Rightarrow> nat" where
  "from_be bs = foldl (\<lambda>n b. 256 * n + unat b) 0 bs"

definition from_le :: "bytes \<Rightarrow> nat" where
  "from_le bs = from_be (rev bs)"

named_theorems byte_simps "evaluation of byte encodings"

lemma unat_of_nat_byte [byte_simps]: "unat (of_nat n :: byte) = n mod 256"
  by (simp add: unat_of_nat)

lemma unat_byte_less [simp]: "unat (b :: byte) < 256"
proof -
  have "unat b < 2 ^ LENGTH(8)" by (rule unsigned_less)
  then show ?thesis by simp
qed

lemma from_be_Nil [simp]: "from_be [] = 0"
  by (simp add: from_be_def)

lemma from_be_snoc: "from_be (bs @ [b]) = 256 * from_be bs + unat b"
  by (simp add: from_be_def)

lemma from_be_bound: "from_be bs < 256 ^ length bs"
proof (induction bs rule: rev_induct)
  case Nil
  then show ?case by simp
next
  case (snoc b bs)
  have "unat b < 256" by simp
  then have "256 * from_be bs + unat b < 256 * (from_be bs + 1)" by simp
  also have "\<dots> \<le> 256 * 256 ^ length bs" using snoc by (intro mult_le_mono) simp_all
  finally show ?case by (simp add: from_be_snoc)
qed

lemma from_be_be16: "n < 65536 \<Longrightarrow> from_be (be16 n) = n"
  by (simp add: from_be_def be16_def unat_of_nat)

lemma from_be_be32:
  assumes "n < 4294967296"
  shows "from_be (be32 n) = n"
proof -
  have nested: "n div 256 div 256 = n div 65536" "n div 65536 div 256 = n div 16777216"
    by (simp_all flip: div_mult2_eq)
  have top: "n div 16777216 < 256"
    using assms by (simp add: less_mult_imp_div_less)
  show ?thesis
    using mult_div_mod_eq [of 256 n] mult_div_mod_eq [of 256 "n div 256"]
      mult_div_mod_eq [of 256 "n div 65536"] top
    by (simp add: from_be_def be32_def unat_of_nat nested)
qed

lemma length_be [simp]: "length (be16 n) = 2" "length (be32 n) = 4"
  by (simp_all add: be16_def be32_def)

lemma be16_from_be: "be16 (from_be [a, b]) = [a, b]"
proof -
  have "(256 * unat a + unat b) div 256 = unat a"
    using unat_byte_less [of b] by simp
  moreover have "of_nat (256 * unat a + unat b) = b"
    by (rule word_unat_eq_iff [THEN iffD2]) (simp only: unat_of_nat, simp)
  ultimately show ?thesis by (simp add: be16_def from_be_def)
qed

text \<open>\<open>data[i:j]\<close> for indices that are not negative.\<close>

definition slice :: "nat \<Rightarrow> nat \<Rightarrow> 'a list \<Rightarrow> 'a list" where
  "slice i j xs = take (j - i) (drop i xs)"

lemma length_slice [simp]: "length (slice i j xs) = min (j - i) (length xs - i)"
  by (simp add: slice_def min.commute)

lemma slice_append_left: "j \<le> length xs \<Longrightarrow> slice i j (xs @ ys) = slice i j xs"
  by (cases "i \<le> length xs") (auto simp: slice_def)

section \<open>Interfaces\<close>

text \<open>Operations on a state, run one after the other, and an invariant each of them keeps.\<close>

locale step_system =
  fixes step :: "'s \<Rightarrow> 'o \<Rightarrow> 's"
    and invar :: "'s \<Rightarrow> bool"
  assumes step_invar: "invar s \<Longrightarrow> invar (step s a)"
begin

lemma run_invar: "invar s \<Longrightarrow> invar (foldl step s as)"
  by (induction as arbitrary: s) (auto intro: step_invar)

end

text \<open>
  Every operation may spend; what it spends comes from a potential of the state, which
  grants refill.  Over a run the total spent is bounded by the initial potential and the grants.
\<close>

fun run_total :: "('s \<Rightarrow> 'o \<Rightarrow> 's) \<Rightarrow> ('s \<Rightarrow> 'o \<Rightarrow> nat) \<Rightarrow> 's \<Rightarrow> 'o list \<Rightarrow> nat" where
  "run_total step f s [] = 0"
| "run_total step f s (a # as) = f s a + run_total step f (step s a) as"

locale step_budget = step_system step invar
  for step :: "'s \<Rightarrow> 'o \<Rightarrow> 's" and invar :: "'s \<Rightarrow> bool" +
  fixes spend :: "'s \<Rightarrow> 'o \<Rightarrow> nat"
    and grant :: "'s \<Rightarrow> 'o \<Rightarrow> nat"
    and potential :: "'s \<Rightarrow> nat"
  assumes step_spend: "invar s \<Longrightarrow> spend s a + potential (step s a) \<le> potential s + grant s a"
begin

lemma run_spend:
  "invar s \<Longrightarrow> run_total step spend s as \<le> potential s + run_total step grant s as"
proof (induction as arbitrary: s)
  case Nil
  then show ?case by simp
next
  case (Cons a as)
  from Cons.prems have "invar (step s a)" by (rule step_invar)
  from Cons.IH [OF this] step_spend [OF Cons.prems, of a] show ?case by simp
qed

end

text \<open>
  A decoder that reads one item from the front of a buffer and returns the rest, and an encoder
  whose output it reads back whatever follows.
\<close>

locale prefix_codec =
  fixes enc :: "'a \<Rightarrow> 'b list"
    and dec :: "'b list \<Rightarrow> ('a \<times> 'b list) option"
    and ok :: "'a \<Rightarrow> bool"
  assumes dec_enc: "ok x \<Longrightarrow> dec (enc x @ rest) = Some (x, rest)"
    and enc_nonempty: "ok x \<Longrightarrow> enc x \<noteq> []"
begin

lemma enc_inj: "ok x \<Longrightarrow> ok y \<Longrightarrow> enc x @ r = enc y @ r' \<Longrightarrow> x = y \<and> r = r'"
proof -
  assume "ok x" "ok y" "enc x @ r = enc y @ r'"
  then have "Some (x, r) = Some (y, r')"
    by (metis dec_enc)
  then show ?thesis by simp
qed

end

fun decode_all :: "('b list \<Rightarrow> ('a \<times> 'b list) option) \<Rightarrow> nat \<Rightarrow> 'b list \<Rightarrow> 'a list option" where
  "decode_all dec 0 bs = None"
| "decode_all dec (Suc fuel) bs = (if bs = [] then Some [] else
     (case dec bs of None \<Rightarrow> None
      | Some (x, rest) \<Rightarrow> map_option (Cons x) (decode_all dec fuel rest)))"

context prefix_codec begin

lemma decode_all_concat:
  "list_all ok xs \<Longrightarrow> length xs < fuel \<Longrightarrow> decode_all dec fuel (concat (map enc xs)) = Some xs"
proof (induction xs arbitrary: fuel)
  case Nil
  then show ?case by (cases fuel) auto
next
  case (Cons x xs)
  then obtain f where "fuel = Suc f" by (cases fuel) auto
  with Cons show ?case by (simp add: dec_enc enc_nonempty)
qed

end

end
