(* ===== verification/Payloads.thy ===== *)
theory Payloads
  imports Prelude
begin

text \<open>
  \<open>twn_toolkit/distributed_payloads.py\<close>: the envelope that binds every stored payload to
  the column it is stored in, and the text checks of \<open>twn_toolkit/distributed_jobs.py\<close>.
  Fernet (package \<open>cryptography\<close>) is a parameter: \<open>encrypt\<close> takes the two-element
  JSON list that the code builds, \<open>decrypt\<close> is \<open>Some\<close> when the token verifies and its
  text is a JSON list of two strings.
\<close>

record cipher =
  encrypt :: "string \<times> string \<Rightarrow> string"
  decrypt :: "string \<Rightarrow> (string \<times> string) option"

text \<open>What Fernet documents: a token decrypts, under its own key, to the text it was made from.\<close>

definition fernet_ok :: "cipher \<Rightarrow> bool" where
  "fernet_ok C \<longleftrightarrow> (\<forall>p. decrypt C (encrypt C p) = Some p)"

definition sealed_prefix :: string where
  "sealed_prefix = ''twn-sealed-v1:''"

definition seal :: "cipher \<Rightarrow> string \<Rightarrow> string \<Rightarrow> string" where
  "seal C v ctx = (if v = [] \<or> v = ''{}'' then v else sealed_prefix @ encrypt C (ctx, v))"

definition open_payload :: "cipher \<Rightarrow> string \<Rightarrow> string \<Rightarrow> string result" where
  "open_payload C v ctx =
     (if v = [] \<or> v = ''{}'' then Inr v
      else if \<not> starts_with v sealed_prefix
        then Inl (ValueError ''Distributed payload is not encrypted.'')
      else (case decrypt C (drop (length sealed_prefix) v) of
          None \<Rightarrow> Inl (ValueError ''Distributed payload could not be decrypted; check the instance key.'')
        | Some (ctx', v') \<Rightarrow> if ctx' = ctx then Inr v'
            else Inl (ValueError ''Distributed payload could not be decrypted; check the instance key.'')))"

lemma sealed_prefix_neq [simp]:
  "sealed_prefix \<noteq> []" "sealed_prefix @ x \<noteq> ''{}''"
  by (simp_all add: sealed_prefix_def)

lemma open_seal: "fernet_ok C \<Longrightarrow> open_payload C (seal C v ctx) ctx = Inr v"
  by (simp add: open_payload_def seal_def fernet_ok_def)

lemma open_seal_other:
  "fernet_ok C \<Longrightarrow> v \<noteq> [] \<Longrightarrow> v \<noteq> ''{}'' \<Longrightarrow> ctx' \<noteq> ctx \<Longrightarrow>
   open_payload C (seal C v ctx) ctx' =
     Inl (ValueError ''Distributed payload could not be decrypted; check the instance key.'')"
  by (simp add: open_payload_def seal_def fernet_ok_def)

lemma open_trivial [simp]: "open_payload C [] ctx = Inr []" "open_payload C ''{}'' ctx = Inr ''{}''"
  by (simp_all add: open_payload_def)

section \<open>Text checks\<close>

text \<open>\<open>_json_payload\<close>: the argument is the text \<open>json.dumps\<close> produced, which is ASCII.\<close>

definition max_job_payload_bytes :: nat where
  "max_job_payload_bytes = 256 * 1024"

definition json_payload :: "string \<Rightarrow> string \<Rightarrow> string result" where
  "json_payload text label =
     (if max_job_payload_bytes < length text
      then Inl (ValueError (label @ '' exceeds the 262144-byte limit.'')) else Inr text)"

definition bounded_text :: "string \<Rightarrow> nat \<Rightarrow> string \<Rightarrow> string result" where
  "bounded_text v n label = (let clean = py_strip v in
     if clean = [] \<or> n < length clean then Inl (ValueError (label @ '' is invalid.'')) else Inr clean)"

text \<open>\<open>bytes.fromhex\<close> (skipping ASCII white space between bytes) and \<open>bytes.hex\<close>.\<close>

definition hex_value :: "char \<Rightarrow> nat option" where
  "hex_value c = (let n = of_char c in
     if 48 \<le> n \<and> n \<le> 57 then Some (n - 48)
     else if 97 \<le> n \<and> n \<le> 102 then Some (n - 87)
     else if 65 \<le> n \<and> n \<le> 70 then Some (n - 55) else None)"

definition hex_digit :: "nat \<Rightarrow> char" where
  "hex_digit n = (if n < 10 then char_of (48 + n) else char_of (87 + n))"

definition ascii_space :: "char \<Rightarrow> bool" where
  "ascii_space c = (let n = (of_char c :: nat) in (9 \<le> n \<and> n \<le> 13) \<or> n = 32)"

fun fromhex :: "string \<Rightarrow> nat list option" where
  "fromhex [] = Some []"
| "fromhex [c] = (if ascii_space c then Some [] else None)"
| "fromhex (c # d # cs) = (if ascii_space c then fromhex (d # cs)
     else (case (hex_value c, hex_value d) of
        (Some h, Some l) \<Rightarrow> map_option (Cons (16 * h + l)) (fromhex cs)
      | _ \<Rightarrow> None))"

definition hex_text :: "nat list \<Rightarrow> string" where
  "hex_text bs = concat (map (\<lambda>b. [hex_digit (b div 16), hex_digit (b mod 16)]) bs)"

definition norm_activation_id :: "string \<Rightarrow> string" where
  "norm_activation_id v = (let clean = py_lower (py_strip v) in
     case fromhex clean of None \<Rightarrow> []
     | Some decoded \<Rightarrow> if length decoded = 16 \<and> hex_text decoded = clean then clean else [])"

lemma norm_activation_id_length:
  "norm_activation_id v \<noteq> [] \<Longrightarrow> length (norm_activation_id v) = 32"
proof -
  have hl: "length (hex_text bs) = 2 * length bs" for bs
    by (induction bs) (auto simp: hex_text_def)
  assume "norm_activation_id v \<noteq> []"
  then obtain bs where "length bs = 16" "norm_activation_id v = hex_text bs"
    by (auto simp: norm_activation_id_def Let_def split: option.splits if_splits)
  then show ?thesis
    by (simp add: hl)
qed

end
