(* ===== verification/Distributed_Store.thy ===== *)
theory Distributed_Store
  imports Payloads
begin

text \<open>
  The durable queue of \<open>twn_toolkit/distributed_jobs.py\<close>: its tables as one record, and
  every operation as a function of the state that returns the new state and a result.  An
  operation that raises inside its write transaction returns the state it was given.
\<close>

section \<open>Tables\<close>

datatype job_state =
  Queued | Claimed | Running | CancelRequested | Unknown | Succeeded | Failed | Cancelled

record job =
  job_id :: string
  job_agent :: string
  job_requester :: string
  job_cap :: string
  job_capver :: string
  job_input :: string
  job_state :: job_state
  job_output :: "string option"
  job_error :: string
  job_created :: real
  job_started :: "real option"
  job_completed :: "real option"
  job_lease :: "real option"
  job_activation :: string
  job_token :: string
  job_payload_exp :: "real option"

record chunk =
  chunk_job :: string
  chunk_attempt :: string
  chunk_position :: nat
  chunk_payload :: string
  chunk_size :: nat
  chunk_digest :: string
  chunk_expires :: real

record transfer =
  transfer_job :: string
  transfer_attempt :: string
  transfer_expires :: real

record store =
  jobs :: "job list"
  activations :: "(string \<times> string) list"
  chunks :: "chunk list"
  transfers :: "transfer list"

record job_policy =
  lease_seconds :: nat
  retention_seconds :: nat

definition tunnel_cap :: string where
  "tunnel_cap = ''system.http.tunnel''"

definition in_flight :: "job_state \<Rightarrow> bool" where
  "in_flight st \<longleftrightarrow> st = Claimed \<or> st = Running \<or> st = CancelRequested"

text \<open>\<open>CASE WHEN capability_id = 'system.http.tunnel' THEN '{}' ELSE input_json END\<close>.\<close>

definition scrub_tunnel :: "job \<Rightarrow> string" where
  "scrub_tunnel j = (if job_cap j = tunnel_cap then ''{}'' else job_input j)"

text \<open>An SQL comparison with NULL is not true.\<close>

definition due :: "real option \<Rightarrow> real \<Rightarrow> bool" where
  "due d now = (case d of None \<Rightarrow> False | Some t \<Rightarrow> t \<le> now)"

text \<open>A write transaction: commit the new state, or roll back on an exception.\<close>

definition in_tx :: "'s \<Rightarrow> ('a \<times> 's) result \<Rightarrow> 'a result \<times> 's" where
  "in_tx s r = (case r of Inl e \<Rightarrow> (Inl e, s) | Inr (x, s') \<Rightarrow> (Inr x, s'))"

lemma in_tx_simps [simp]: "in_tx s (Inl e) = (Inl e, s)" "in_tx s (Inr (x, s')) = (Inr x, s')"
  by (simp_all add: in_tx_def)

lemma snd_in_tx: "snd (in_tx s r) = (case r of Inl e \<Rightarrow> s | Inr (x, s') \<Rightarrow> s')"
  by (auto simp: in_tx_def split: sum.splits)

lemma fst_in_tx_Inr: "fst (in_tx s r) = Inr x \<longleftrightarrow> (\<exists>s'. r = Inr (x, s'))"
  by (auto simp: in_tx_def split: sum.splits)

section \<open>Expiry\<close>

definition expire_lease_row :: "real \<Rightarrow> job \<Rightarrow> job" where
  "expire_lease_row now j = j\<lparr>
     job_state := (if job_state j = Claimed then Cancelled else Unknown),
     job_completed := (case job_completed j of None \<Rightarrow> Some now | Some c \<Rightarrow> Some c),
     job_lease := None,
     job_input := scrub_tunnel j,
     job_error := (if job_state j = Claimed then ''Claim expired before execution started.''
       else ''Execution lease expired. Outcome unknown; reconcile before retrying.'')\<rparr>"

definition expire_payload_row :: "real \<Rightarrow> job \<Rightarrow> job" where
  "expire_payload_row now j = j\<lparr>
     job_input := ''{}'', job_output := None,
     job_error := ''Payload retention expired. Execution state is retained; do not resubmit an unresolved operation.'',
     job_state := (if job_state j = Queued then Cancelled else job_state j),
     job_completed := (if job_state j = Queued then Some now else job_completed j),
     job_payload_exp := None\<rparr>"

text \<open>\<open>_expire(connection, job_id)\<close>; an empty id stands for no id: every row is in scope.\<close>

definition in_scope :: "string \<Rightarrow> job \<Rightarrow> bool" where
  "in_scope jid j \<longleftrightarrow> jid = [] \<or> job_id j = jid"

definition expire :: "real \<Rightarrow> string \<Rightarrow> job list \<Rightarrow> job list" where
  "expire now jid js =
     update_rows (\<lambda>j. due (job_payload_exp j) now \<and> in_scope jid j) (expire_payload_row now)
       (update_rows (\<lambda>j. in_flight (job_state j) \<and> due (job_lease j) now \<and> in_scope jid j)
         (expire_lease_row now) js)"

text \<open>\<open>_needs_expiry\<close>: the read path's test for a row that \<open>expire\<close> would change.\<close>

definition needs_expiry :: "job \<Rightarrow> real \<Rightarrow> bool" where
  "needs_expiry j now \<longleftrightarrow> due (job_payload_exp j) now \<or> (in_flight (job_state j) \<and> due (job_lease j) now)"

section \<open>Operations\<close>

text \<open>\<open>_job\<close>: the row with its sealed columns opened.\<close>

definition job_view :: "cipher \<Rightarrow> job \<Rightarrow> job result" where
  "job_view C j =
     bindE (open_payload C (job_input j) (job_id j @ '':input'')) (\<lambda>inp.
     bindE (case job_output j of None \<Rightarrow> Inr None
            | Some raw \<Rightarrow> if raw = [] then Inr None
                else bindE (open_payload C raw (job_id j @ '':output'')) (\<lambda>v. Inr (Some v))) (\<lambda>out.
     bindE (if starts_with (job_error j) sealed_prefix
            then open_payload C (job_error j) (job_id j @ '':error'') else Inr (job_error j)) (\<lambda>err.
     Inr (j\<lparr>job_input := inp, job_output := out, job_error := err, job_payload_exp := None\<rparr>))))"

definition finish_view :: "cipher \<Rightarrow> job result \<times> store \<Rightarrow> job result \<times> store" where
  "finish_view C rs = (bindE (fst rs) (job_view C), snd rs)"

definition enqueue :: "cipher \<Rightarrow> job_policy \<Rightarrow> clock \<Rightarrow> string \<Rightarrow> string \<Rightarrow> string \<Rightarrow> string \<Rightarrow> string
    \<Rightarrow> string \<Rightarrow> store \<Rightarrow> job result \<times> store" where
  "enqueue C pol clk hex agent requester cap capver inputs s = finish_view C (in_tx s (
     bindE (bounded_text agent 80 ''Agent ID'') (\<lambda>agent.
     bindE (bounded_text requester 128 ''Requester ID'') (\<lambda>requester.
     bindE (bounded_text cap 128 ''Capability ID'') (\<lambda>cap.
     bindE (bounded_text capver 32 ''Capability version'') (\<lambda>capver.
     bindE (json_payload inputs ''Job input'') (\<lambda>payload.
       (let jid = ''job_'' @ hex; now = clk 0;
            row = \<lparr>job_id = jid, job_agent = agent, job_requester = requester, job_cap = cap,
              job_capver = capver, job_input = seal C payload (jid @ '':input''), job_state = Queued,
              job_output = None, job_error = [], job_created = now, job_started = None,
              job_completed = None, job_lease = None,
              job_activation = (case map_of (activations s) agent of None \<Rightarrow> [] | Some a \<Rightarrow> a),
              job_token = [], job_payload_exp = Some (now + real (retention_seconds pol))\<rparr>
        in if jid \<in> job_id ` set (jobs s) then Inl IntegrityError
           else Inr (row, s\<lparr>jobs := jobs s @ [row]\<rparr>)))))))))"

definition activation_open :: "job \<Rightarrow> bool" where
  "activation_open j \<longleftrightarrow> job_state j \<in> {Queued, Claimed, Running, CancelRequested}"

definition retire_row :: "real \<Rightarrow> job \<Rightarrow> job" where
  "retire_row now j = j\<lparr>
     job_state := (if job_state j = Queued \<or> job_state j = Claimed then Cancelled else Unknown),
     job_completed := Some now, job_token := [], job_lease := None, job_input := scrub_tunnel j,
     job_error := ''Agent activation changed. Unstarted work was cancelled; reconcile any started operation.''\<rparr>"

definition activate_agent :: "clock \<Rightarrow> string \<Rightarrow> string \<Rightarrow> store \<Rightarrow> nat result \<times> store" where
  "activate_agent clk agent raw s = (let act = norm_activation_id raw in
     if act = [] then (Inr 0, s)
     else (let now = clk 0;
            put = (\<lambda>s. s\<lparr>activations := assoc_put agent act (activations s)\<rparr>)
       in case map_of (activations s) agent of
            None \<Rightarrow> (Inr 0, put (s\<lparr>jobs := update_rows
                (\<lambda>j. job_agent j = agent \<and> job_activation j = [] \<and> activation_open j)
                (\<lambda>j. j\<lparr>job_activation := act\<rparr>) (jobs s)\<rparr>))
          | Some prev \<Rightarrow>
              (let stale = (\<lambda>j. job_agent j = agent \<and> job_activation j \<noteq> act \<and> activation_open j) in
               if prev \<noteq> act
               then (Inr (row_count stale (jobs s)), put (s\<lparr>jobs := update_rows stale (retire_row now) (jobs s)\<rparr>))
               else (Inr 0, put s))))"

definition discard_tunnel_output :: "string \<Rightarrow> string \<Rightarrow> store \<Rightarrow> bool result \<times> store" where
  "discard_tunnel_output jid requester s =
     (let p = (\<lambda>j. job_id j = jid \<and> job_requester j = requester \<and> job_cap j = tunnel_cap
                  \<and> (job_state j = Succeeded \<or> job_state j = Failed));
          n = row_count p (jobs s);
          s1 = s\<lparr>jobs := update_rows p (\<lambda>j. j\<lparr>job_output := None\<rparr>) (jobs s)\<rparr>
      in (Inr (n = 1), if n \<noteq> 0
            then s1\<lparr>chunks := delete_rows (\<lambda>c. chunk_job c = jid) (chunks s1)\<rparr> else s1))"

text \<open>The WHERE clause \<open>claim\<close> and \<open>has_queued\<close> build.\<close>

definition claimable :: "string \<Rightarrow> string \<Rightarrow> string \<Rightarrow> string \<Rightarrow> job \<Rightarrow> bool" where
  "claimable agent cap_id exclude act j \<longleftrightarrow>
     job_agent j = agent \<and> job_state j = Queued
     \<and> (act \<noteq> [] \<longrightarrow> job_activation j = act)
     \<and> (if cap_id \<noteq> [] then job_cap j = cap_id else exclude \<noteq> [] \<longrightarrow> job_cap j \<noteq> exclude)"

definition has_queued :: "string \<Rightarrow> string \<Rightarrow> string \<Rightarrow> string \<Rightarrow> store \<Rightarrow> bool" where
  "has_queued agent cap_id exclude raw s \<longleftrightarrow>
     select_first (claimable agent cap_id exclude (norm_activation_id raw)) (jobs s) \<noteq> None"

record delivery =
  dl_id :: string
  dl_cap :: string
  dl_capver :: string
  dl_inputs :: string
  dl_token :: string
  dl_activation :: string
  dl_lease :: nat

definition claim_row :: "string \<Rightarrow> real \<Rightarrow> job \<Rightarrow> job" where
  "claim_row token lease j =
     j\<lparr>job_state := Claimed, job_token := token, job_lease := Some lease, job_input := scrub_tunnel j\<rparr>"

fun claim_loop :: "cipher \<Rightarrow> job_policy \<Rightarrow> real \<Rightarrow> (nat \<Rightarrow> string) \<Rightarrow> nat \<Rightarrow> job list \<Rightarrow> job list
    \<Rightarrow> (delivery list \<times> job list) result" where
  "claim_loop C pol now toks i [] js = Inr ([], js)"
| "claim_loop C pol now toks i (r # rs) js =
     (let js1 = update_rows (\<lambda>j. job_id j = job_id r)
                  (claim_row (toks i) (now + real (lease_seconds pol))) js
      in bindE (open_payload C (job_input r) (job_id r @ '':input'')) (\<lambda>inp.
         bindE (claim_loop C pol now toks (Suc i) rs js1) (\<lambda>(ds, js2).
         Inr (\<lparr>dl_id = job_id r, dl_cap = job_cap r, dl_capver = job_capver r, dl_inputs = inp,
               dl_token = toks i, dl_activation = job_activation r, dl_lease = lease_seconds pol\<rparr> # ds, js2))))"

definition claim_limit :: "int \<Rightarrow> nat" where
  "claim_limit n = nat (max 1 (min n 16))"

definition claim_select :: "int \<Rightarrow> string \<Rightarrow> string \<Rightarrow> string \<Rightarrow> string \<Rightarrow> job list \<Rightarrow> job list" where
  "claim_select n agent cap_id exclude act js =
     take (claim_limit n) (sort_key job_created (filter (claimable agent cap_id exclude act) js))"

definition claim :: "cipher \<Rightarrow> job_policy \<Rightarrow> clock \<Rightarrow> (nat \<Rightarrow> string) \<Rightarrow> string \<Rightarrow> int \<Rightarrow> string \<Rightarrow> string
    \<Rightarrow> string \<Rightarrow> store \<Rightarrow> delivery list result \<times> store" where
  "claim C pol clk toks agent n cap_id exclude raw s =
     in_tx s (let act = norm_activation_id raw; js = expire (clk 0) [] (jobs s) in
       bindE (claim_loop C pol (clk 1) toks 0 (claim_select n agent cap_id exclude act js) js)
         (\<lambda>(ds, js'). Inr (ds, s\<lparr>jobs := js'\<rparr>)))"

definition owned :: "job list \<Rightarrow> string \<Rightarrow> string \<Rightarrow> string \<Rightarrow> string \<Rightarrow> job result" where
  "owned js jid agent token raw =
     (case select_first (\<lambda>j. job_id j = jid) js of
        None \<Rightarrow> Inl (ValueError ''Operation ownership is no longer valid.'')
      | Some r \<Rightarrow> if job_agent r \<noteq> agent \<or> token = [] \<or> job_token r \<noteq> token
            \<or> job_activation r \<noteq> norm_activation_id raw
          then Inl (ValueError ''Operation ownership is no longer valid.'') else Inr r)"

datatype control_action = Start | Renew

definition control :: "job_policy \<Rightarrow> clock \<Rightarrow> string \<Rightarrow> string \<Rightarrow> string \<Rightarrow> string \<Rightarrow> control_action
    \<Rightarrow> store \<Rightarrow> (job_state \<times> nat) result \<times> store" where
  "control pol clk jid agent token raw action s = in_tx s (let js = expire (clk 0) jid (jobs s) in
     bindE (owned js jid agent token raw) (\<lambda>r.
       if \<not> in_flight (job_state r) then Inr ((job_state r, lease_seconds pol), s\<lparr>jobs := js\<rparr>)
       else (let now = clk 1; lease = Some (now + real (lease_seconds pol)) in
         case action of
           Start \<Rightarrow> if job_state r \<noteq> Claimed
             then Inl (ValueError ''Operation has already started; do not execute it again.'')
             else Inr ((Running, lease_seconds pol), s\<lparr>jobs := update_rows (\<lambda>j. job_id j = jid)
               (\<lambda>j. j\<lparr>job_state := Running, job_started := Some now, job_lease := lease\<rparr>) js\<rparr>)
         | Renew \<Rightarrow> Inr ((job_state r, lease_seconds pol), s\<lparr>jobs := update_rows (\<lambda>j. job_id j = jid)
               (\<lambda>j. j\<lparr>job_lease := lease\<rparr>) js\<rparr>))))"

definition cancelled_row :: "real \<Rightarrow> job \<Rightarrow> job" where
  "cancelled_row now j = j\<lparr>job_state := Cancelled, job_input := scrub_tunnel j, job_completed := Some now,
     job_error := ''Cancelled before execution started.''\<rparr>"

definition cancel :: "cipher \<Rightarrow> clock \<Rightarrow> string \<Rightarrow> string \<Rightarrow> store \<Rightarrow> job result \<times> store" where
  "cancel C clk jid requester s = finish_view C (in_tx s (let js = expire (clk 0) jid (jobs s) in
     case select_first (\<lambda>j. job_id j = jid \<and> job_requester j = requester) js of
       None \<Rightarrow> Inl (ValueError ''Operation not found.'')
     | Some r \<Rightarrow>
         (let js' = (if job_state r = Queued \<or> job_state r = Claimed
               then update_rows (\<lambda>j. job_id j = jid) (cancelled_row (clk 1)) js
             else if job_state r = Running
               then update_rows (\<lambda>j. job_id j = jid) (\<lambda>j. j\<lparr>job_state := CancelRequested,
                 job_error := ''Cancellation requested. Execution may still finish; do not resubmit.''\<rparr>) js
             else js)
          in case select_first (\<lambda>j. job_id j = jid) js' of
               None \<Rightarrow> Inl (ValueError ''Operation not found.'')
             | Some r' \<Rightarrow> Inr (r', s\<lparr>jobs := js'\<rparr>))))"

definition delete_job :: "clock \<Rightarrow> string \<Rightarrow> string \<Rightarrow> store \<Rightarrow> bool result \<times> store" where
  "delete_job clk jid requester s =
     (let js = expire (clk 0) jid (jobs s);
          p = (\<lambda>j. job_id j = jid \<and> job_requester j = requester
                 \<and> job_state j \<in> {Succeeded, Failed, Cancelled});
          n = row_count p js;
          s1 = s\<lparr>jobs := delete_rows p js\<rparr>
      in (Inr (n = 1), if n \<noteq> 0
            then s1\<lparr>chunks := delete_rows (\<lambda>c. chunk_job c = jid) (chunks s1),
                    transfers := delete_rows (\<lambda>t. transfer_job t = jid) (transfers s1)\<rparr>
            else s1))"

text \<open>
  \<open>_read_current\<close>: one read snapshot; when a returned row is overdue, a write transaction
  that expires the overdue rows of a second reading and answers from a third.  The query is the
  selection function.
\<close>

definition read_current :: "clock \<Rightarrow> (job list \<Rightarrow> job list) \<Rightarrow> store \<Rightarrow> job list \<times> store" where
  "read_current clk query s =
     (if \<not> list_ex (\<lambda>r. needs_expiry r (clk 0)) (query (jobs s)) then (query (jobs s), s)
      else (let js = fold (\<lambda>r js. if needs_expiry r (clk 1) then expire (clk 2) (job_id r) js else js)
                       (query (jobs s)) (jobs s)
            in (query js, s\<lparr>jobs := js\<rparr>)))"

definition get_job :: "cipher \<Rightarrow> clock \<Rightarrow> string \<Rightarrow> store \<Rightarrow> job option result \<times> store" where
  "get_job C clk jid s = (case read_current clk (filter (\<lambda>j. job_id j = jid)) s of
       ([], s') \<Rightarrow> (Inr None, s') | (r # _, s') \<Rightarrow> (bindE (job_view C r) (\<lambda>v. Inr (Some v)), s'))"

definition get_for_requester :: "cipher \<Rightarrow> clock \<Rightarrow> string \<Rightarrow> string \<Rightarrow> store \<Rightarrow> job option result \<times> store" where
  "get_for_requester C clk jid requester s =
     (case read_current clk (filter (\<lambda>j. job_id j = jid \<and> job_requester j = requester)) s of
       ([], s') \<Rightarrow> (Inr None, s') | (r # _, s') \<Rightarrow> (bindE (job_view C r) (\<lambda>v. Inr (Some v)), s'))"

fun view_all :: "cipher \<Rightarrow> job list \<Rightarrow> job list result" where
  "view_all C [] = Inr []"
| "view_all C (r # rs) = bindE (job_view C r) (\<lambda>v. bindE (view_all C rs) (\<lambda>vs. Inr (v # vs)))"

definition newest_first :: "job list \<Rightarrow> job list" where
  "newest_first js = sort_key (\<lambda>j. - job_created j) js"

definition recent_jobs :: "cipher \<Rightarrow> clock \<Rightarrow> string \<Rightarrow> int \<Rightarrow> store \<Rightarrow> job list result \<times> store" where
  "recent_jobs C clk requester n s =
     (case read_current clk (\<lambda>js. take (nat (max 1 (min n 100)))
             (newest_first (filter (\<lambda>j. job_requester j = requester) js))) s of
       (rs, s') \<Rightarrow> (view_all C rs, s'))"

definition latest_job :: "cipher \<Rightarrow> clock \<Rightarrow> string \<Rightarrow> string \<Rightarrow> string \<Rightarrow> string \<Rightarrow> store
    \<Rightarrow> job option result \<times> store" where
  "latest_job C clk agent requester cap capver s =
     (case read_current clk (\<lambda>js. take 1 (newest_first (filter (\<lambda>j. job_agent j = agent
             \<and> job_requester j = requester \<and> job_cap j = cap \<and> job_capver j = capver) js))) s of
       ([], s') \<Rightarrow> (Inr None, s') | (r # _, s') \<Rightarrow> (bindE (job_view C r) (\<lambda>v. Inr (Some v)), s'))"

end
