(* ===== verification/Response_Transfer.thy ===== *)
theory Response_Transfer
  imports Distributed_Store
begin

text \<open>
  \<open>twn_toolkit/distributed_response.py\<close>: the attempt-bound chunks of a large response,
  their ordered append, their verification against the final descriptor and their one delivery;
  with the two operations of \<open>distributed_jobs.py\<close> that use them, \<open>complete\<close> and
  \<open>prune_payloads\<close>.  Parameters: \<open>sha\<close> is \<open>hashlib.sha256(_).hexdigest()\<close>,
  \<open>loads\<close> reads the stored text of a result document back into its fields,
  \<open>free\<close> is the number of free bytes on the disk.
\<close>

section \<open>Base64\<close>

definition b64_value :: "char \<Rightarrow> nat option" where
  "b64_value c = (let n = of_char c in
     if 65 \<le> n \<and> n \<le> 90 then Some (n - 65)
     else if 97 \<le> n \<and> n \<le> 122 then Some (n - 71)
     else if 48 \<le> n \<and> n \<le> 57 then Some (n + 4)
     else if n = 43 then Some 62 else if n = 47 then Some 63 else None)"

definition b64_quad :: "nat \<Rightarrow> nat \<Rightarrow> nat \<Rightarrow> nat \<Rightarrow> bytes" where
  "b64_quad a b c d = [of_nat (4 * a + b div 16), of_nat (16 * (b mod 16) + c div 4), of_nat (64 * (c mod 4) + d)]"

text \<open>\<open>base64.b64decode(_, validate=True)\<close>; \<open>None\<close> stands for the exception.\<close>

fun b64decode :: "string \<Rightarrow> bytes option" where
  "b64decode [] = Some []"
| "b64decode (p # q # r # s # rest) =
     (case (b64_value p, b64_value q) of
        (Some a, Some b) \<Rightarrow>
          if rest = [] \<and> r = CHR ''='' \<and> s = CHR ''='' then Some (take 1 (b64_quad a b 0 0))
          else (case b64_value r of None \<Rightarrow> None | Some c \<Rightarrow>
            if rest = [] \<and> s = CHR ''='' then Some (take 2 (b64_quad a b c 0))
            else (case b64_value s of None \<Rightarrow> None
              | Some d \<Rightarrow> map_option (append (b64_quad a b c d)) (b64decode rest)))
      | _ \<Rightarrow> None)"
| "b64decode _ = None"

definition b64_result :: "string \<Rightarrow> bytes result" where
  "b64_result s = (case b64decode s of None \<Rightarrow> Inl (ValueError ''base64'') | Some d \<Rightarrow> Inr d)"

section \<open>Chunks\<close>

datatype json_field = Absent | JBool bool | JInt int | JStr string | JOther bool

fun field_truthy :: "json_field \<Rightarrow> bool" where
  "field_truthy Absent = False"
| "field_truthy (JBool b) = b"
| "field_truthy (JInt n) = (n \<noteq> 0)"
| "field_truthy (JStr s) = (s \<noteq> [])"
| "field_truthy (JOther b) = b"

record response_doc =
  doc_text :: string
  body_transfer :: json_field
  body_size :: json_field
  body_sha256 :: json_field
  body_field :: json_field

record response_policy =
  response_mib :: nat
  quota_mib :: nat
  retention_minutes :: nat
  minimum_free_gib :: nat

definition response_chunk_bytes :: nat where
  "response_chunk_bytes = 64 * 1024"

definition chunk_context :: "string \<Rightarrow> string \<Rightarrow> nat \<Rightarrow> string" where
  "chunk_context jid attempt pos = jid @ '':'' @ attempt @ '':response:'' @ show_nat pos"

definition prune_response_chunks :: "real \<Rightarrow> real \<Rightarrow> store \<Rightarrow> store" where
  "prune_response_chunks t1 t2 s =
     (let expired = (\<lambda>jid. list_ex (\<lambda>t. transfer_job t = jid \<and> transfer_expires t \<le> t1) (transfers s));
          js = update_rows (\<lambda>j. job_state j = Succeeded \<and> job_cap j = tunnel_cap \<and> expired (job_id j))
                 (\<lambda>j. j\<lparr>job_output := None\<rparr>) (jobs s);
          live = (\<lambda>jid. list_ex (\<lambda>j. job_id j = jid \<and> job_state j \<noteq> Failed \<and> job_state j \<noteq> Cancelled
                     \<and> job_payload_exp j \<noteq> None) js);
          kept = (\<lambda>jid. list_ex (\<lambda>j. job_id j = jid \<and> job_payload_exp j \<noteq> None) js)
      in s\<lparr>jobs := js,
           chunks := delete_rows (\<lambda>c. chunk_expires c \<le> t2 \<or> \<not> live (chunk_job c)) (chunks s),
           transfers := delete_rows (\<lambda>t. \<not> kept (transfer_job t)) (transfers s)\<rparr>)"

definition job_chunks :: "string \<Rightarrow> chunk list \<Rightarrow> chunk list" where
  "job_chunks jid cs = filter (\<lambda>c. chunk_job c = jid) cs"

definition append_response_chunk :: "cipher \<Rightarrow> (bytes \<Rightarrow> string) \<Rightarrow> response_policy \<Rightarrow> int \<Rightarrow> clock
    \<Rightarrow> string \<Rightarrow> string \<Rightarrow> string \<Rightarrow> string \<Rightarrow> int \<Rightarrow> string \<Rightarrow> store \<Rightarrow> bool result \<times> store" where
  "append_response_chunk C sha pol free clk jid agent token raw position body s = in_tx s (
     if \<not> (0 \<le> position \<and> position < 4096) then Inl (ValueError ''Invalid response chunk position.'')
     else if (response_chunk_bytes + 2) div 3 * 4 < length body then Inl (ValueError ''Response chunk is too large.'')
     else bindE (b64_result body) (\<lambda>data.
       if \<not> (0 < length data \<and> length data \<le> response_chunk_bytes)
       then Inl (ValueError ''Invalid response chunk size.'')
       else (let pos = nat position; digest = sha data;
                 sealed = seal C body (chunk_context jid token pos);
                 s1 = prune_response_chunks (clk 1) (clk 2) (s\<lparr>jobs := expire (clk 0) jid (jobs s)\<rparr>)
       in bindE (owned (jobs s1) jid agent token raw) (\<lambda>job.
         if job_state job \<noteq> Running \<or> job_cap job \<noteq> tunnel_cap
         then Inl (ValueError ''Response transfer no longer owns a running GUI operation.'')
         else (let xfer = select_first (\<lambda>t. transfer_job t = jid) (transfers s1) in
           if (case xfer of None \<Rightarrow> False
               | Some t \<Rightarrow> transfer_attempt t \<noteq> token \<or> transfer_expires t \<le> clk 3)
           then Inl (ValueError ''Response transfer is expired or belongs to another attempt.'')
           else (case select_first (\<lambda>c. chunk_job c = jid \<and> chunk_position c = pos) (chunks s1) of
             Some prev \<Rightarrow>
               if chunk_attempt prev = token \<and> chunk_size prev = length data \<and> chunk_digest prev = digest
               then Inr (True, s1) else Inl (ValueError ''Response chunk conflicts with a previous chunk.'')
           | None \<Rightarrow>
             (let mine = job_chunks jid (chunks s1);
                  total = sum_list (map chunk_size mine);
                  used = sum_list (map (\<lambda>c. length (chunk_payload c)) (chunks s1))
              in if pos \<noteq> length mine then Inl (ValueError ''Response chunks must arrive in order.'')
                 else if response_mib pol * 1048576 < total + length data
                 then Inl (ValueError ''Agent response exceeds the configured size limit.'')
                 else if quota_mib pol * 1048576 < used + length sealed
                 then Inl (ValueError ''Agent response storage quota is full.'')
                 else if free - int (length sealed) * 3 < int (minimum_free_gib pol) * 1073741824
                 then Inl (ValueError ''Agent response would cross the free-disk reserve.'')
                 else (let expires = (case xfer of Some t \<Rightarrow> transfer_expires t
                             | None \<Rightarrow> clk 4 + real (retention_minutes pol) * 60);
                           ts = (case xfer of Some t \<Rightarrow> transfers s1
                             | None \<Rightarrow> transfers s1 @ [\<lparr>transfer_job = jid, transfer_attempt = token,
                                 transfer_expires = expires\<rparr>])
                       in Inr (True, s1\<lparr>transfers := ts,
                            chunks := chunks s1 @ [\<lparr>chunk_job = jid, chunk_attempt = token,
                              chunk_position = pos, chunk_payload = sealed, chunk_size = length data,
                              chunk_digest = digest, chunk_expires = expires\<rparr>]\<rparr>)))))))))"

definition response_chunk_data :: "cipher \<Rightarrow> chunk \<Rightarrow> bytes result" where
  "response_chunk_data C c =
     bindE (open_payload C (chunk_payload c)
              (chunk_context (chunk_job c) (chunk_attempt c) (chunk_position c))) b64_result"

text \<open>The loop of \<open>_verify_response\<close>: the k-th chunk must be at position k, of this
  attempt and not expired; the bytes read so far are the accumulator.\<close>

fun verify_chunks :: "cipher \<Rightarrow> real \<Rightarrow> string \<Rightarrow> nat \<Rightarrow> bytes \<Rightarrow> chunk list \<Rightarrow> (nat \<times> bytes) result" where
  "verify_chunks C now attempt count acc [] = Inr (count, acc)"
| "verify_chunks C now attempt count acc (c # cs) =
     (if chunk_attempt c \<noteq> attempt \<or> chunk_position c \<noteq> count \<or> chunk_expires c \<le> now
      then Inl (ValueError ''Response transfer is incomplete or expired.'')
      else bindE (response_chunk_data C c) (\<lambda>data.
        verify_chunks C now attempt (Suc count) (acc @ data) cs))"

definition verify_response :: "cipher \<Rightarrow> (bytes \<Rightarrow> string) \<Rightarrow> real \<Rightarrow> chunk list \<Rightarrow> job \<Rightarrow> response_doc
    \<Rightarrow> nat result" where
  "verify_response C sha now cs job doc =
     (if body_transfer doc \<noteq> JInt 1 then Inl (ValueError ''Unsupported response transfer.'')
      else if job_cap job \<noteq> tunnel_cap then Inl (ValueError ''Response transfer is limited to GUI operations.'')
      else (case (body_size doc, body_sha256 doc) of
        (JInt n, JStr digest) \<Rightarrow>
          if n \<le> 0 then Inl (ValueError ''Invalid response descriptor.'')
          else bindE (verify_chunks C now (job_token job) 0 []
                       (sort_key chunk_position (job_chunks (job_id job) cs))) (\<lambda>(count, data).
            if int (length data) \<noteq> n \<or> sha data \<noteq> digest
            then Inl (ValueError ''Response transfer failed size or checksum verification.'')
            else Inr count)
      | _ \<Rightarrow> Inl (ValueError ''Invalid response descriptor.'')))"

section \<open>Completion\<close>

datatype result_receipt = RSucceeded | RFailed | RUnknown

fun receipt_state :: "result_receipt \<Rightarrow> job_state" where
  "receipt_state RSucceeded = Succeeded"
| "receipt_state RFailed = Failed"
| "receipt_state RUnknown = Unknown"

text \<open>\<open>' '.join(str(error).split())[:1000]\<close>.\<close>

definition clean_error :: "string \<Rightarrow> string" where
  "clean_error e = take 1000 (join_with '' '' (split_words e))"

definition complete :: "cipher \<Rightarrow> (bytes \<Rightarrow> string) \<Rightarrow> job_policy \<Rightarrow> clock \<Rightarrow> string \<Rightarrow> string \<Rightarrow> result_receipt
    \<Rightarrow> response_doc \<Rightarrow> string \<Rightarrow> string \<Rightarrow> string \<Rightarrow> store \<Rightarrow> job result \<times> store" where
  "complete C sha pol clk jid agent rc doc err token raw s =
     (case json_payload (doc_text doc) ''Job output'' of Inl e \<Rightarrow> (Inl e, s) | Inr text \<Rightarrow>
       (let payload = seal C text (jid @ '':output'');
            sealed_error = seal C (clean_error err) (jid @ '':error'');
            js = expire (clk 0) jid (jobs s)
        in case owned js jid agent token raw of Inl e \<Rightarrow> (Inl e, s) | Inr r \<Rightarrow>
          if job_state r \<in> {Succeeded, Failed, Cancelled}
          then in_tx s (bindE (job_view C r) (\<lambda>v. Inr (v, s\<lparr>jobs := js\<rparr>)))
          else if job_state r \<notin> {Running, CancelRequested, Unknown}
          then (Inl (ValueError ''An unstarted operation cannot complete.''), s)
          else case (if rc = RSucceeded \<and> field_truthy (body_transfer doc)
                     then verify_response C sha (clk 1) (chunks s) r doc else Inr 0) of
            Inl e \<Rightarrow> (Inl e, s)
          | Inr _ \<Rightarrow> finish_view C (in_tx s (
              let js' = update_rows (\<lambda>j. job_id j = jid) (\<lambda>j. j\<lparr>job_state := receipt_state rc,
                    job_output := Some payload, job_error := sealed_error, job_completed := Some (clk 2),
                    job_payload_exp := Some (clk 3 + real (retention_seconds pol)), job_lease := None\<rparr>) js
              in case select_first (\<lambda>j. job_id j = jid) js' of
                   None \<Rightarrow> Inl (ValueError ''Operation not found.'')
                 | Some r' \<Rightarrow> Inr (r', s\<lparr>jobs := js'\<rparr>)))))"

definition prune_payloads :: "clock \<Rightarrow> store \<Rightarrow> unit result \<times> store" where
  "prune_payloads clk s =
     (Inr (), prune_response_chunks (clk 1) (clk 2) (s\<lparr>jobs := expire (clk 0) [] (jobs s)\<rparr>))"

section \<open>Delivery\<close>

text \<open>
  The transaction of \<open>consume_response\<close>: it clears the stored result, so a second call finds
  none.  The answer is the inline content, or the number of chunks to stream.
\<close>

definition consume_start :: "cipher \<Rightarrow> (bytes \<Rightarrow> string) \<Rightarrow> (string \<Rightarrow> response_doc) \<Rightarrow> clock \<Rightarrow> string
    \<Rightarrow> string \<Rightarrow> store \<Rightarrow> ((bytes + nat) \<times> response_doc) result \<times> store" where
  "consume_start C sha loads clk jid requester s = in_tx s (let js = expire (clk 0) jid (jobs s) in
     case select_first (\<lambda>j. job_id j = jid \<and> job_requester j = requester) js of
       None \<Rightarrow> Inl (ValueError ''The response is unavailable or has already been retrieved.'')
     | Some r \<Rightarrow>
       (case job_output r of None \<Rightarrow> Inl (ValueError ''The response is unavailable or has already been retrieved.'')
        | Some raw \<Rightarrow>
          if job_cap r \<noteq> tunnel_cap \<or> job_state r \<noteq> Succeeded \<or> raw = []
          then Inl (ValueError ''The response is unavailable or has already been retrieved.'')
          else bindE (open_payload C raw (jid @ '':output'')) (\<lambda>text. let doc = loads text in
            bindE (if field_truthy (body_transfer doc)
              then (case select_first (\<lambda>t. transfer_job t = jid) (transfers s) of
                      None \<Rightarrow> Inl (ValueError ''The response has expired.'')
                    | Some t \<Rightarrow> if transfer_expires t \<le> clk 1
                        then Inl (ValueError ''The response has expired.'')
                        else bindE (verify_response C sha (clk 2) (chunks s) r doc) (\<lambda>n. Inr (Inr n)))
              else (case body_field doc of
                      Absent \<Rightarrow> Inr (Inl [])
                    | JStr b \<Rightarrow> bindE (b64_result b) (\<lambda>d. Inr (Inl d))
                    | _ \<Rightarrow> Inl (ValueError ''argument should be a bytes-like object or ASCII string''))) (\<lambda>content.
            Inr ((content, doc), s\<lparr>jobs := update_rows (\<lambda>j. job_id j = jid) (\<lambda>j. j\<lparr>job_output := None\<rparr>) js\<rparr>)))))"

text \<open>The generator \<open>chunks()\<close> run against one state of the chunk table.\<close>

fun stream_chunks :: "cipher \<Rightarrow> clock \<Rightarrow> string \<Rightarrow> nat \<Rightarrow> nat \<Rightarrow> chunk list \<Rightarrow> bytes list \<times> py_error option" where
  "stream_chunks C clk jid pos 0 cs = ([], None)"
| "stream_chunks C clk jid pos (Suc n) cs =
     (case select_first (\<lambda>c. chunk_job c = jid \<and> chunk_position c = pos) cs of
        None \<Rightarrow> ([], Some (ValueError ''Response expired during delivery.''))
      | Some c \<Rightarrow> if chunk_expires c \<le> clk pos
          then ([], Some (ValueError ''Response expired during delivery.''))
          else (case response_chunk_data C c of Inl e \<Rightarrow> ([], Some e)
            | Inr d \<Rightarrow> (case stream_chunks C clk jid (Suc pos) n cs of (ds, e) \<Rightarrow> (d # ds, e))))"

definition consume_response :: "cipher \<Rightarrow> (bytes \<Rightarrow> string) \<Rightarrow> (string \<Rightarrow> response_doc) \<Rightarrow> clock \<Rightarrow> clock
    \<Rightarrow> string \<Rightarrow> string \<Rightarrow> store \<Rightarrow> (bytes list \<times> py_error option) result \<times> store" where
  "consume_response C sha loads clk clk' jid requester s =
     (case consume_start C sha loads clk jid requester s of
        (Inl e, s') \<Rightarrow> (Inl e, s')
      | (Inr (Inl d, doc), s') \<Rightarrow> (Inr ([d], None), snd (discard_tunnel_output jid requester s'))
      | (Inr (Inr n, doc), s') \<Rightarrow> (Inr (stream_chunks C clk' jid 0 n (chunks s')),
            snd (discard_tunnel_output jid requester s')))"

end
