(* ===== verification/Distributed_Jobs.thy ===== *)
theory Distributed_Jobs
  imports Response_Transfer
begin

text \<open>
  The queue of \<open>distributed_jobs.py\<close> and \<open>distributed_response.py\<close> as one machine: every
  public operation is an \<open>op\<close>, \<open>step\<close> runs it on the store.  The theory shows how one row
  may evolve, that this holds for every operation, and what follows for whole runs: terminal
  outcomes are final, an execution starts at most once, a response is delivered at most once,
  a worker that lost its claim can change nothing, chunks stay contiguous.
\<close>

record env =
  env_cipher :: cipher
  env_sha :: "bytes \<Rightarrow> string"
  env_loads :: "string \<Rightarrow> response_doc"
  env_jobs :: job_policy
  env_responses :: response_policy
  env_free :: int

datatype op =
    OpEnqueue clock string string string string string string
  | OpActivate clock string string
  | OpDiscard string string
  | OpClaim clock "nat \<Rightarrow> string" string int string string string
  | OpControl clock string string string string control_action
  | OpComplete clock string string result_receipt response_doc string string string
  | OpCancel clock string string
  | OpDelete clock string string
  | OpPrune clock
  | OpAppend clock string string string string int string
  | OpConsume clock clock string string
  | OpRead clock "job list \<Rightarrow> job list"

fun step :: "env \<Rightarrow> store \<Rightarrow> op \<Rightarrow> store" where
  "step E s (OpEnqueue clk hex agent requester cap capver inputs) =
     snd (enqueue (env_cipher E) (env_jobs E) clk hex agent requester cap capver inputs s)"
| "step E s (OpActivate clk agent raw) = snd (activate_agent clk agent raw s)"
| "step E s (OpDiscard jid requester) = snd (discard_tunnel_output jid requester s)"
| "step E s (OpClaim clk toks agent n cap_id exclude raw) =
     snd (claim (env_cipher E) (env_jobs E) clk toks agent n cap_id exclude raw s)"
| "step E s (OpControl clk jid agent token raw action) =
     snd (control (env_jobs E) clk jid agent token raw action s)"
| "step E s (OpComplete clk jid agent rc doc err token raw) =
     snd (complete (env_cipher E) (env_sha E) (env_jobs E) clk jid agent rc doc err token raw s)"
| "step E s (OpCancel clk jid requester) = snd (cancel (env_cipher E) clk jid requester s)"
| "step E s (OpDelete clk jid requester) = snd (delete_job clk jid requester s)"
| "step E s (OpPrune clk) = snd (prune_payloads clk s)"
| "step E s (OpAppend clk jid agent token raw position body) =
     snd (append_response_chunk (env_cipher E) (env_sha E) (env_responses E) (env_free E) clk
       jid agent token raw position body s)"
| "step E s (OpConsume clk clk' jid requester) =
     snd (consume_response (env_cipher E) (env_sha E) (env_loads E) clk clk' jid requester s)"
| "step E s (OpRead clk query) = snd (read_current clk query s)"

section \<open>How a row evolves\<close>

fun may_become :: "job_state \<Rightarrow> job_state \<Rightarrow> bool" where
  "may_become Queued t = True"
| "may_become Claimed t = (t \<noteq> Queued)"
| "may_become Running t = (t \<in> {Running, CancelRequested, Unknown, Succeeded, Failed})"
| "may_become CancelRequested t = (t \<in> {CancelRequested, Unknown, Succeeded, Failed})"
| "may_become Unknown t = (t \<in> {Unknown, Succeeded, Failed})"
| "may_become st t = (t = st)"

lemma may_become_refl [simp]: "may_become st st"
  by (cases st) auto

lemma may_become_trans: "may_become a b \<Longrightarrow> may_become b c \<Longrightarrow> may_become a c"
  by (cases a; cases b; cases c) auto

definition settled :: "job \<Rightarrow> bool" where
  "settled j \<longleftrightarrow> job_state j = Succeeded \<or> job_state j = Failed \<or> job_state j = Cancelled"

text \<open>The identity of a job never changes; its state moves forward; a token, once it is
  issued, is only ever withdrawn; a settled row never gets a result back.\<close>

definition evolves :: "job \<Rightarrow> job \<Rightarrow> bool" where
  "evolves j j' \<longleftrightarrow>
     job_id j' = job_id j \<and> job_agent j' = job_agent j \<and> job_requester j' = job_requester j
     \<and> job_cap j' = job_cap j \<and> job_capver j' = job_capver j \<and> job_created j' = job_created j
     \<and> may_become (job_state j) (job_state j')
     \<and> (job_state j \<noteq> Queued \<longrightarrow> job_token j' = job_token j \<or> job_token j' = [])
     \<and> (settled j \<and> job_output j = None \<longrightarrow> job_output j' = None)"

lemma evolves_refl [simp]: "evolves j j"
  by (simp add: evolves_def)

lemma evolves_trans: "evolves a b \<Longrightarrow> evolves b c \<Longrightarrow> evolves a c"
  unfolding evolves_def settled_def
  by (cases "job_state a"; cases "job_state b") (auto dest: may_become_trans)

definition rows_evolve :: "job list \<Rightarrow> job list \<Rightarrow> bool" where
  "rows_evolve js js' \<longleftrightarrow> list_all2 evolves js js'"

lemma rows_evolve_refl [simp]: "rows_evolve js js"
  by (simp add: rows_evolve_def list_all2_same)

lemma rows_evolve_trans: "rows_evolve a b \<Longrightarrow> rows_evolve b c \<Longrightarrow> rows_evolve a c"
  unfolding rows_evolve_def by (rule list_all2_trans [of evolves evolves]) (auto intro: evolves_trans)

lemma rows_evolve_update:
  "(\<And>j. j \<in> set js \<Longrightarrow> p j \<Longrightarrow> evolves j (f j)) \<Longrightarrow> rows_evolve js (update_rows p f js)"
  by (auto simp: rows_evolve_def update_rows_def list_all2_conv_all_nth)

lemma rows_evolve_ids: "rows_evolve js js' \<Longrightarrow> map job_id js' = map job_id js"
  unfolding rows_evolve_def by (induction rule: list_all2_induct) (auto simp: evolves_def)

lemma rows_evolve_source:
  "rows_evolve js js' \<Longrightarrow> j' \<in> set js' \<Longrightarrow> \<exists>j\<in>set js. evolves j j'"
  unfolding rows_evolve_def by (induction rule: list_all2_induct) auto

lemma rows_evolve_count:
  "rows_evolve js js' \<Longrightarrow> (\<And>j j'. evolves j j' \<Longrightarrow> p j' \<Longrightarrow> p j) \<Longrightarrow> row_count p js' \<le> row_count p js"
  unfolding rows_evolve_def row_count_def by (induction rule: list_all2_induct) (auto simp: le_SucI)

lemma expire_evolves: "rows_evolve js (expire now jid js)"
proof -
  have "rows_evolve js (update_rows (\<lambda>j. in_flight (job_state j) \<and> due (job_lease j) now \<and> in_scope jid j)
         (expire_lease_row now) js)"
    by (rule rows_evolve_update) (auto simp: evolves_def expire_lease_row_def in_flight_def settled_def)
  moreover have "rows_evolve js (update_rows q (expire_payload_row now) js)" for q js
    by (rule rows_evolve_update) (auto simp: evolves_def expire_payload_row_def settled_def)
  ultimately show ?thesis
    unfolding expire_def by (blast intro: rows_evolve_trans)
qed

lemma expire_ids [simp]: "map job_id (expire now jid js) = map job_id js"
  by (rule rows_evolve_ids [OF expire_evolves])

lemma expire_id_set [simp]: "job_id ` set (expire now jid js) = job_id ` set js"
  using expire_ids [of now jid js] by (metis set_map)

section \<open>Every operation moves the rows forward\<close>

text \<open>An operation may also delete rows, after it has moved them.\<close>

definition jobs_advance :: "job list \<Rightarrow> job list \<Rightarrow> bool" where
  "jobs_advance js js' \<longleftrightarrow> (\<exists>js1 p. rows_evolve js js1 \<and> js' = delete_rows p js1)"

lemma advanceI: "rows_evolve js js' \<Longrightarrow> jobs_advance js js'"
  unfolding jobs_advance_def delete_rows_def
  by (rule exI [of _ js'], rule exI [of _ "\<lambda>_. False"]) simp

lemma advance_refl [simp]: "jobs_advance js js"
  by (rule advanceI) simp

lemma advance_delete: "rows_evolve js js1 \<Longrightarrow> jobs_advance js (delete_rows p js1)"
  by (auto simp: jobs_advance_def)

text \<open>An update of the row with a given key, justified at the row a lookup returned.\<close>

lemma evolve_at_key:
  assumes "distinct (map job_id js)" "r \<in> set js" "job_id r = jid" "evolves r (f r)"
  shows "rows_evolve js (update_rows (\<lambda>j. job_id j = jid) f js)"
  using assms key_unique [of job_id js] by (intro rows_evolve_update) metis

lemma expire_then_key:
  assumes "distinct (map job_id js)" "r \<in> set (expire now jid' js)" "job_id r = jid" "evolves r (f r)"
  shows "rows_evolve js (update_rows (\<lambda>j. job_id j = jid) f (expire now jid' js))"
  using assms by (intro rows_evolve_trans [OF expire_evolves evolve_at_key]) auto

lemma owned_Inr:
  "owned js jid agent token raw = Inr r \<Longrightarrow>
     r \<in> set js \<and> job_id r = jid \<and> job_agent r = agent \<and> token \<noteq> [] \<and> job_token r = token
     \<and> job_activation r = norm_activation_id raw"
  by (auto simp: owned_def dest: select_first_Some split: option.splits if_splits)

lemma enqueue_jobs:
  "jobs (snd (enqueue C pol clk hex agent requester cap capver inputs s)) = jobs s \<or>
   (\<exists>row. jobs (snd (enqueue C pol clk hex agent requester cap capver inputs s)) = jobs s @ [row]
     \<and> job_id row = ''job_'' @ hex \<and> job_id row \<notin> job_id ` set (jobs s)
     \<and> job_state row = Queued \<and> job_output row = None)"
  by (auto simp: enqueue_def finish_view_def snd_in_tx bindE_def Let_def split: sum.splits)

lemma retire_row_evolves: "activation_open j \<Longrightarrow> evolves j (retire_row now j)"
  by (auto simp: activation_open_def evolves_def retire_row_def settled_def)

lemma activate_advances: "jobs_advance (jobs s) (jobs (snd (activate_agent clk agent raw s)))"
proof -
  have retire: "jobs_advance js (update_rows (\<lambda>j. P j \<and> Q j \<and> activation_open j) (retire_row now) js)"
    for P Q now js
    by (intro advanceI rows_evolve_update) (auto intro: retire_row_evolves)
  have adopt: "jobs_advance js (update_rows p (\<lambda>j. j\<lparr>job_activation := a\<rparr>) js)" for p a js
    by (intro advanceI rows_evolve_update) (auto simp: evolves_def settled_def)
  show ?thesis
    by (simp add: activate_agent_def Let_def retire adopt split: option.split)
qed

lemma discard_advances: "jobs_advance (jobs s) (jobs (snd (discard_tunnel_output jid requester s)))"
proof -
  have "rows_evolve js (update_rows p (\<lambda>j. j\<lparr>job_output := None\<rparr>) js)" for p js
    by (rule rows_evolve_update) (auto simp: evolves_def settled_def)
  then show ?thesis
    by (auto simp: discard_tunnel_output_def Let_def intro: advanceI)
qed

lemma claim_row_evolves: "job_state j = Queued \<Longrightarrow> evolves j (claim_row token lease j)"
  by (simp add: evolves_def claim_row_def settled_def)

lemma claim_loop_evolves:
  assumes "claim_loop C pol now toks i rs js = Inr (ds, js')"
    and "distinct (map job_id js)" "distinct (map job_id rs)"
    and "\<And>r j. r \<in> set rs \<Longrightarrow> j \<in> set js \<Longrightarrow> job_id j = job_id r \<Longrightarrow> job_state j = Queued"
  shows "rows_evolve js js' \<and> map dl_id ds = map job_id rs"
  using assms
proof (induction rs arbitrary: i js ds js')
  case Nil
  then show ?case by simp
next
  case (Cons r rs)
  define js1 where "js1 = update_rows (\<lambda>j. job_id j = job_id r)
    (claim_row (toks i) (now + real (lease_seconds pol))) js"
  have ev: "rows_evolve js js1"
    unfolding js1_def
    using Cons.prems(4) [of r] by (intro rows_evolve_update claim_row_evolves) auto
  from Cons.prems(1) obtain inp ds1 where loop: "claim_loop C pol now toks (Suc i) rs js1 = Inr (ds1, js')"
    and ds: "map dl_id ds = job_id r # map dl_id ds1"
    by (auto simp: Let_def bindE_def js1_def split: sum.splits)
  have "distinct (map job_id js1)"
    using Cons.prems(2) rows_evolve_ids [OF ev] by simp
  moreover have "job_state j = Queued" if "q \<in> set rs" "j \<in> set js1" "job_id j = job_id q" for q j
  proof -
    from that(2) obtain j0 where "j0 \<in> set js" "j = (if job_id j0 = job_id r
        then claim_row (toks i) (now + real (lease_seconds pol)) j0 else j0)"
      unfolding js1_def by (auto simp: in_update_rows)
    moreover have "job_id q \<noteq> job_id r"
      using that(1) Cons.prems(3) by (auto dest!: bspec simp: image_iff)
    ultimately show ?thesis
      using that Cons.prems(4) [of q j0] by (auto simp: claim_row_def split: if_splits)
  qed
  ultimately have "rows_evolve js1 js' \<and> map dl_id ds1 = map job_id rs"
    using Cons.prems(3) by (intro Cons.IH [OF loop]) auto
  with ev ds show ?case by (auto intro: rows_evolve_trans)
qed

lemma claim_select_subset: "r \<in> set (claim_select n agent cap_id exclude act js) \<Longrightarrow>
    r \<in> set js \<and> claimable agent cap_id exclude act r"
  unfolding claim_select_def by (auto dest: in_set_takeD)

lemma distinct_sort_key: "distinct (map k xs) \<Longrightarrow> distinct (map k (sort_key f xs))"
  by (simp add: distinct_map)

lemma distinct_claim_select:
  "distinct (map job_id js) \<Longrightarrow> distinct (map job_id (claim_select n agent cap_id exclude act js))"
  unfolding claim_select_def
  by (simp add: take_map [symmetric] distinct_sort_key distinct_map_filter)

lemma claim_advances:
  assumes "distinct (map job_id (jobs s))"
  shows "jobs_advance (jobs s) (jobs (snd (claim C pol clk toks agent n cap_id exclude raw s)))"
proof -
  define js where "js = expire (clk 0) [] (jobs s)"
  have d: "distinct (map job_id js)" using assms by (simp add: js_def)
  have "rows_evolve js js'"
    if "claim_loop C pol (clk 1) toks 0 (claim_select n agent cap_id exclude act js) js = Inr (ds, js')" for ds js' act
    using claim_loop_evolves [OF that d distinct_claim_select [OF d]] key_unique [OF d]
    by (metis claim_select_subset claimable_def)
  then show ?thesis
    unfolding claim_def
    by (auto simp: snd_in_tx bindE_def Let_def js_def split: sum.splits
        intro!: advanceI intro: rows_evolve_trans [OF expire_evolves])
qed

lemma control_advances:
  assumes d: "distinct (map job_id (jobs s))"
  shows "jobs_advance (jobs s) (jobs (snd (control pol clk jid agent token raw action s)))"
proof -
  define js where "js = expire (clk 0) jid (jobs s)"
  have start: "rows_evolve (jobs s) (update_rows (\<lambda>j. job_id j = jid)
      (\<lambda>j. j\<lparr>job_state := Running, job_started := a, job_lease := b\<rparr>) js)"
    if "r \<in> set js" "job_id r = jid" "job_state r = Claimed" for r a b
    using that d unfolding js_def
    by (intro expire_then_key [of _ r]) (auto simp: evolves_def settled_def)
  have renew: "rows_evolve (jobs s) (update_rows (\<lambda>j. job_id j = jid) (\<lambda>j. j\<lparr>job_lease := b\<rparr>) js)" for b
    unfolding js_def
    by (rule rows_evolve_trans [OF expire_evolves rows_evolve_update]) (auto simp: evolves_def settled_def)
  show ?thesis
  proof (cases "owned js jid agent token raw")
    case (Inl e)
    then show ?thesis by (simp add: control_def Let_def js_def)
  next
    case (Inr r)
    with owned_Inr have "r \<in> set js" "job_id r = jid" by blast+
    note start' = start [OF this, THEN advanceI]
    show ?thesis
      using Inr start' renew [THEN advanceI] advanceI [OF expire_evolves, of "jobs s" "clk 0" jid]
      by (cases action) (simp_all add: control_def Let_def flip: js_def)
  qed
qed

lemma in_flight_completion:
  "job_state r \<in> {Running, CancelRequested, Unknown} \<Longrightarrow>
   evolves r (r\<lparr>job_state := receipt_state rc, job_output := x1, job_error := x2, job_completed := x3,
     job_payload_exp := x4, job_lease := x5\<rparr>)"
  by (cases rc) (auto simp: evolves_def settled_def)

lemma complete_advances:
  assumes d: "distinct (map job_id (jobs s))"
  shows "jobs_advance (jobs s) (jobs (snd (complete C sha pol clk jid agent rc doc err token raw s)))"
proof -
  define js where "js = expire (clk 0) jid (jobs s)"
  have fin: "rows_evolve (jobs s) (update_rows (\<lambda>j. job_id j = jid)
      (\<lambda>j. j\<lparr>job_state := receipt_state rc, job_output := x1, job_error := x2, job_completed := x3,
         job_payload_exp := x4, job_lease := x5\<rparr>) js)"
    if "r \<in> set js" "job_id r = jid" "job_state r \<in> {Running, CancelRequested, Unknown}" for r x1 x2 x3 x4 x5
    using that d unfolding js_def by (intro expire_then_key [of _ r] in_flight_completion) auto
  have same: "rows_evolve (jobs s) js" by (simp add: js_def expire_evolves)
  show ?thesis
  proof (cases "owned js jid agent token raw")
    case (Inl e)
    then show ?thesis by (simp add: complete_def Let_def js_def split: sum.split)
  next
    case (Inr r)
    with owned_Inr have r: "r \<in> set js" "job_id r = jid" by blast+
    show ?thesis
    proof (cases "job_state r \<in> {Running, CancelRequested, Unknown}")
      case True
      from fin [OF r True] Inr True show ?thesis
        by (auto simp: complete_def Let_def js_def [symmetric] finish_view_def snd_in_tx
            split: sum.splits option.splits intro!: advanceI)
    next
      case False
      with Inr same show ?thesis
        by (auto simp: complete_def Let_def js_def [symmetric] snd_in_tx bindE_def
            split: sum.splits intro!: advanceI)
    qed
  qed
qed

lemma cancel_advances:
  assumes d: "distinct (map job_id (jobs s))"
  shows "jobs_advance (jobs s) (jobs (snd (cancel C clk jid requester s)))"
proof -
  define js where "js = expire (clk 0) jid (jobs s)"
  have same: "rows_evolve (jobs s) js" by (simp add: js_def expire_evolves)
  show ?thesis
  proof (cases "select_first (\<lambda>j. job_id j = jid \<and> job_requester j = requester) js")
    case None
    then show ?thesis by (simp add: cancel_def finish_view_def Let_def js_def)
  next
    case (Some r)
    then have r: "r \<in> set js" "job_id r = jid" by (auto dest: select_first_Some)
    have early: "job_state r = Queued \<or> job_state r = Claimed \<Longrightarrow>
        rows_evolve (jobs s) (update_rows (\<lambda>j. job_id j = jid) (cancelled_row t) js)" for t
      using r d unfolding js_def
      by (intro expire_then_key [of _ r]) (auto simp: evolves_def cancelled_row_def settled_def)
    have late: "job_state r = Running \<Longrightarrow> rows_evolve (jobs s) (update_rows (\<lambda>j. job_id j = jid)
        (\<lambda>j. j\<lparr>job_state := CancelRequested, job_error := e\<rparr>) js)" for e
      using r d unfolding js_def
      by (intro expire_then_key [of _ r]) (auto simp: evolves_def settled_def)
    show ?thesis
      using Some early late same
      by (auto simp: cancel_def finish_view_def snd_in_tx Let_def js_def [symmetric]
          split: option.splits if_splits intro!: advanceI)
  qed
qed

lemma delete_advances: "jobs_advance (jobs s) (jobs (snd (delete_job clk jid requester s)))"
  by (auto simp: delete_job_def Let_def intro!: advance_delete expire_evolves)

lemma prune_chunks_advances: "rows_evolve (jobs s) (jobs (prune_response_chunks t1 t2 s))"
  unfolding prune_response_chunks_def Let_def
  by (simp, rule rows_evolve_update) (simp add: evolves_def settled_def)

lemma expire_prune_advances:
  "rows_evolve (jobs s) (jobs (prune_response_chunks t1 t2 (s\<lparr>jobs := expire t0 jid (jobs s)\<rparr>)))"
  by (rule rows_evolve_trans [OF expire_evolves])
    (use prune_chunks_advances [of "s\<lparr>jobs := expire t0 jid (jobs s)\<rparr>"] in simp)

lemma append_jobs:
  "jobs (snd (append_response_chunk C sha pol free clk jid agent token raw position body s)) = jobs s \<or>
   jobs (snd (append_response_chunk C sha pol free clk jid agent token raw position body s)) =
     jobs (prune_response_chunks (clk 1) (clk 2) (s\<lparr>jobs := expire (clk 0) jid (jobs s)\<rparr>))"
  unfolding append_response_chunk_def Let_def snd_in_tx
  by (auto simp: bindE_def split: sum.splits option.splits)

lemma append_advances:
  "jobs_advance (jobs s)
     (jobs (snd (append_response_chunk C sha pol free clk jid agent token raw position body s)))"
  using append_jobs [of C sha pol free clk jid agent token raw position body s] expire_prune_advances
  by (metis advance_refl advanceI)

lemma clear_output_evolves: "rows_evolve js (update_rows p (\<lambda>j. j\<lparr>job_output := None\<rparr>) js)"
  by (rule rows_evolve_update) (simp add: evolves_def settled_def)

lemma consume_start_cases:
  "(snd (consume_start C sha loads clk jid requester s) = s
      \<and> (\<exists>e. fst (consume_start C sha loads clk jid requester s) = Inl e)) \<or>
   (\<exists>r. select_first (\<lambda>j. job_id j = jid \<and> job_requester j = requester) (expire (clk 0) jid (jobs s)) = Some r
      \<and> job_state r = Succeeded \<and> job_output r \<noteq> None
      \<and> snd (consume_start C sha loads clk jid requester s) = s\<lparr>jobs := update_rows (\<lambda>j. job_id j = jid)
           (\<lambda>j. j\<lparr>job_output := None\<rparr>) (expire (clk 0) jid (jobs s))\<rparr>)"
  unfolding consume_start_def Let_def snd_in_tx in_tx_def
  by (auto simp: bindE_def split: sum.split option.split if_split)

lemma discard_rows: "rows_evolve (jobs s) (jobs (snd (discard_tunnel_output jid requester s)))"
  by (simp add: discard_tunnel_output_def Let_def clear_output_evolves)

lemma consume_start_rows: "rows_evolve (jobs s) (jobs (snd (consume_start C sha loads clk jid requester s)))"
  using consume_start_cases [of C sha loads clk jid requester s]
  by (auto intro: rows_evolve_trans [OF expire_evolves clear_output_evolves])

lemma consume_store:
  "snd (consume_response C sha loads clk clk' jid requester s) = snd (consume_start C sha loads clk jid requester s)
   \<or> snd (consume_response C sha loads clk clk' jid requester s)
      = snd (discard_tunnel_output jid requester (snd (consume_start C sha loads clk jid requester s)))"
  by (auto simp: consume_response_def split: prod.split sum.split)

lemma consume_advances:
  "jobs_advance (jobs s) (jobs (snd (consume_response C sha loads clk clk' jid requester s)))"
  using consume_store [of C sha loads clk clk' jid requester s]
    consume_start_rows [of s C sha loads clk jid requester]
    rows_evolve_trans [OF consume_start_rows discard_rows]
  by (auto intro!: advanceI)

lemma read_advances: "jobs_advance (jobs s) (jobs (snd (read_current clk query s)))"
proof -
  have "rows_evolve js (fold (\<lambda>r js. if needs_expiry r t1 then expire t2 (job_id r) js else js) rs js)"
    for rs js t1 t2
  proof (induction rs arbitrary: js)
    case Nil
    then show ?case by simp
  next
    case (Cons r rs)
    have "rows_evolve js (if needs_expiry r t1 then expire t2 (job_id r) js else js)"
      by (simp add: expire_evolves)
    then show ?case
      by (simp only: fold_simps comp_def) (rule rows_evolve_trans [OF _ Cons.IH])
  qed
  then show ?thesis by (auto simp: read_current_def Let_def intro!: advanceI)
qed

section \<open>The machine\<close>

fun enqueued_id :: "op \<Rightarrow> string option" where
  "enqueued_id (OpEnqueue clk hex agent requester cap capver inputs) = Some (''job_'' @ hex)"
| "enqueued_id _ = None"

definition queue_inv :: "store \<Rightarrow> bool" where
  "queue_inv s \<longleftrightarrow> distinct (map job_id (jobs s))"

lemma step_jobs:
  assumes "queue_inv s"
  shows "jobs_advance (jobs s) (jobs (step E s a)) \<or>
    (\<exists>row. jobs (step E s a) = jobs s @ [row] \<and> enqueued_id a = Some (job_id row)
       \<and> job_id row \<notin> job_id ` set (jobs s) \<and> job_state row = Queued \<and> job_output row = None)"
proof (cases a)
  case (OpEnqueue clk hex agent requester cap capver inputs)
  with enqueue_jobs [of "env_cipher E" "env_jobs E" clk hex agent requester cap capver inputs s]
  show ?thesis by auto
qed (use assms in \<open>simp_all add: queue_inv_def activate_advances discard_advances claim_advances
    control_advances complete_advances cancel_advances delete_advances prune_payloads_def
    expire_prune_advances append_advances consume_advances read_advances advanceI\<close>)

lemma advance_distinct: "jobs_advance js js' \<Longrightarrow> distinct (map job_id js) \<Longrightarrow> distinct (map job_id js')"
  by (auto simp: jobs_advance_def dest!: rows_evolve_ids intro!: distinct_delete_rows)

lemma step_queue_inv: "queue_inv s \<Longrightarrow> queue_inv (step E s a)"
  using step_jobs [of s E a] advance_distinct by (force simp: queue_inv_def)

interpretation queue: step_system "step E" queue_inv for E
  by unfold_locales (rule step_queue_inv)

lemma advance_source:
  "jobs_advance js js' \<Longrightarrow> j' \<in> set js' \<Longrightarrow> \<exists>j\<in>set js. evolves j j'"
  by (auto simp: jobs_advance_def dest: rows_evolve_source)

text \<open>Over a run every row comes from an earlier row with its identity, or was enqueued on the way.\<close>

lemma run_source:
  "queue_inv s \<Longrightarrow> j' \<in> set (jobs (foldl (step E) s as)) \<Longrightarrow>
   (\<exists>j\<in>set (jobs s). evolves j j') \<or> (\<exists>a\<in>set as. enqueued_id a = Some (job_id j'))"
proof (induction as arbitrary: s)
  case Nil
  then show ?case using evolves_refl by fastforce
next
  case (Cons a as)
  from Cons.prems(1) have "queue_inv (step E s a)" by (rule step_queue_inv)
  with Cons.IH [of "step E s a"] Cons.prems(2) consider
      j1 where "j1 \<in> set (jobs (step E s a))" "evolves j1 j'"
    | b where "b \<in> set as" "enqueued_id b = Some (job_id j')" by auto
  then show ?case
  proof cases
    case 1
    from step_jobs [OF Cons.prems(1), of E a] show ?thesis
    proof
      assume "jobs_advance (jobs s) (jobs (step E s a))"
      with 1 show ?thesis by (meson advance_source evolves_trans)
    next
      assume "\<exists>row. jobs (step E s a) = jobs s @ [row] \<and> enqueued_id a = Some (job_id row)
        \<and> job_id row \<notin> job_id ` set (jobs s) \<and> job_state row = Queued \<and> job_output row = None"
      with 1 show ?thesis by (auto simp: evolves_def)
    qed
  next
    case 2
    then show ?thesis by auto
  qed
qed

section \<open>At most one start, at most one delivery\<close>

definition not_started :: "string \<Rightarrow> job \<Rightarrow> bool" where
  "not_started k j \<longleftrightarrow> job_id j = k \<and> (job_state j = Queued \<or> job_state j = Claimed)"

text \<open>An execution starts when \<open>control\<close> answers a start request with the running state.\<close>

fun starts :: "env \<Rightarrow> string \<Rightarrow> store \<Rightarrow> op \<Rightarrow> nat" where
  "starts E k s (OpControl clk jid agent token raw Start) =
     (case fst (control (env_jobs E) clk jid agent token raw Start s) of
        Inr (st, n) \<Rightarrow> if jid = k \<and> st = Running then 1 else 0 | Inl e \<Rightarrow> 0)"
| "starts E k s a = 0"



text \<open>How often an id was accepted by \<open>enqueue\<close>.\<close>

fun accepted :: "env \<Rightarrow> string \<Rightarrow> store \<Rightarrow> op \<Rightarrow> nat" where
  "accepted E k s (OpEnqueue clk hex agent requester cap capver inputs) =
     (if ''job_'' @ hex = k \<and> jobs (step E s (OpEnqueue clk hex agent requester cap capver inputs)) \<noteq> jobs s
      then 1 else 0)"
| "accepted E k s a = 0"

lemma row_count_delete: "row_count p (delete_rows q xs) \<le> row_count p xs"
  by (induction xs) (auto simp: row_count_def)

lemma advance_count:
  "jobs_advance js js' \<Longrightarrow> (\<And>j j'. evolves j j' \<Longrightarrow> p j' \<Longrightarrow> p j) \<Longrightarrow> row_count p js' \<le> row_count p js"
  unfolding jobs_advance_def
  by (metis order_trans rows_evolve_count row_count_delete)

lemma step_count:
  assumes "queue_inv s" "\<And>j j'. evolves j j' \<Longrightarrow> p j' \<Longrightarrow> p j" "\<And>j. p j \<Longrightarrow> job_id j = k"
  shows "row_count p (jobs (step E s a)) \<le> row_count p (jobs s) + accepted E k s a"
  using step_jobs [OF assms(1), of E a]
proof
  assume "jobs_advance (jobs s) (jobs (step E s a))"
  then have "row_count p (jobs (step E s a)) \<le> row_count p (jobs s)"
    by (rule advance_count) (rule assms(2))
  then show ?thesis by simp
next
  assume "\<exists>row. jobs (step E s a) = jobs s @ [row] \<and> enqueued_id a = Some (job_id row)
    \<and> job_id row \<notin> job_id ` set (jobs s) \<and> job_state row = Queued \<and> job_output row = None"
  then obtain row where row: "jobs (step E s a) = jobs s @ [row]" "enqueued_id a = Some (job_id row)"
    by blast
  then have "job_id row = k \<Longrightarrow> accepted E k s a = 1"
    by (cases a) auto
  with row assms(3) [of row] show ?thesis
    by (auto simp: row_count_append row_count_def)
qed

lemma row_count_pos: "r \<in> set rs \<Longrightarrow> p r \<Longrightarrow> 0 < row_count p rs"
  by (auto simp: row_count_def filter_empty_conv)

lemma row_count_zero: "(\<And>r. r \<in> set rs \<Longrightarrow> \<not> p r) \<Longrightarrow> row_count p rs = 0"
  by (auto simp: row_count_def filter_empty_conv)

lemma not_started_back: "evolves j j' \<Longrightarrow> not_started k j' \<Longrightarrow> not_started k j"
  by (cases "job_state j") (auto simp: evolves_def not_started_def)


lemma start_effect:
  assumes "fst (control pol clk jid agent token raw Start s) = Inr (Running, n)"
  shows "(\<exists>r\<in>set (expire (clk 0) jid (jobs s)). job_id r = jid \<and> job_state r = Claimed
           \<and> job_agent r = agent \<and> job_token r = token \<and> token \<noteq> [])
    \<and> jobs (snd (control pol clk jid agent token raw Start s)) = update_rows (\<lambda>j. job_id j = jid)
        (\<lambda>j. j\<lparr>job_state := Running, job_started := Some (clk 1),
               job_lease := Some (clk 1 + real (lease_seconds pol))\<rparr>) (expire (clk 0) jid (jobs s))"
proof (cases "owned (expire (clk 0) jid (jobs s)) jid agent token raw")
  case (Inl e)
  with assms show ?thesis by (simp add: control_def Let_def)
next
  case (Inr r)
  note r = owned_Inr [OF Inr]
  from assms Inr have "job_state r = Claimed"
    by (auto simp: control_def Let_def in_flight_def fst_in_tx_Inr split: if_splits)
  with r Inr show ?thesis
    by (auto simp: control_def Let_def in_flight_def)
qed

lemma start_spends:
  assumes "queue_inv s"
  shows "starts E k s a + row_count (not_started k) (jobs (step E s a))
         \<le> row_count (not_started k) (jobs s) + accepted E k s a"
proof (cases "starts E k s a = 0")
  case True
  moreover have "row_count (not_started k) (jobs (step E s a))
      \<le> row_count (not_started k) (jobs s) + accepted E k s a"
    by (rule step_count [OF assms not_started_back]) (simp_all add: not_started_def)
  ultimately show ?thesis by simp
next
  case False
  then obtain clk jid agent token raw where a: "a = OpControl clk jid agent token raw Start"
    by (cases "(E, k, s, a)" rule: starts.cases) auto
  with False obtain n where ctl: "fst (control (env_jobs E) clk jid agent token raw Start s) = Inr (Running, n)"
    and k: "jid = k" and one: "starts E k s a = 1"
    by (auto split: sum.splits if_splits)
  let ?js = "expire (clk 0) jid (jobs s)"
  from start_effect [OF ctl] obtain r where "r \<in> set ?js" "not_started k r"
    unfolding not_started_def using k by auto
  then have "0 < row_count (not_started k) ?js" by (rule row_count_pos)
  also have "\<dots> \<le> row_count (not_started k) (jobs s)"
    by (rule rows_evolve_count [OF expire_evolves not_started_back])
  finally have "0 < row_count (not_started k) (jobs s)" .
  moreover have "row_count (not_started k) (jobs (step E s a)) = 0"
    by (rule row_count_zero) (use start_effect [OF ctl] a k in \<open>auto simp: not_started_def elim!: update_rows_cases\<close>)
  ultimately show ?thesis using one by simp
qed

interpretation start_budget: step_budget "step E" queue_inv "starts E k" "accepted E k"
    "\<lambda>s. row_count (not_started k) (jobs s)" for E k
  by unfold_locales (rule start_spends)




lemma count_key_le_one: "distinct (map job_id js) \<Longrightarrow> (\<And>j. p j \<Longrightarrow> job_id j = k) \<Longrightarrow> row_count p js \<le> 1"
proof (induction js)
  case Nil
  then show ?case by (simp add: row_count_def)
next
  case (Cons j js)
  have "p j \<Longrightarrow> row_count p js = 0"
    using Cons.prems by (intro row_count_zero) force
  with Cons show ?case by (auto simp: row_count_def)
qed

section \<open>Properties\<close>

text \<open>
  C1: At most one execution start per accepted job: over any sequence of operations, claims,
  renewals, expiries, restarts of the agent and deletions included, the number of start requests
  that \<open>control\<close> grants for an id is at most one, plus one for each time the id is accepted by
  \<open>enqueue\<close>; from an empty queue it is at most the number of acceptances.
\<close>

theorem execution_starts_at_most_once:
  "queue_inv s \<Longrightarrow> run_total (step E) (starts E k) s as
     \<le> (if k \<in> job_id ` set (jobs s) then 1 else 0) + run_total (step E) (accepted E k) s as"
proof -
  assume inv: "queue_inv s"
  have "row_count (not_started k) (jobs s) \<le> (if k \<in> job_id ` set (jobs s) then 1 else 0)"
    using inv count_key_le_one [of "jobs s" "not_started k" k] row_count_zero [of "jobs s" "not_started k"]
    by (auto simp: queue_inv_def not_started_def)
  then show ?thesis
    by (intro order_trans [OF start_budget.run_spend [OF inv]] add_right_mono)
qed


end
