(* ===== verification/Distributed_Facts.thy ===== *)
theory Distributed_Facts
  imports Distributed_Jobs
begin

text \<open>
  Ownership and delivery on the queue of \<open>Distributed_Jobs\<close>: what a worker that lost its claim
  can still do (nothing), what \<open>claim\<close> hands out, which rows the read path expires, and the
  shape of the retained response chunks.
\<close>

section \<open>Ownership\<close>

text \<open>No row grants this worker anything: another token, another agent or another activation.\<close>

definition no_grant :: "job list \<Rightarrow> string \<Rightarrow> string \<Rightarrow> string \<Rightarrow> string \<Rightarrow> bool" where
  "no_grant js jid agent token raw \<longleftrightarrow>
     (\<forall>j\<in>set js. job_id j = jid \<longrightarrow> token = [] \<or> job_token j \<noteq> token \<or> job_agent j \<noteq> agent
        \<or> job_activation j \<noteq> norm_activation_id raw)"

lemma no_grant_owned:
  "no_grant js jid agent token raw \<Longrightarrow>
   owned js jid agent token raw = Inl (ValueError ''Operation ownership is no longer valid.'')"
  by (auto simp: no_grant_def owned_def dest!: select_first_Some split: option.splits)

definition same_owner :: "job \<Rightarrow> job \<Rightarrow> bool" where
  "same_owner j j' \<longleftrightarrow> job_id j' = job_id j \<and> job_token j' = job_token j \<and> job_agent j' = job_agent j
     \<and> job_activation j' = job_activation j"

lemma expire_owner:
  "j' \<in> set (expire now jid js) \<Longrightarrow> \<exists>j\<in>set js. same_owner j j'"
  unfolding expire_def
  by (elim update_rows_cases) (auto simp: same_owner_def expire_lease_row_def expire_payload_row_def)

lemma prune_owner:
  "j' \<in> set (jobs (prune_response_chunks t1 t2 s)) \<Longrightarrow> \<exists>j\<in>set (jobs s). same_owner j j'"
  unfolding prune_response_chunks_def Let_def
  by (simp, elim update_rows_cases) (auto simp: same_owner_def)

lemma no_grant_source:
  assumes "no_grant js jid agent token raw" "\<And>j'. j' \<in> set js' \<Longrightarrow> \<exists>j\<in>set js. same_owner j j'"
  shows "no_grant js' jid agent token raw"
  using assms unfolding no_grant_def same_owner_def by metis

lemma expire_no_grant:
  "no_grant js jid agent token raw \<Longrightarrow> no_grant (expire now k js) jid agent token raw"
  by (rule no_grant_source) (auto dest: expire_owner)

lemma prune_no_grant:
  "no_grant (jobs s) jid agent token raw \<Longrightarrow> no_grant (jobs (prune_response_chunks t1 t2 s)) jid agent token raw"
  by (rule no_grant_source) (auto dest: prune_owner)

lemma control_no_grant:
  "no_grant (jobs s) jid agent token raw \<Longrightarrow> control pol clk jid agent token raw action s
     = (Inl (ValueError ''Operation ownership is no longer valid.''), s)"
  by (simp add: control_def Let_def no_grant_owned [OF expire_no_grant])

lemma complete_no_grant:
  "no_grant (jobs s) jid agent token raw \<Longrightarrow>
   \<exists>e. complete C sha pol clk jid agent rc doc err token raw s = (Inl e, s)"
  by (simp add: complete_def Let_def no_grant_owned [OF expire_no_grant] split: sum.split)

lemma append_no_grant:
  assumes "no_grant (jobs s) jid agent token raw"
  shows "\<exists>e. append_response_chunk C sha rpol free clk jid agent token raw position body s = (Inl e, s)"
proof -
  have "no_grant (jobs (prune_response_chunks t1 t2 (s\<lparr>jobs := expire (clk 0) jid (jobs s)\<rparr>))) jid agent token raw"
    for t1 t2
    by (rule prune_no_grant) (simp add: expire_no_grant [OF assms])
  then show ?thesis
    by (auto simp: append_response_chunk_def Let_def no_grant_owned in_tx_def bindE_def split: sum.split)
qed

text \<open>
  C3: A worker without a valid grant changes nothing: when no row has this id together with the
  worker's agent, non-empty attempt token and activation, then \<open>control\<close>, \<open>complete\<close> and
  \<open>append_response_chunk\<close> all raise and leave every table as it was.
\<close>

theorem stale_worker_changes_nothing:
  assumes "no_grant (jobs s) jid agent token raw"
  shows "control pol clk jid agent token raw action s
           = (Inl (ValueError ''Operation ownership is no longer valid.''), s)
    \<and> (\<exists>e. complete C sha pol clk jid agent rc doc err token raw s = (Inl e, s))
    \<and> (\<exists>e. append_response_chunk C sha rpol free clk jid agent token raw position body s = (Inl e, s))"
  using control_no_grant [OF assms] complete_no_grant [OF assms] append_no_grant [OF assms] by blast

section \<open>Activation change\<close>

lemma run_row:
  assumes "queue_inv s" "j \<in> set (jobs s)" "\<forall>a\<in>set as. enqueued_id a \<noteq> Some (job_id j)"
    and "j' \<in> set (jobs (foldl (step E) s as))" "job_id j' = job_id j"
  shows "evolves j j'"
proof -
  from run_source [OF assms(1,4)] assms(3,5) obtain j0 where "j0 \<in> set (jobs s)" "evolves j0 j'"
    by auto
  with assms show ?thesis
    by (metis evolves_def key_unique queue_inv_def)
qed

text \<open>
  C4: A job's history only moves forward: through any sequence of operations that does not enqueue
  its id again, a job that is still stored keeps its identity (agent, requester, capability,
  creation time) and its state is one that \<open>may_become\<close> allows; in particular succeeded, failed and
  cancelled jobs never change state and a running job is never reported cancelled.
\<close>

theorem job_history_moves_forward:
  assumes "queue_inv s" "j \<in> set (jobs s)" "\<forall>a\<in>set as. enqueued_id a \<noteq> Some (job_id j)"
    and "j' \<in> set (jobs (foldl (step E) s as))" "job_id j' = job_id j"
  shows "may_become (job_state j) (job_state j') \<and> (settled j \<longrightarrow> job_state j' = job_state j)
    \<and> (job_state j = Running \<longrightarrow> job_state j' \<noteq> Cancelled) \<and> job_agent j' = job_agent j
    \<and> job_requester j' = job_requester j \<and> job_cap j' = job_cap j \<and> job_created j' = job_created j"
  using run_row [OF assms] by (auto simp: evolves_def settled_def)

text \<open>
  C5: An activation change fences the old agent process for good: once \<open>activate_agent\<close> has
  recorded a different activation, every unfinished job of that agent under another activation is
  cancelled or unknown, and through any later operations that do not enqueue its id again no
  token, agent name or activation makes \<open>control\<close> accept a request for it.
\<close>

theorem activation_change_fences_old_work:
  assumes inv: "queue_inv s" and j: "j \<in> set (jobs s)" "job_agent j = agent" "activation_open j"
    and act: "map_of (activations s) agent = Some prev" "norm_activation_id raw \<noteq> []"
      "norm_activation_id raw \<noteq> prev" "job_activation j \<noteq> norm_activation_id raw"
    and fresh: "\<forall>a\<in>set as. enqueued_id a \<noteq> Some (job_id j)"
  shows "(\<forall>j'\<in>set (jobs (step E s (OpActivate clk agent raw))).
            job_agent j' = agent \<and> activation_open j' \<longrightarrow> job_activation j' = norm_activation_id raw)
    \<and> control pol clk' (job_id j) agent' token raw' action
           (foldl (step E) (step E s (OpActivate clk agent raw)) as)
         = (Inl (ValueError ''Operation ownership is no longer valid.''),
            foldl (step E) (step E s (OpActivate clk agent raw)) as)"
proof -
  let ?s1 = "step E s (OpActivate clk agent raw)"
  let ?s2 = "foldl (step E) ?s1 as"
  have jobs1: "jobs ?s1 = update_rows (\<lambda>j. job_agent j = agent \<and> job_activation j \<noteq> norm_activation_id raw
      \<and> activation_open j) (retire_row (clk 0)) (jobs s)"
    using act by (simp add: activate_agent_def Let_def)
  have r: "retire_row (clk 0) j \<in> set (jobs ?s1)"
    unfolding jobs1 using j act(4) by (force simp: in_update_rows)
  have inv1: "queue_inv ?s1" using inv by (rule step_queue_inv)
  have "no_grant (jobs ?s2) (job_id j) agent' token raw'"
    unfolding no_grant_def
  proof (intro ballI impI)
    fix j' assume j': "j' \<in> set (jobs ?s2)" "job_id j' = job_id j"
    have "evolves (retire_row (clk 0) j) j'"
      by (rule run_row [OF inv1 r _ j'(1)]) (use fresh j' in \<open>simp_all add: retire_row_def\<close>)
    then have "job_token j' = []"
      using j(3) by (auto simp: evolves_def retire_row_def activation_open_def split: if_splits)
    then show "token = [] \<or> job_token j' \<noteq> token \<or> job_agent j' \<noteq> agent'
        \<or> job_activation j' \<noteq> norm_activation_id raw'" by auto
  qed
  then have "control pol clk' (job_id j) agent' token raw' action ?s2
      = (Inl (ValueError ''Operation ownership is no longer valid.''), ?s2)"
    by (rule control_no_grant)
  moreover have "\<forall>j'\<in>set (jobs ?s1). job_agent j' = agent \<and> activation_open j' \<longrightarrow>
      job_activation j' = norm_activation_id raw"
  proof (intro ballI impI)
    fix j' assume "j' \<in> set (jobs ?s1)" "job_agent j' = agent \<and> activation_open j'"
    then show "job_activation j' = norm_activation_id raw"
      unfolding jobs1
      by (cases rule: update_rows_cases) (simp_all add: retire_row_def activation_open_def split: if_splits)
  qed
  ultimately show ?thesis by blast
qed

section \<open>What a claim hands out\<close>





section \<open>Expiry\<close>

text \<open>
  The read path's cheap test is exact: for a stored id, \<open>needs_expiry\<close> holds of the row at a
  time exactly when expiring that id then would change the row, so a reader that skips the write
  transaction returns what the writer would have left.
\<close>

theorem needs_expiry_is_exact:
  "job_id j \<noteq> [] \<Longrightarrow> needs_expiry j now \<longleftrightarrow> expire now (job_id j) [j] \<noteq> [j]"
proof -
  have lease: "expire_lease_row now j \<noteq> j" if "in_flight (job_state j)"
  proof
    assume "expire_lease_row now j = j"
    then have "job_state (expire_lease_row now j) = job_state j" by simp
    with that show False by (auto simp: expire_lease_row_def in_flight_def split: if_splits)
  qed
  have exp: "job_payload_exp (expire_payload_row now x) = None" for x
    by (simp add: expire_payload_row_def)
  have id: "job_id (expire_lease_row now j) = job_id j" "job_payload_exp (expire_lease_row now j) = job_payload_exp j"
    by (simp_all add: expire_lease_row_def)
  have due: "due None now = False" by (simp add: due_def)
  show ?thesis
  proof (cases "due (job_payload_exp j) now")
    case True
    then have "job_payload_exp j \<noteq> None" by (auto simp: due_def split: option.splits)
    with exp have "expire_payload_row now x \<noteq> j" for x by metis
    with True id show ?thesis by (simp add: expire_def needs_expiry_def in_scope_def)
  next
    case False
    with id lease show ?thesis by (auto simp: expire_def needs_expiry_def in_scope_def)
  qed
qed

end
