(* ===== verification/Demo_Cipher.thy ===== *)
theory Demo_Cipher
  imports Payloads
begin

text \<open>
  A cipher that satisfies what the development assumes of Fernet, for the witnesses: the pair is
  written in clear with the length of its first part in front.
\<close>

definition demo_encrypt :: "string \<times> string \<Rightarrow> string" where
  "demo_encrypt p = replicate (length (fst p)) CHR ''x'' @ ''.'' @ fst p @ snd p"

definition demo_decrypt :: "string \<Rightarrow> (string \<times> string) option" where
  "demo_decrypt s = (let n = length (takeWhile (\<lambda>c. c = CHR ''x'') s); r = drop (Suc n) s
     in Some (take n r, drop n r))"

definition demo_cipher :: cipher where
  "demo_cipher = \<lparr>encrypt = demo_encrypt, decrypt = demo_decrypt\<rparr>"

lemma demo_fernet: "fernet_ok demo_cipher"
proof -
  have "takeWhile (\<lambda>c. c = CHR ''x'') (replicate n CHR ''x'' @ CHR ''.'' # r) = replicate n CHR ''x''" for n r
    by (induction n) auto
  then show ?thesis
    by (simp add: fernet_ok_def demo_cipher_def demo_encrypt_def demo_decrypt_def Let_def)
qed

end
