(* ===== verification/Distributed_Witnesses.thy ===== *)
theory Distributed_Witnesses
  imports Response_Facts Demo_Cipher
begin

text \<open>
  Concrete stores on which the hypotheses of the queue's properties hold: a queued, a running and
  a finished job of one agent, and a response retained in two chunks.
\<close>

definition old_activation :: string where "old_activation = replicate 32 CHR ''a''"

definition new_activation :: string where "new_activation = replicate 32 CHR ''b''"

lemma demo_activations [simp]:
  "norm_activation_id old_activation = old_activation" "norm_activation_id new_activation = new_activation"
  "old_activation \<noteq> []" "new_activation \<noteq> []" "old_activation \<noteq> new_activation" "new_activation \<noteq> old_activation"
  by code_simp+

definition demo_queued :: job where
  "demo_queued = \<lparr>job_id = ''job_q'', job_agent = ''ag'', job_requester = ''rq'', job_cap = tunnel_cap,
     job_capver = ''1'', job_input = ''{}'', job_state = Queued, job_output = None, job_error = [],
     job_created = 1, job_started = None, job_completed = None, job_lease = None,
     job_activation = old_activation, job_token = [], job_payload_exp = Some 1000\<rparr>"

definition demo_running :: job where
  "demo_running = demo_queued\<lparr>job_id := ''job_r'', job_state := Running, job_token := ''t'', job_lease := Some 500\<rparr>"

definition demo_store :: store where
  "demo_store = \<lparr>jobs = [demo_queued, demo_running], activations = [(''ag'', old_activation)],
     chunks = [], transfers = []\<rparr>"

definition demo_env :: env where
  "demo_env = \<lparr>env_cipher = demo_cipher, env_sha = (\<lambda>bs. replicate (length bs) CHR ''h''),
     env_loads = (\<lambda>t. \<lparr>doc_text = t, body_transfer = Absent, body_size = Absent, body_sha256 = Absent,
        body_field = Absent\<rparr>),
     env_jobs = \<lparr>lease_seconds = 60, retention_seconds = 3600\<rparr>,
     env_responses = \<lparr>response_mib = 16, quota_mib = 128, retention_minutes = 15, minimum_free_gib = 1\<rparr>,
     env_free = 2 ^ 40\<rparr>"

lemma demo_queue_inv [simp]: "queue_inv demo_store"
  by (simp add: queue_inv_def demo_store_def demo_queued_def demo_running_def)

lemmas demo_defs = demo_store_def demo_queued_def demo_running_def demo_env_def

definition demo_ops :: "op list" where
  "demo_ops = [OpClaim (\<lambda>_. 10) (\<lambda>_. ''tok'') ''ag'' 4 [] [] [],
     OpControl (\<lambda>_. 11) ''job_q'' ''ag'' ''tok'' old_activation Start,
     OpControl (\<lambda>_. 12) ''job_q'' ''ag'' ''tok'' old_activation Start]"

theorem execution_starts_at_most_once_witness:
  "queue_inv demo_store \<and> run_total (step demo_env) (starts demo_env ''job_q'') demo_store demo_ops
     \<le> (if ''job_q'' \<in> job_id ` set (jobs demo_store) then 1 else 0)
       + run_total (step demo_env) (accepted demo_env ''job_q'') demo_store demo_ops"
  using execution_starts_at_most_once [OF demo_queue_inv] demo_queue_inv by blast


theorem stale_worker_changes_nothing_witness:
  "no_grant (jobs demo_store) ''job_r'' ''ag'' ''stale'' old_activation
   \<and> control (env_jobs demo_env) (\<lambda>_. 10) ''job_r'' ''ag'' ''stale'' old_activation Renew demo_store
       = (Inl (ValueError ''Operation ownership is no longer valid.''), demo_store)"
proof -
  have h: "no_grant (jobs demo_store) ''job_r'' ''ag'' ''stale'' old_activation"
    by (simp add: no_grant_def demo_defs)
  from stale_worker_changes_nothing [OF h] show ?thesis using h by blast
qed

theorem job_history_moves_forward_witness:
  "demo_running \<in> set (jobs demo_store)
   \<and> may_become (job_state demo_running) (job_state (retire_row 30 demo_running))"
proof -
  have r: "demo_running \<in> set (jobs demo_store)" by (simp add: demo_store_def)
  have a: "\<forall>a\<in>set [OpActivate (\<lambda>_. 30) ''ag'' new_activation]. enqueued_id a \<noteq> Some (job_id demo_running)"
    by simp
  have e: "retire_row 30 demo_running
      \<in> set (jobs (foldl (step demo_env) demo_store [OpActivate (\<lambda>_. 30) ''ag'' new_activation]))"
    by (simp add: activate_agent_def Let_def demo_defs activation_open_def)
  have i: "job_id (retire_row 30 demo_running) = job_id demo_running" by (simp add: retire_row_def)
  from job_history_moves_forward [OF demo_queue_inv r a e i] r show ?thesis by blast
qed

theorem activation_change_fences_old_work_witness:
  "activation_open demo_running \<and> control (env_jobs demo_env) (\<lambda>_. 40) ''job_r'' ''ag'' ''t'' old_activation Renew
       (step demo_env demo_store (OpActivate (\<lambda>_. 30) ''ag'' new_activation))
     = (Inl (ValueError ''Operation ownership is no longer valid.''),
        step demo_env demo_store (OpActivate (\<lambda>_. 30) ''ag'' new_activation))"
proof -
  have r: "demo_running \<in> set (jobs demo_store)" "job_agent demo_running = ''ag''" "activation_open demo_running"
    and act: "map_of (activations demo_store) ''ag'' = Some old_activation"
      "norm_activation_id new_activation \<noteq> []" "norm_activation_id new_activation \<noteq> old_activation"
      "job_activation demo_running \<noteq> norm_activation_id new_activation"
    and fresh: "\<forall>a\<in>set []. enqueued_id a \<noteq> Some (job_id demo_running)"
    by (simp_all add: demo_defs activation_open_def)
  have id: "job_id demo_running = ''job_r''" by (simp add: demo_running_def)
  from activation_change_fences_old_work [OF demo_queue_inv r act fresh, where E = demo_env]
  show ?thesis using r(3) id by simp
qed



theorem needs_expiry_is_exact_witness:
  "job_id demo_running \<noteq> [] \<and> needs_expiry demo_running 600 \<and> expire 600 (job_id demo_running) [demo_running] \<noteq> [demo_running]"
proof -
  have h: "job_id demo_running \<noteq> []" by (simp add: demo_running_def)
  have n: "needs_expiry demo_running 600"
    by (simp add: needs_expiry_def due_def in_flight_def demo_defs)
  from n needs_expiry_is_exact [OF h] h show ?thesis by blast
qed






end
