(* ===== verification/Login_Throttle.thy ===== *)
theory Login_Throttle
  imports Prelude
begin

text \<open>
  \<open>twn_toolkit/login_throttle.py\<close>: admission control for password checks.  The state is the
  bucket table and the statistics row.  The keyed hash and the IP address parser of the standard
  library are arguments (\<open>mac\<close>, \<open>parse\<close>); what the code does with their results is modelled.
\<close>

section \<open>State and keys\<close>

definition window_seconds :: real where "window_seconds = 60"
definition source_attempts :: nat where "source_attempts = 20"
definition username_attempts :: nat where "username_attempts = 10"
definition instance_attempts :: nat where "instance_attempts = 120"
definition max_buckets :: nat where "max_buckets = 4096"
definition max_password_checks :: nat where "max_password_checks = 4"
definition audit_interval :: real where "audit_interval = 60"

record bucket =
  bucket_key :: string
  bucket_attempts :: nat
  bucket_expires :: real

record throttle =
  buckets :: "bucket list"
  rejected :: nat
  last_audit :: real

datatype ip_value = NotAnAddress | IPv4 nat | IPv6 nat

datatype source = UnknownSource | SourceV4 nat | SourceNet64 nat

text \<open>\<open>_source\<close>: an IPv4-mapped IPv6 address counts as its IPv4 address, any other IPv6 address
  as its /64 network (the network is its address with the low 64 bits cleared).\<close>

fun login_source :: "ip_value \<Rightarrow> source" where
  "login_source NotAnAddress = UnknownSource"
| "login_source (IPv4 a) = SourceV4 a"
| "login_source (IPv6 a) =
     (if a div 2 ^ 32 = 65535 then SourceV4 (a mod 2 ^ 32) else SourceNet64 (a div 2 ^ 64 * 2 ^ 64))"

definition login_keys :: "(string \<Rightarrow> string) \<Rightarrow> (string \<Rightarrow> ip_value) \<Rightarrow> (source \<Rightarrow> string) \<Rightarrow> string \<Rightarrow> string
    \<Rightarrow> (string \<times> nat) list" where
  "login_keys mac parse text_of source username =
     [(''instance'', instance_attempts),
      (mac (''source:'' @ text_of (login_source (parse source))), source_attempts),
      (mac (''username:'' @ py_lower (py_strip username)), username_attempts)]"

section \<open>Reservation\<close>

definition find_bucket :: "string \<Rightarrow> bucket list \<Rightarrow> bucket option" where
  "find_bucket k bs = select_first (\<lambda>b. bucket_key b = k) bs"

definition purge :: "real \<Rightarrow> bucket list \<Rightarrow> bucket list" where
  "purge now bs = delete_rows (\<lambda>b. bucket_expires b \<le> now \<or> now + window_seconds < bucket_expires b) bs"

definition exhausted_waits :: "real \<Rightarrow> (string \<times> nat) list \<Rightarrow> bucket list \<Rightarrow> real list" where
  "exhausted_waits now keys bs = concat (map (\<lambda>(k, limit).
     case find_bucket k bs of None \<Rightarrow> []
     | Some b \<Rightarrow> if limit \<le> bucket_attempts b then [bucket_expires b - now] else []) keys)"

definition missing_keys :: "(string \<times> nat) list \<Rightarrow> bucket list \<Rightarrow> nat" where
  "missing_keys keys bs = length (filter (\<lambda>(k, limit). find_bucket k bs = None) keys)"

definition wait_time :: "real \<Rightarrow> (string \<times> nat) list \<Rightarrow> bucket list \<Rightarrow> real" where
  "wait_time now keys bs =
     (let w = (case exhausted_waits now keys bs of [] \<Rightarrow> 0 | x # xs \<Rightarrow> fold max xs x)
      in if max_buckets < length bs + missing_keys keys bs then max w window_seconds else w)"

text \<open>\<open>INSERT ... ON CONFLICT(key) DO UPDATE SET attempts = attempts + 1\<close>.\<close>

definition count_attempt :: "real \<Rightarrow> string \<Rightarrow> bucket list \<Rightarrow> bucket list" where
  "count_attempt now k bs = (if find_bucket k bs = None
     then bs @ [\<lparr>bucket_key = k, bucket_attempts = 1, bucket_expires = now + window_seconds\<rparr>]
     else update_rows (\<lambda>b. bucket_key b = k) (\<lambda>b. b\<lparr>bucket_attempts := bucket_attempts b + 1\<rparr>) bs)"

datatype admission = Admitted | Throttled int bool

definition reserve :: "real \<Rightarrow> (string \<times> nat) list \<Rightarrow> throttle \<Rightarrow> admission \<times> throttle" where
  "reserve now keys s =
     (let bs = purge now (buckets s); wait = wait_time now keys bs in
      if wait \<noteq> 0 then
        (let audit = (audit_interval \<le> now - last_audit s \<or> now < last_audit s)
         in (Throttled (max 1 \<lceil>wait\<rceil>) audit,
             s\<lparr>buckets := bs, rejected := rejected s + 1,
               last_audit := (if audit then now else last_audit s)\<rparr>))
      else (Admitted, s\<lparr>buckets := fold (\<lambda>(k, limit). count_attempt now k) keys bs\<rparr>))"

text \<open>\<open>attempt\<close>: the first free slot file is held for the whole verification; without one, or
  when the reservation is denied, the caller is throttled and no slot stays held.\<close>

fun first_free :: "nat \<Rightarrow> bool list \<Rightarrow> nat option" where
  "first_free i [] = None"
| "first_free i (held # rest) = (if held then first_free (Suc i) rest else Some i)"

definition attempt :: "real \<Rightarrow> (string \<times> nat) list \<Rightarrow> bool list \<times> throttle
    \<Rightarrow> (int \<times> bool + nat) \<times> (bool list \<times> throttle)" where
  "attempt now keys st = (case first_free 0 (fst st) of
       None \<Rightarrow> (Inl (1, False), st)
     | Some i \<Rightarrow> (case reserve now keys (snd st) of
           (Admitted, s') \<Rightarrow> (Inr i, ((fst st)[i := True], s'))
         | (Throttled n audit, s') \<Rightarrow> (Inl (n, audit), (fst st, s'))))"

definition finish_attempt :: "nat \<Rightarrow> bool list \<times> throttle \<Rightarrow> bool list \<times> throttle" where
  "finish_attempt i st = ((fst st)[i := False], snd st)"

definition reset_throttle :: "throttle \<Rightarrow> throttle" where
  "reset_throttle s = s\<lparr>buckets := [], rejected := 0, last_audit := 0\<rparr>"

definition throttle_status :: "real \<Rightarrow> throttle \<Rightarrow> nat \<times> nat" where
  "throttle_status now s = (row_count (\<lambda>b. now < bucket_expires b) (buckets s), rejected s)"

section \<open>The bucket table\<close>

definition table_ok :: "throttle \<Rightarrow> bool" where
  "table_ok s \<longleftrightarrow> distinct (map bucket_key (buckets s)) \<and> length (buckets s) \<le> max_buckets"

lemma find_bucket_None: "find_bucket k bs = None \<longleftrightarrow> k \<notin> bucket_key ` set bs"
  by (auto simp: find_bucket_def select_first_None)

lemma find_bucket_Some: "find_bucket k bs = Some b \<Longrightarrow> b \<in> set bs \<and> bucket_key b = k"
  by (auto simp: find_bucket_def dest: select_first_Some)

lemma find_bucket_in: "distinct (map bucket_key bs) \<Longrightarrow> b \<in> set bs \<Longrightarrow> find_bucket (bucket_key b) bs = Some b"
  by (simp add: find_bucket_def select_key)

lemma purge_subset: "b \<in> set (purge now bs) \<Longrightarrow> b \<in> set bs \<and> now < bucket_expires b \<and> bucket_expires b \<le> now + window_seconds"
  by (auto simp: purge_def)

lemma length_purge: "length (purge now bs) \<le> length bs"
  by (simp add: purge_def delete_rows_def)

lemma distinct_purge [intro]: "distinct (map bucket_key bs) \<Longrightarrow> distinct (map bucket_key (purge now bs))"
  by (auto simp: purge_def)

lemma distinct_count_attempt:
  "distinct (map bucket_key bs) \<Longrightarrow> distinct (map bucket_key (count_attempt now k bs))"
  by (simp add: count_attempt_def find_bucket_None update_rows_map)

lemma length_count_attempt:
  "length (count_attempt now k bs) = length bs + (if find_bucket k bs = None then 1 else 0)"
  by (simp add: count_attempt_def)

lemma find_bucket_update:
  "find_bucket j (update_rows (\<lambda>b. bucket_key b = k) (\<lambda>b. b\<lparr>bucket_attempts := bucket_attempts b + 1\<rparr>) bs)
     = (if j = k then map_option (\<lambda>b. b\<lparr>bucket_attempts := bucket_attempts b + 1\<rparr>) (find_bucket k bs)
        else find_bucket j bs)"
  by (induction bs) (auto simp: find_bucket_def select_first_def)

lemma find_bucket_snoc:
  "find_bucket j (bs @ [b]) = (if find_bucket j bs = None then (if bucket_key b = j then Some b else None)
     else find_bucket j bs)"
  by (induction bs) (auto simp: find_bucket_def select_first_def)

lemma find_count_attempt:
  "find_bucket j (count_attempt now k bs) =
     (if j = k then (case find_bucket k bs of
          None \<Rightarrow> Some \<lparr>bucket_key = k, bucket_attempts = 1, bucket_expires = now + window_seconds\<rparr>
        | Some b \<Rightarrow> Some (b\<lparr>bucket_attempts := bucket_attempts b + 1\<rparr>))
      else find_bucket j bs)"
  unfolding count_attempt_def
  by (auto simp: find_bucket_update [unfolded Suc_eq_plus1 [symmetric]] find_bucket_snoc split: option.split)

lemma fold_count_distinct:
  "distinct (map bucket_key bs) \<Longrightarrow> distinct (map bucket_key (fold (\<lambda>(k, limit). count_attempt now k) keys bs))"
  by (induction keys arbitrary: bs) (auto simp: distinct_count_attempt)

lemma missing_count_attempt:
  "missing_keys keys (count_attempt now k bs) \<le> missing_keys keys bs"
proof -
  have "find_bucket j (count_attempt now k bs) = None \<Longrightarrow> find_bucket j bs = None" for j
    by (auto simp: find_count_attempt split: if_splits option.splits)
  then show ?thesis
    unfolding missing_keys_def by (induction keys) auto
qed

lemma fold_count_length:
  "length (fold (\<lambda>(k, limit). count_attempt now k) keys bs) \<le> length bs + missing_keys keys bs"
proof (induction keys arbitrary: bs)
  case Nil
  then show ?case by simp
next
  case (Cons kl keys)
  obtain k limit where kl: "kl = (k, limit)" by force
  have "length (fold (\<lambda>(k, limit). count_attempt now k) keys (count_attempt now k bs))
      \<le> length (count_attempt now k bs) + missing_keys keys (count_attempt now k bs)"
    by (rule Cons.IH)
  also have "\<dots> \<le> length bs + missing_keys (kl # keys) bs"
    using missing_count_attempt [of keys now k bs] by (simp add: kl length_count_attempt missing_keys_def)
  finally show ?case by (simp add: kl)
qed

lemma fold_count_find:
  "distinct (map fst keys) \<Longrightarrow> find_bucket j (fold (\<lambda>(k, limit). count_attempt now k) keys bs) =
     (if j \<in> fst ` set keys then find_bucket j (count_attempt now j bs) else find_bucket j bs)"
proof (induction keys arbitrary: bs)
  case Nil
  then show ?case by simp
next
  case (Cons kl keys)
  then show ?case by (cases kl) (auto simp: find_count_attempt)
qed



lemma fold_max_ge: "x \<in> set (y # ys) \<Longrightarrow> (x :: real) \<le> fold max ys y"
  unfolding Max.set_eq_fold [symmetric] by (rule Max_ge) simp_all


lemma wait_covers:
  assumes "w \<in> set (exhausted_waits now keys bs)"
  shows "w \<le> wait_time now keys bs"
proof (cases "exhausted_waits now keys bs")
  case Nil
  with assms show ?thesis by simp
next
  case (Cons x xs)
  with assms fold_max_ge [of w x xs] show ?thesis
    by (simp add: wait_time_def Let_def max_def)
qed


lemma wait_zero_cap:
  assumes "wait_time now keys bs = 0"
  shows "length bs + missing_keys keys bs \<le> max_buckets"
proof (rule ccontr)
  assume "\<not> ?thesis"
  then have "window_seconds \<le> wait_time now keys bs" by (simp add: wait_time_def Let_def)
  with assms show False by (simp add: window_seconds_def)
qed

section \<open>Properties\<close>

text \<open>
  The bucket table stays bounded: whatever is attempted, at whatever clock readings, a
  reservation keeps one row per key and at most 4096 rows.
\<close>

theorem reserve_keeps_table_bounded:
  "table_ok s \<Longrightarrow> table_ok (snd (reserve now keys s))"
proof -
  assume ok: "table_ok s"
  have p: "distinct (map bucket_key (purge now (buckets s)))" "length (purge now (buckets s)) \<le> max_buckets"
    using ok length_purge [of now "buckets s"] by (auto simp: table_ok_def)
  show ?thesis
  proof (cases "wait_time now keys (purge now (buckets s)) = 0")
    case True
    then have "length (fold (\<lambda>(k, limit). count_attempt now k) keys (purge now (buckets s))) \<le> max_buckets"
      using fold_count_length [of now keys "purge now (buckets s)"] wait_zero_cap [OF True] by simp
    with p True show ?thesis by (simp add: reserve_def Let_def table_ok_def fold_count_distinct)
  next
    case False
    with p show ?thesis by (simp add: reserve_def Let_def table_ok_def)
  qed
qed



text \<open>Requests in the order they reach the transaction, each with its clock reading.\<close>

fun reserve_all :: "(real \<times> (string \<times> nat) list) list \<Rightarrow> throttle \<Rightarrow> admission list \<times> throttle" where
  "reserve_all [] s = ([], s)"
| "reserve_all ((now, keys) # rs) s = (case reserve now keys s of (a, s') \<Rightarrow>
     (case reserve_all rs s' of (as, s'') \<Rightarrow> (a # as, s'')))"

definition admitted_with :: "string \<Rightarrow> (real \<times> (string \<times> nat) list) list \<Rightarrow> admission list \<Rightarrow> nat" where
  "admitted_with k rs as =
     length (filter (\<lambda>((now, keys), a). a = Admitted \<and> k \<in> fst ` set keys) (zip rs as))"

lemma admitted_with_simps [simp]:
  "admitted_with k [] as = 0"
  "admitted_with k ((now, keys) # rs) (a # as) =
     (if a = Admitted \<and> k \<in> fst ` set keys then 1 else 0) + admitted_with k rs as"
  by (simp_all add: admitted_with_def)

text \<open>One request while the bucket of \<open>k\<close> is alive.\<close>

lemma find_bucket_purge:
  assumes "find_bucket k bs = Some b" "now < bucket_expires b" "bucket_expires b \<le> now + window_seconds"
    "distinct (map bucket_key bs)"
  shows "find_bucket k (purge now bs) = Some b"
proof -
  from find_bucket_Some [OF assms(1)] assms(2,3) have "b \<in> set (purge now bs)" "bucket_key b = k"
    by (auto simp: purge_def)
  with find_bucket_in [OF distinct_purge [OF assms(4)], of b now] show ?thesis by simp
qed

lemma live_bucket_not_exhausted:
  assumes "wait_time now keys bs = 0" "find_bucket k bs = Some b" "(k, limit) \<in> set keys" "now < bucket_expires b"
  shows "bucket_attempts b < limit"
proof (rule ccontr)
  assume "\<not> bucket_attempts b < limit"
  with assms(2,3) have "bucket_expires b - now \<in> set (exhausted_waits now keys bs)"
    unfolding exhausted_waits_def by (force intro!: bexI [of _ "(k, limit)"])
  with wait_covers assms(1,4) show False by fastforce
qed

lemma reserve_live:
  assumes tab: "distinct (map bucket_key (buckets s))" and keys: "distinct (map fst keys)"
    and lim: "\<And>l. (k, l) \<in> set keys \<Longrightarrow> l = limit"
    and b: "find_bucket k (buckets s) = Some b" "bucket_attempts b \<le> limit"
      "now < bucket_expires b" "bucket_expires b \<le> now + window_seconds"
    and r: "reserve now keys s = (a, s')"
  shows "\<exists>b'. find_bucket k (buckets s') = Some b' \<and> bucket_expires b' = bucket_expires b
     \<and> bucket_attempts b' = bucket_attempts b + (if a = Admitted \<and> k \<in> fst ` set keys then 1 else 0)
     \<and> bucket_attempts b' \<le> limit"
proof -
  have f: "find_bucket k (purge now (buckets s)) = Some b"
    by (rule find_bucket_purge [OF b(1,3,4) tab])
  show ?thesis
  proof (cases "wait_time now keys (purge now (buckets s)) = 0")
    case False
    with r f b show ?thesis by (auto simp: reserve_def Let_def)
  next
    case True
    then have res: "a = Admitted" "buckets s' = fold (\<lambda>(k, limit). count_attempt now k) keys (purge now (buckets s))"
      using r by (auto simp: reserve_def Let_def)
    have "k \<in> fst ` set keys \<Longrightarrow> bucket_attempts b < limit"
      using live_bucket_not_exhausted [OF True f _ b(3)] lim by force
    then show ?thesis
      unfolding res(1,2) fold_count_find [OF keys]
      using f b(2) by (cases "k \<in> fst ` set keys") (simp_all add: find_count_attempt del: image_iff)
  qed
qed

lemma reserve_distinct: "distinct (map bucket_key (buckets s)) \<Longrightarrow> distinct (map bucket_key (buckets (snd (reserve now keys s))))"
  by (auto simp: reserve_def Let_def intro: fold_count_distinct)

lemma run_live:
  assumes "distinct (map bucket_key (buckets s))"
    and "find_bucket k (buckets s) = Some b" "bucket_attempts b \<le> limit"
    and "\<forall>(t, keys)\<in>set rs. t < bucket_expires b \<and> bucket_expires b \<le> t + window_seconds
          \<and> distinct (map fst keys) \<and> (\<forall>l. (k, l) \<in> set keys \<longrightarrow> l = limit)"
    and "reserve_all rs s = (as, s')"
  shows "bucket_attempts b + admitted_with k rs as \<le> limit"
  using assms
proof (induction rs arbitrary: s b as)
  case Nil
  then show ?case by simp
next
  case (Cons r rs)
  obtain t keys where r: "r = (t, keys)" by force
  obtain a s1 where res: "reserve t keys s = (a, s1)" by fastforce
  then obtain as1 where as: "as = a # as1" "reserve_all rs s1 = (as1, s')"
    using Cons.prems(5) r by (auto split: prod.splits)
  obtain b' where b': "find_bucket k (buckets s1) = Some b'" "bucket_expires b' = bucket_expires b"
    "bucket_attempts b' = bucket_attempts b + (if a = Admitted \<and> k \<in> fst ` set keys then 1 else 0)"
    "bucket_attempts b' \<le> limit"
    using reserve_live [OF Cons.prems(1) _ _ Cons.prems(2,3) _ _ res] Cons.prems(4) r by auto
  have "distinct (map bucket_key (buckets s1))"
    using reserve_distinct [OF Cons.prems(1), of t keys] res by simp
  from Cons.IH [OF this b'(1,4) _ as(2)] Cons.prems(4) b' show ?case by (simp add: r as split: if_splits)
qed

text \<open>
  C10: No more than the limit in one window: starting from a table without a row for a key, among
  requests that reach the transaction in clock order within one window of sixty seconds, at most
  \<open>limit\<close> of those that carry the key are admitted, whatever other keys they carry.
\<close>

theorem at_most_limit_per_window:
  assumes tab: "table_ok s" and new: "find_bucket k (buckets s) = None" and lim: "1 \<le> limit"
    and order: "sorted (map fst rs)"
    and window: "\<forall>(t, keys)\<in>set rs. t0 \<le> t \<and> t < t0 + window_seconds
          \<and> distinct (map fst keys) \<and> (\<forall>l. (k, l) \<in> set keys \<longrightarrow> l = limit)"
    and run: "reserve_all rs s = (as, s')"
  shows "admitted_with k rs as \<le> limit"
proof -
  have "distinct (map bucket_key (buckets s))" using tab by (simp add: table_ok_def)
  then show ?thesis using new order window run
  proof (induction rs arbitrary: s as)
    case Nil
    then show ?case by simp
  next
    case (Cons r rs)
    obtain t keys where r: "r = (t, keys)" by force
    obtain a s1 where res: "reserve t keys s = (a, s1)" by fastforce
    then obtain as1 where as: "as = a # as1" "reserve_all rs s1 = (as1, s')"
      using Cons.prems(5) r by (auto split: prod.splits)
    have d1: "distinct (map bucket_key (buckets s1))"
      using reserve_distinct [OF Cons.prems(1), of t keys] res by simp
    have keys: "distinct (map fst keys)" using Cons.prems(4) r by simp
    have none: "find_bucket k (purge t (buckets s)) = None"
      using Cons.prems(2) by (auto simp: find_bucket_None dest: purge_subset)
    show ?case
    proof (cases "a = Admitted \<and> k \<in> fst ` set keys")
      case False
      then have "find_bucket k (buckets s1) = None"
        using res none by (auto simp: reserve_def Let_def fold_count_find [OF keys] split: if_splits)
      from Cons.IH [OF d1 this] Cons.prems(3,4) as(2) False show ?thesis by (auto simp: r as)
    next
      case True
      let ?b = "\<lparr>bucket_key = k, bucket_attempts = 1, bucket_expires = t + window_seconds\<rparr>"
      from True have "buckets s1 = fold (\<lambda>(k, limit). count_attempt t k) keys (purge t (buckets s))"
        using res by (auto simp: reserve_def Let_def split: if_splits)
      with True have f: "find_bucket k (buckets s1) = Some ?b"
        by (simp add: fold_count_find [OF keys] find_count_attempt none)
      have "\<forall>(t', keys')\<in>set rs. t' < bucket_expires ?b \<and> bucket_expires ?b \<le> t' + window_seconds
          \<and> distinct (map fst keys') \<and> (\<forall>l. (k, l) \<in> set keys' \<longrightarrow> l = limit)"
        using Cons.prems(3,4) r by fastforce
      from run_live [OF d1 f _ this as(2)] lim True show ?thesis by (simp add: r as)
    qed
  qed
qed

definition demo_throttle :: throttle where
  "demo_throttle = \<lparr>buckets = [\<lparr>bucket_key = ''u'', bucket_attempts = 10, bucket_expires = 130\<rparr>],
     rejected = 0, last_audit = 0\<rparr>"

theorem reserve_keeps_table_bounded_witness:
  "table_ok demo_throttle \<and> table_ok (snd (reserve 100 [(''u'', 10)] demo_throttle))"
proof -
  have h: "table_ok demo_throttle" by (simp add: table_ok_def demo_throttle_def max_buckets_def)
  from reserve_keeps_table_bounded [OF h] h show ?thesis by blast
qed


theorem at_most_limit_per_window_witness:
  "\<exists>as s'. reserve_all [(100, [(''v'', 1)]), (101, [(''v'', 1)])] demo_throttle = (as, s')
     \<and> admitted_with ''v'' [(100, [(''v'', 1)]), (101, [(''v'', 1)])] as \<le> 1"
proof -
  obtain as s' where r: "reserve_all [(100, [(''v'', 1)]), (101, [(''v'', 1)])] demo_throttle = (as, s')"
    by fastforce
  have h: "table_ok demo_throttle" "find_bucket ''v'' (buckets demo_throttle) = None"
    by (simp_all add: table_ok_def demo_throttle_def max_buckets_def find_bucket_def select_first_def)
  have "admitted_with ''v'' [(100, [(''v'', 1)]), (101, [(''v'', 1)])] as \<le> 1"
    by (rule at_most_limit_per_window [OF h _ _ _ r, of 1 100]) (simp_all add: window_seconds_def)
  with r show ?thesis by blast
qed

end
