(* ===== verification/Json_Text.thy ===== *)
theory Json_Text
  imports Payloads
begin

text \<open>
  The part of Python's \<open>json\<close> module that the toolkit uses: the values, \<open>json.dumps\<close>
  with its separators and indentation, and \<open>json.loads\<close>.  A float is kept as the text its
  \<open>repr\<close> gives, so that no rounding is modelled; a number without fraction and exponent is an
  \<open>int\<close> of any size.  An object is an association list in insertion order.
\<close>

datatype json =
    JNull
  | JBool bool
  | JInt int
  | JFloat string
  | JStr string
  | JList "json list"
  | JObj "(string \<times> json) list"

section \<open>Decimal numbers\<close>

lemma py_digit_char [simp]: "(n :: nat) < 10 \<Longrightarrow> py_digit (char_of (48 + n))"
  by (simp add: py_digit_def of_char_of)

lemma digit_value_char [simp]: "(n :: nat) < 10 \<Longrightarrow> digit_value (char_of (48 + n)) = n"
  by (simp add: digit_value_def of_char_of)

lemma decimal_value_snoc [simp]: "decimal_value (s @ [c]) = 10 * decimal_value s + digit_value c"
  by (simp add: decimal_value_def)

lemma show_nat_props: "decimal_value (show_nat n) = n \<and> list_all py_digit (show_nat n) \<and> show_nat n \<noteq> []"
proof (induction n rule: show_nat.induct)
  case (1 n)
  show ?case
  proof (cases "n < 10")
    case True
    then show ?thesis
      by (simp add: show_nat.simps [of n] decimal_value_def)
  next
    case False
    with 1 have "decimal_value (show_nat n) = 10 * (n div 10) + n mod 10"
      by (simp add: show_nat.simps [of n])
    with 1 False show ?thesis
      by (simp add: show_nat.simps [of n])
  qed
qed

lemmas decimal_value_show = show_nat_props [THEN conjunct1]
  and show_nat_digits = show_nat_props [THEN conjunct2, THEN conjunct1]
  and show_nat_nonempty [simp] = show_nat_props [THEN conjunct2, THEN conjunct2]

lemma show_nat_hd: "hd (show_nat n) = CHR ''0'' \<Longrightarrow> n = 0 \<and> show_nat n = ''0''"
proof (induction n rule: show_nat.induct)
  case (1 n)
  show ?case
  proof (cases "n < 10")
    case True
    with 1(2) have "char_of (48 + n) = CHR ''0''" by (simp add: show_nat.simps [of n])
    then have "(of_char (char_of (48 + n)) :: nat) = of_char (CHR ''0'')" by simp
    with True have "n = 0" by (simp add: of_char_of)
    moreover have "show_nat 0 = ''0''" by code_simp
    ultimately show ?thesis by simp
  next
    case False
    with 1(2) have "hd (show_nat (n div 10)) = CHR ''0''" by (simp add: show_nat.simps [of n])
    with 1(1) False have "n div 10 = 0" by simp
    with False show ?thesis by simp
  qed
qed

definition show_int :: "int \<Rightarrow> string" where
  "show_int i = (if i < 0 then CHR ''-'' # show_nat (nat (- i)) else show_nat (nat i))"

section \<open>Writing\<close>

text \<open>\<open>ensure_ascii\<close> is on: every character outside the printable ASCII range is escaped.\<close>

definition json_escape :: "char \<Rightarrow> string" where
  "json_escape c = (let n = (of_char c :: nat) in
     if n = 34 then [CHR 0x5C, CHR 0x22]
     else if n = 92 then [CHR 0x5C, CHR 0x5C]
     else if n = 10 then [CHR 0x5C, CHR ''n'']
     else if n = 13 then [CHR 0x5C, CHR ''r'']
     else if n = 9 then [CHR 0x5C, CHR ''t'']
     else if n = 12 then [CHR 0x5C, CHR ''f'']
     else if n = 8 then [CHR 0x5C, CHR ''b'']
     else if 32 \<le> n \<and> n \<le> 126 then [c]
     else [CHR 0x5C, CHR ''u'', CHR ''0'', CHR ''0'', hex_digit (n div 16), hex_digit (n mod 16)])"

definition escaped :: "string \<Rightarrow> string" where
  "escaped s = concat (map json_escape s)"

definition json_string :: "string \<Rightarrow> string" where
  "json_string s = [CHR 0x22] @ escaped s @ [CHR 0x22]"

text \<open>
  The layout: what stands before an item at depth \<open>d\<close> (nothing, or a new line and two spaces for
  each level), the separator between items and the one between a key and its value.
\<close>

record layout =
  before_item :: "nat \<Rightarrow> string"
  item_sep :: string
  key_sep :: string

fun dumps_at :: "layout \<Rightarrow> nat \<Rightarrow> json \<Rightarrow> string"
  and dumps_items :: "layout \<Rightarrow> nat \<Rightarrow> json list \<Rightarrow> string"
  and dumps_members :: "layout \<Rightarrow> nat \<Rightarrow> (string \<times> json) list \<Rightarrow> string"
where
  "dumps_at L d JNull = ''null''"
| "dumps_at L d (JBool b) = (if b then ''true'' else ''false'')"
| "dumps_at L d (JInt i) = show_int i"
| "dumps_at L d (JFloat t) = t"
| "dumps_at L d (JStr s) = json_string s"
| "dumps_at L d (JList js) = (if js = [] then ''[]''
     else ''['' @ before_item L (d + 1) @ dumps_items L (d + 1) js @ before_item L d @ '']'')"
| "dumps_at L d (JObj kvs) = (if kvs = [] then ''{}''
     else ''{'' @ before_item L (d + 1) @ dumps_members L (d + 1) kvs @ before_item L d @ ''}'')"
| "dumps_items L d [] = []"
| "dumps_items L d (j # js) = dumps_at L d j @
     (if js = [] then [] else item_sep L @ before_item L d @ dumps_items L d js)"
| "dumps_members L d [] = []"
| "dumps_members L d (kv # kvs) = json_string (fst kv) @ key_sep L @ dumps_at L d (snd kv) @
     (if kvs = [] then [] else item_sep L @ before_item L d @ dumps_members L d kvs)"

text \<open>\<open>separators=(',', ':')\<close>, the default separators, and \<open>indent=2\<close>.\<close>

definition compact_layout :: layout where
  "compact_layout = \<lparr>before_item = (\<lambda>d. []), item_sep = '','', key_sep = '':''\<rparr>"

definition default_layout :: layout where
  "default_layout = \<lparr>before_item = (\<lambda>d. []), item_sep = '', '', key_sep = '': ''\<rparr>"

definition pretty_layout :: layout where
  "pretty_layout = \<lparr>before_item = (\<lambda>d. CHR 0x0A # replicate (2 * d) (CHR '' '')),
     item_sep = '','', key_sep = '': ''\<rparr>"

definition dumps_compact :: "json \<Rightarrow> string" where
  "dumps_compact j = dumps_at compact_layout 0 j"

definition dumps :: "json \<Rightarrow> string" where
  "dumps j = dumps_at default_layout 0 j"

section \<open>Reading\<close>

definition json_ws :: "char \<Rightarrow> bool" where
  "json_ws c \<longleftrightarrow> c = CHR '' '' \<or> c = CHR 0x09 \<or> c = CHR 0x0A \<or> c = CHR 0x0D"

definition skip_ws :: "string \<Rightarrow> string" where
  "skip_ws s = dropWhile json_ws s"

definition simple_escape :: "char \<Rightarrow> char option" where
  "simple_escape e =
     (if e = CHR 0x22 \<or> e = CHR 0x5C \<or> e = CHR ''/'' then Some e
      else if e = CHR ''b'' then Some (CHR 0x08)
      else if e = CHR ''f'' then Some (CHR 0x0C)
      else if e = CHR ''n'' then Some (CHR 0x0A)
      else if e = CHR ''r'' then Some (CHR 0x0D)
      else if e = CHR ''t'' then Some (CHR 0x09) else None)"

text \<open>
  The body of a string after its opening quote.  A code point above 255 is outside the
  characters of the model and is refused.
\<close>

fun read_string :: "string \<Rightarrow> (string \<times> string) option" where
  "read_string [] = None"
| "read_string (c # cs) =
     (if c = CHR 0x22 then Some ([], cs)
      else if c = CHR 0x5C then
        (case cs of
           e # cs1 \<Rightarrow>
             if e = CHR ''u'' then
               (case cs1 of
                  h1 # h2 # h3 # h4 # cs2 \<Rightarrow>
                    (case (hex_value h1, hex_value h2, hex_value h3, hex_value h4) of
                       (Some a, Some b, Some x, Some y) \<Rightarrow>
                         if a = 0 \<and> b = 0 then map_option (apfst (Cons (char_of (16 * x + y)))) (read_string cs2)
                         else None
                     | _ \<Rightarrow> None)
                | _ \<Rightarrow> None)
             else (case simple_escape e of
                 Some c' \<Rightarrow> map_option (apfst (Cons c')) (read_string cs1)
               | None \<Rightarrow> None)
         | [] \<Rightarrow> None)
      else if (of_char c :: nat) < 32 then None
      else map_option (apfst (Cons c)) (read_string cs))"

definition number_char :: "char \<Rightarrow> bool" where
  "number_char c \<longleftrightarrow> py_digit c \<or> c = CHR ''-'' \<or> c = CHR ''+'' \<or> c = CHR ''.'' \<or> c = CHR ''e'' \<or> c = CHR ''E''"

text \<open>The three parts of the number pattern of \<open>json.scanner\<close>.\<close>

definition int_part_ok :: "string \<Rightarrow> bool" where
  "int_part_ok s \<longleftrightarrow> s \<noteq> [] \<and> list_all py_digit s \<and> (hd s = CHR ''0'' \<longrightarrow> length s = 1)"

definition exponent_ok :: "string \<Rightarrow> bool" where
  "exponent_ok s \<longleftrightarrow> (case s of [] \<Rightarrow> True | c # cs \<Rightarrow>
     (c = CHR ''e'' \<or> c = CHR ''E'') \<and>
     (let ds = (case cs of [] \<Rightarrow> [] | d # ds' \<Rightarrow> if d = CHR ''-'' \<or> d = CHR ''+'' then ds' else cs)
      in ds \<noteq> [] \<and> list_all py_digit ds))"

definition tail_ok :: "string \<Rightarrow> bool" where
  "tail_ok s \<longleftrightarrow> (case s of [] \<Rightarrow> False | c # cs \<Rightarrow>
     if c = CHR ''.'' then takeWhile py_digit cs \<noteq> [] \<and> exponent_ok (dropWhile py_digit cs)
     else exponent_ok s)"

definition number_body :: "string \<Rightarrow> string" where
  "number_body s = (case s of [] \<Rightarrow> [] | c # cs \<Rightarrow> if c = CHR ''-'' then cs else s)"

definition float_text :: "string \<Rightarrow> bool" where
  "float_text s \<longleftrightarrow> (let body = number_body s in
     int_part_ok (takeWhile py_digit body) \<and> tail_ok (dropWhile py_digit body))"

definition read_number :: "string \<Rightarrow> json option" where
  "read_number s = (let body = number_body s in
     if list_all py_digit body
     then (if int_part_ok body then
       Some (JInt (if body = s then int (decimal_value body) else - int (decimal_value body))) else None)
     else if float_text s then Some (JFloat s) else None)"

definition literals :: "(string \<times> json) list" where
  "literals = [(''null'', JNull), (''true'', JBool True), (''false'', JBool False),
     (''NaN'', JFloat ''NaN''), (''Infinity'', JFloat ''Infinity''), (''-Infinity'', JFloat ''-Infinity'')]"

definition read_scalar :: "string \<Rightarrow> (json \<times> string) option" where
  "read_scalar s = (case List.find (\<lambda>(t, j). starts_with s t) literals of
     Some (t, j) \<Rightarrow> Some (j, drop (length t) s)
   | None \<Rightarrow> map_option (\<lambda>j. (j, dropWhile number_char s)) (read_number (takeWhile number_char s)))"

fun read_value :: "nat \<Rightarrow> string \<Rightarrow> (json \<times> string) option"
  and read_items :: "nat \<Rightarrow> string \<Rightarrow> (json list \<times> string) option"
  and read_members :: "nat \<Rightarrow> (string \<times> json) list \<Rightarrow> string \<Rightarrow> ((string \<times> json) list \<times> string) option"
where
  "read_value 0 s = None"
| "read_value (Suc f) s =
     (if s = [] then None
      else if hd s = CHR 0x22 then map_option (apfst JStr) (read_string (tl s))
      else if hd s = CHR ''['' then
        (let t = skip_ws (tl s) in
         if t \<noteq> [] \<and> hd t = CHR '']'' then Some (JList [], tl t) else map_option (apfst JList) (read_items f t))
      else if hd s = CHR ''{'' then
        (let t = skip_ws (tl s) in
         if t \<noteq> [] \<and> hd t = CHR ''}'' then Some (JObj [], tl t) else map_option (apfst JObj) (read_members f [] t))
      else read_scalar s)"
| "read_items 0 s = None"
| "read_items (Suc f) s =
     (case read_value f s of
        None \<Rightarrow> None
      | Some (j, r) \<Rightarrow>
          (case skip_ws r of
             [] \<Rightarrow> None
           | c # r' \<Rightarrow>
               if c = CHR '','' then map_option (apfst (Cons j)) (read_items f (skip_ws r'))
               else if c = CHR '']'' then Some ([j], r') else None))"
| "read_members 0 acc s = None"
| "read_members (Suc f) acc s =
     (if s = [] \<or> hd s \<noteq> CHR 0x22 then None
      else (case read_string (tl s) of
        None \<Rightarrow> None
      | Some (k, r) \<Rightarrow>
          (case skip_ws r of
             [] \<Rightarrow> None
           | c # r' \<Rightarrow>
               if c \<noteq> CHR '':'' then None
               else (case read_value f (skip_ws r') of
                   None \<Rightarrow> None
                 | Some (v, r2) \<Rightarrow>
                     (case skip_ws r2 of
                        [] \<Rightarrow> None
                      | c2 # r3 \<Rightarrow>
                          if c2 = CHR '','' then read_members f (assoc_put k v acc) (skip_ws r3)
                          else if c2 = CHR ''}'' then Some (assoc_put k v acc, r3) else None)))))"

text \<open>Every level of recursion consumes a character, so the length of the text is enough fuel.\<close>

definition loads :: "string \<Rightarrow> json option" where
  "loads s = (case read_value (Suc (2 * length s)) (skip_ws s) of
     Some (j, r) \<Rightarrow> if skip_ws r = [] then Some j else None
   | None \<Rightarrow> None)"

section \<open>Reading back what was written\<close>

lemma hex_value_digit [simp]: "n < 16 \<Longrightarrow> hex_value (hex_digit n) = Some n"
  by (auto simp: hex_value_def hex_digit_def of_char_of Let_def)

lemma of_char_eqD: "(of_char c :: nat) = n \<Longrightarrow> c = char_of n"
  by auto

lemma read_string_escape: "read_string (json_escape c @ t) = map_option (apfst (Cons c)) (read_string t)"
proof -
  let ?n = "of_char c :: nat"
  have lt: "?n < 256" by (rule nat_of_char_less_256)
  consider "?n \<in> {34, 92, 10, 13, 9, 12, 8}" | "32 \<le> ?n" "?n \<le> 126" "?n \<noteq> 34" "?n \<noteq> 92"
    | "?n \<notin> {34, 92, 10, 13, 9, 12, 8}" "\<not> (32 \<le> ?n \<and> ?n \<le> 126)" by auto
  then show ?thesis
  proof cases
    case 1
    then consider "c = CHR 0x22" | "c = CHR 0x5C" | "c = CHR 0x0A" | "c = CHR 0x0D" | "c = CHR 0x09" | "c = CHR 0x0C" | "c = CHR 0x08"
      by (simp only: of_char_eq_iff [where 'a = nat, symmetric]) auto
    then show ?thesis
      by cases (simp_all add: json_escape_def simple_escape_def)
  next
    case 2
    then have "c \<noteq> CHR 0x22" "c \<noteq> CHR 0x5C" by auto
    with 2 show ?thesis by (simp add: json_escape_def)
  next
    case 3
    then have esc: "json_escape c = [CHR 0x5C, CHR ''u'', CHR ''0'', CHR ''0'', hex_digit (?n div 16), hex_digit (?n mod 16)]"
      by (simp add: json_escape_def Let_def)
    have "hex_value (CHR ''0'') = Some 0" by (simp add: hex_value_def)
    moreover have "char_of (16 * (?n div 16) + ?n mod 16) = c" by simp
    ultimately show ?thesis using 3 lt
      by (simp add: esc less_mult_imp_div_less)
  qed
qed

lemma read_string_escaped: "read_string (escaped s @ CHR 0x22 # t) = Some (s, t)"
proof (induction s)
  case Nil
  then show ?case by (simp add: escaped_def)
next
  case (Cons c s)
  have "escaped (c # s) = json_escape c @ escaped s" by (simp add: escaped_def)
  with Cons show ?case by (simp add: read_string_escape)
qed

lemma digit_number_char: "py_digit c \<Longrightarrow> number_char c"
  by (simp add: number_char_def)

lemma list_all_digit_number: "list_all py_digit s \<Longrightarrow> list_all number_char s"
  by (auto simp: list_all_iff digit_number_char)

lemma not_digit [simp]: "\<not> py_digit (CHR ''-'')" "\<not> py_digit (CHR ''.'')" "\<not> py_digit (CHR ''e'')" "\<not> py_digit (CHR ''E'')"
  by (simp_all add: py_digit_def)

lemma show_int_number: "list_all number_char (show_int i)"
  by (simp add: show_int_def list_all_digit_number show_nat_digits number_char_def)

lemma hd_show_nat_digit: "py_digit (hd (show_nat n))"
  using show_nat_digits [of n] show_nat_nonempty [of n] by (cases "show_nat n") auto

lemma int_part_show: "int_part_ok (show_nat n)"
  using show_nat_hd [of n] by (auto simp: int_part_ok_def show_nat_digits)

lemma number_body_show [simp]: "number_body (show_nat n) = show_nat n"
  using hd_show_nat_digit [of n] by (cases "show_nat n") (auto simp: number_body_def)

lemma read_number_show: "read_number (show_int i) = Some (JInt i)"
proof (cases "i < 0")
  case True
  then have s: "show_int i = CHR ''-'' # show_nat (nat (- i))" by (simp add: show_int_def)
  with True show ?thesis
    by (simp add: read_number_def s number_body_def show_nat_digits int_part_show decimal_value_show)
next
  case False
  then have "show_int i = show_nat (nat i)" by (simp add: show_int_def)
  with False show ?thesis
    by (simp add: read_number_def show_nat_digits int_part_show decimal_value_show)
qed

text \<open>A number starts with a digit, or with a minus sign and a digit: no literal starts so.\<close>

definition number_start :: "string \<Rightarrow> bool" where
  "number_start s \<longleftrightarrow> (case s of [] \<Rightarrow> False | c # cs \<Rightarrow> py_digit c \<or> (c = CHR ''-'' \<and> cs \<noteq> [] \<and> py_digit (hd cs)))"

lemma number_start_append: "number_start s \<Longrightarrow> number_start (s @ t)"
  by (auto simp: number_start_def split: list.splits)

lemma digit_neq: "py_digit c \<Longrightarrow> c \<noteq> CHR ''n'' \<and> c \<noteq> CHR ''t'' \<and> c \<noteq> CHR ''f'' \<and> c \<noteq> CHR ''N'' \<and> c \<noteq> CHR ''I'' \<and> c \<noteq> CHR ''-'' \<and> c \<noteq> CHR 0x22 \<and> c \<noteq> CHR ''['' \<and> c \<noteq> CHR ''{'' \<and> \<not> json_ws c \<and> c \<noteq> CHR '']'' \<and> c \<noteq> CHR ''}'' \<and> c \<noteq> CHR '',''"
  by (auto simp: py_digit_def json_ws_def)

lemma number_start_scalar: "number_start s \<Longrightarrow> List.find (\<lambda>(t, j). starts_with s t) literals = None"
proof -
  assume s: "number_start s"
  then obtain c cs where cs: "s = c # cs" by (cases s) (auto simp: number_start_def)
  show ?thesis
  proof (cases "py_digit c")
    case True
    then show ?thesis using digit_neq [OF True] by (simp add: cs literals_def starts_with_def)
  next
    case False
    with s cs obtain d ds where "cs = d # ds" "py_digit d" "c = CHR ''-''" 
      by (cases cs) (auto simp: number_start_def)
    with digit_neq [of d] show ?thesis by (simp add: cs literals_def starts_with_def)
  qed
qed

definition boundary :: "string \<Rightarrow> bool" where
  "boundary s \<longleftrightarrow> (case s of [] \<Rightarrow> True | c # cs \<Rightarrow> \<not> number_char c)"

lemma takeWhile_boundary: "list_all number_char s \<Longrightarrow> boundary r \<Longrightarrow>
  takeWhile number_char (s @ r) = s \<and> dropWhile number_char (s @ r) = r"
  by (induction s) (auto simp: boundary_def split: list.splits)

lemma read_scalar_number:
  "number_start s \<Longrightarrow> list_all number_char s \<Longrightarrow> boundary r \<Longrightarrow> read_number s = Some j \<Longrightarrow>
   read_scalar (s @ r) = Some (j, r)"
  using number_start_scalar [OF number_start_append, of s r] takeWhile_boundary [of s r]
  by (simp add: read_scalar_def)

lemma read_value_number:
  "number_start s \<Longrightarrow> list_all number_char s \<Longrightarrow> boundary r \<Longrightarrow> read_number s = Some j \<Longrightarrow>
   read_value (Suc f) (s @ r) = Some (j, r)"
proof -
  assume a: "number_start s" "list_all number_char s" "boundary r" "read_number s = Some j"
  from a(1) obtain c cs where s: "s = c # cs" and c: "py_digit c \<or> c = CHR ''-''"
    by (cases s) (auto simp: number_start_def)
  have "c \<noteq> CHR 0x22" "c \<noteq> CHR ''[''" "c \<noteq> CHR ''{''" using c by (cases "c = CHR ''-''"; simp add: digit_neq)+
  then have "read_value (Suc f) (s @ r) = read_scalar (s @ r)" by (simp add: s)
  with read_scalar_number [OF a] show ?thesis by simp
qed

lemma show_int_start: "number_start (show_int i)"
proof -
  have "number_start (show_nat n) \<and> number_start (CHR ''-'' # show_nat n)" for n
    using hd_show_nat_digit [of n] show_nat_nonempty [of n] by (cases "show_nat n") (auto simp: number_start_def)
  then show ?thesis by (simp add: show_int_def)
qed

lemma float_text_start: "float_text s \<Longrightarrow> number_start s"
proof -
  assume "float_text s"
  then have "takeWhile py_digit (number_body s) \<noteq> []"
    by (simp add: float_text_def Let_def int_part_ok_def)
  then show ?thesis
    by (cases s; cases "tl s") (auto simp: number_body_def number_start_def split: if_splits)
qed

lemma float_text_number: "float_text s \<Longrightarrow> read_number s = Some (JFloat s)"
proof -
  assume f: "float_text s"
  then have "tail_ok (dropWhile py_digit (number_body s))" by (simp add: float_text_def Let_def)
  then have "\<not> list_all py_digit (number_body s)"
    by (cases "dropWhile py_digit (number_body s)") (auto simp: tail_ok_def list_all_iff simp flip: dropWhile_eq_Nil_conv)
  with f show ?thesis by (simp add: read_number_def)
qed

section \<open>Round trip\<close>

text \<open>
  The values the writer and the reader agree on: keys of an object are distinct (it is a Python
  dict) and a float is written as a number or as one of the three special names.
\<close>

definition float_ok :: "string \<Rightarrow> bool" where
  "float_ok t \<longleftrightarrow> (float_text t \<and> list_all number_char t) \<or> t = ''NaN'' \<or> t = ''Infinity'' \<or> t = ''-Infinity''"

fun wf_json :: "json \<Rightarrow> bool" where
  "wf_json (JFloat t) = float_ok t"
| "wf_json (JList js) = list_all wf_json js"
| "wf_json (JObj kvs) = (distinct (map fst kvs) \<and> list_all (\<lambda>kv. wf_json (snd kv)) kvs)"
| "wf_json j = True"

definition layout_ok :: "layout \<Rightarrow> bool" where
  "layout_ok L \<longleftrightarrow> (\<forall>d. list_all json_ws (before_item L d)) \<and>
     (\<exists>w. item_sep L = CHR '','' # w \<and> list_all json_ws w) \<and>
     (\<exists>w. key_sep L = CHR '':'' # w \<and> list_all json_ws w)"

lemma layouts_ok [simp]: "layout_ok compact_layout" "layout_ok default_layout" "layout_ok pretty_layout"
  by (simp_all add: layout_ok_def compact_layout_def default_layout_def pretty_layout_def json_ws_def list_all_iff)

lemma skip_ws_append: "list_all json_ws w \<Longrightarrow> skip_ws (w @ t) = skip_ws t"
  by (auto simp: skip_ws_def list_all_iff dropWhile_append)

lemma skip_ws_idem: "t = [] \<or> \<not> json_ws (hd t) \<Longrightarrow> skip_ws t = t"
  by (cases t) (auto simp: skip_ws_def)

text \<open>What a written value starts with.\<close>

definition value_start :: "string \<Rightarrow> bool" where
  "value_start s \<longleftrightarrow> s \<noteq> [] \<and> \<not> json_ws (hd s) \<and> hd s \<noteq> CHR '']'' \<and> hd s \<noteq> CHR ''}''"

lemma number_value_start: "number_start s \<Longrightarrow> value_start s"
proof -
  assume "number_start s"
  then obtain c cs where "s = c # cs" and "py_digit c \<or> c = CHR ''-''"
    by (cases s) (auto simp: number_start_def)
  then show ?thesis
    by (cases "c = CHR ''-''") (simp_all add: value_start_def digit_neq, simp add: json_ws_def)
qed

lemma dumps_start: "wf_json j \<Longrightarrow> value_start (dumps_at L d j)"
proof (cases j)
  case (JFloat t)
  assume "wf_json j"
  then consider "float_text t" | "t = ''NaN''" | "t = ''Infinity''" | "t = ''-Infinity''"
    by (auto simp: JFloat float_ok_def)
  then show ?thesis
    by cases (simp_all add: JFloat float_text_start number_value_start, simp_all add: value_start_def json_ws_def)
qed (simp_all add: show_int_start number_value_start, simp_all add: value_start_def json_ws_def json_string_def)

lemma value_start_append: "value_start s \<Longrightarrow> value_start (s @ t)"
  by (auto simp: value_start_def)

lemma skip_value_start: "value_start s \<Longrightarrow> skip_ws s = s"
  by (auto simp: value_start_def intro: skip_ws_idem)

lemma char_facts [simp]:
  "boundary []" "\<not> number_char (CHR '','')" "\<not> number_char (CHR '']'')" "\<not> number_char (CHR ''}'')"
  "json_ws c \<Longrightarrow> \<not> number_char c"
  by (auto simp: boundary_def number_char_def py_digit_def json_ws_def)

lemma boundary_Cons [simp]: "boundary (c # cs) = (\<not> number_char c)"
  by (simp add: boundary_def)

lemma boundary_ws: "list_all json_ws w \<Longrightarrow> boundary t \<Longrightarrow> boundary (w @ t)"
  by (cases w) auto

lemma read_value_literal:
  "read_value (Suc f) (''null'' @ r) = Some (JNull, r)"
  "read_value (Suc f) (''true'' @ r) = Some (JBool True, r)"
  "read_value (Suc f) (''false'' @ r) = Some (JBool False, r)"
  "read_value (Suc f) (''NaN'' @ r) = Some (JFloat ''NaN'', r)"
  "read_value (Suc f) (''Infinity'' @ r) = Some (JFloat ''Infinity'', r)"
  "read_value (Suc f) (''-Infinity'' @ r) = Some (JFloat ''-Infinity'', r)"
  by (simp_all add: read_scalar_def literals_def starts_with_def)

lemma read_value_scalar:
  assumes "wf_json j" "boundary r" "\<And>js. j \<noteq> JList js" "\<And>kvs. j \<noteq> JObj kvs"
  shows "read_value (Suc f) (dumps_at L d j @ r) = Some (j, r)"
proof (cases j)
  case JNull
  then show ?thesis using read_value_literal(1) [of f r] by simp
next
  case (JBool b)
  then show ?thesis using read_value_literal(2,3) [of f r] by (cases b) simp_all
next
  case (JInt i)
  with read_value_number [OF show_int_start show_int_number assms(2) read_number_show] show ?thesis by simp
next
  case (JFloat t)
  with assms(1) consider "float_text t" "list_all number_char t" | "t = ''NaN''" | "t = ''Infinity''" | "t = ''-Infinity''"
    by (auto simp: JFloat float_ok_def)
  then show ?thesis
  proof cases
    case 1
    with read_value_number [OF float_text_start _ assms(2) float_text_number] JFloat show ?thesis by simp
  qed (use read_value_literal(4-6) [of f r] JFloat in simp_all)
next
  case (JStr s)
  then show ?thesis by (simp add: json_string_def read_string_escaped)
qed (use assms in simp_all)

lemma before_ws: "layout_ok L \<Longrightarrow> list_all json_ws (before_item L d)"
  by (simp add: layout_ok_def)

lemma skip_before: "layout_ok L \<Longrightarrow> value_start s \<Longrightarrow> skip_ws (before_item L d @ s @ t) = s @ t"
  by (simp add: before_ws skip_ws_append skip_value_start value_start_append)

lemma layout_seps:
  assumes "layout_ok L"
  obtains w v where "item_sep L = CHR '','' # w" "list_all json_ws w" "key_sep L = CHR '':'' # v" "list_all json_ws v"
  using assms by (auto simp: layout_ok_def)

lemma items_start: "js \<noteq> [] \<Longrightarrow> list_all wf_json js \<Longrightarrow> value_start (dumps_items L d js)"
  by (cases js) (auto intro: value_start_append dumps_start)

lemma members_start: "kvs \<noteq> [] \<Longrightarrow> value_start (dumps_members L d kvs)"
  by (cases kvs) (auto simp: json_string_def value_start_def json_ws_def)

lemma assoc_put_new: "k \<notin> fst ` set kvs \<Longrightarrow> assoc_put k v kvs = kvs @ [(k, v)]"
  by (simp add: assoc_put_def)

lemma skip_close: "list_all json_ws w \<Longrightarrow> \<not> json_ws c \<Longrightarrow> skip_ws (w @ c # t) = c # t"
  by (simp add: skip_ws_append skip_ws_idem)

lemma not_ws [simp]: "\<not> json_ws (CHR '']'')" "\<not> json_ws (CHR ''}'')" "\<not> json_ws (CHR '','')" "\<not> json_ws (CHR '':'')"
  by (simp_all add: json_ws_def)

lemma read_dumps:
  "layout_ok L \<Longrightarrow> wf_json j \<Longrightarrow> boundary r \<Longrightarrow> 2 * length (dumps_at L d j) \<le> f \<Longrightarrow>
     read_value f (dumps_at L d j @ r) = Some (j, r)"
  "layout_ok L \<Longrightarrow> js \<noteq> [] \<Longrightarrow> list_all wf_json js \<Longrightarrow> list_all json_ws w \<Longrightarrow> 2 * length (dumps_items L d js) + 1 \<le> f \<Longrightarrow>
     read_items f (dumps_items L d js @ w @ '']'' @ r) = Some (js, r)"
  "layout_ok L \<Longrightarrow> kvs \<noteq> [] \<Longrightarrow> list_all (\<lambda>kv. wf_json (snd kv)) kvs \<Longrightarrow> distinct (map fst kvs) \<Longrightarrow>
     fst ` set kvs \<inter> fst ` set acc = {} \<Longrightarrow> list_all json_ws w \<Longrightarrow> 2 * length (dumps_members L d kvs) + 1 \<le> f \<Longrightarrow>
     read_members f acc (dumps_members L d kvs @ w @ ''}'' @ r) = Some (acc @ kvs, r)"
proof (induction L d j and L d js and L d kvs arbitrary: f r and f r w and f r w acc
    rule: dumps_at_dumps_items_dumps_members.induct)
  case (6 L d js)
  from 6 obtain f' where f': "f = Suc f'" by (cases f) (auto split: if_splits)
  show ?case
  proof (cases "js = []")
    case True
    then show ?thesis by (simp add: f' skip_ws_def json_ws_def)
  next
    case False
    with 6 have st: "value_start (dumps_items L (d + 1) js)" by (simp add: items_start)
    then have "hd (dumps_items L (d + 1) js) \<noteq> CHR '']''" "dumps_items L (d + 1) js \<noteq> []"
      by (simp_all add: value_start_def)
    with False 6 st show ?thesis
      by (simp add: f' skip_before before_ws)
  qed
next
  case (7 L d kvs)
  from 7 obtain f' where f': "f = Suc f'" by (cases f) (auto split: if_splits)
  show ?case
  proof (cases "kvs = []")
    case True
    then show ?thesis by (simp add: f' skip_ws_def json_ws_def)
  next
    case False
    with 7 have st: "value_start (dumps_members L (d + 1) kvs)" by (simp add: members_start)
    then have "hd (dumps_members L (d + 1) kvs) \<noteq> CHR ''}''" "dumps_members L (d + 1) kvs \<noteq> []"
      by (simp_all add: value_start_def)
    with False 7 st show ?thesis
      by (simp add: f' skip_before before_ws)
  qed
next
  case (9 L d j js)
  from 9 obtain f' where f': "f = Suc f'" by (cases f) auto
  obtain s v where seps: "item_sep L = CHR '','' # s" "list_all json_ws s" "key_sep L = CHR '':'' # v" "list_all json_ws v"
    using layout_seps [OF 9(3)] .
  have st: "value_start (dumps_at L d j)" using 9 by (simp add: dumps_start)
  then have pos: "0 < length (dumps_at L d j)" by (simp add: value_start_def)
  show ?case
  proof (cases "js = []")
    case True
    have "read_value f' (dumps_at L d j @ w @ '']'' @ r) = Some (j, w @ '']'' @ r)"
      using 9 True f' by (intro 9(1)) (auto intro: boundary_ws)
    with True 9 show ?thesis by (simp add: f' skip_close)
  next
    case False
    have "read_value f' (dumps_at L d j @ item_sep L @ before_item L d @ dumps_items L d js @ w @ '']'' @ r)
        = Some (j, item_sep L @ before_item L d @ dumps_items L d js @ w @ '']'' @ r)"
      using 9 False f' seps by (intro 9(1)) auto
    moreover have "skip_ws (s @ before_item L d @ dumps_items L d js @ w @ '']'' @ r) = dumps_items L d js @ w @ '']'' @ r"
      using 9 False seps by (simp add: skip_ws_append skip_before items_start)
    moreover have "read_items f' (dumps_items L d js @ w @ '']'' @ r) = Some (js, r)"
      using 9 False f' seps by (intro 9(2)) auto
    ultimately show ?thesis using False seps by (simp add: f' skip_ws_idem)
  qed
next
  case (11 L d kv kvs)
  from 11 obtain f' where f': "f = Suc f'" by (cases f) auto
  obtain k x where kv: "kv = (k, x)" by (cases kv)
  obtain s v where seps: "item_sep L = CHR '','' # s" "list_all json_ws s" "key_sep L = CHR '':'' # v" "list_all json_ws v"
    using layout_seps [OF 11(3)] .
  have st: "value_start (dumps_at L d x)" using 11 kv by (simp add: dumps_start)
  then have pos: "0 < length (dumps_at L d x)" by (simp add: value_start_def)
  have put: "assoc_put k x acc = acc @ [(k, x)]" using 11 kv by (intro assoc_put_new) auto
  show ?case
  proof (cases "kvs = []")
    case True
    have "read_value f' (dumps_at L d x @ w @ ''}'' @ r) = Some (x, w @ ''}'' @ r)"
      using 11 True f' kv 11(1) [of "w @ ''}'' @ r" f'] boundary_ws [of w "''}'' @ r"] by simp
    with True 11 kv seps st show ?thesis
      by (simp add: f' skip_close json_string_def read_string_escaped put skip_ws_idem skip_ws_append skip_value_start value_start_append)
  next
    case False
    let ?r = "before_item L d @ dumps_members L d kvs @ w @ ''}'' @ r"
    have "read_value f' (dumps_at L d x @ item_sep L @ ?r) = Some (x, item_sep L @ ?r)"
      using 11 False f' seps kv 11(1) [of "item_sep L @ ?r" f'] by auto
    moreover have "skip_ws (s @ ?r) = dumps_members L d kvs @ w @ ''}'' @ r"
      using 11 False seps by (simp add: skip_ws_append skip_before members_start)
    moreover have "read_members f' (acc @ [(k, x)]) (dumps_members L d kvs @ w @ ''}'' @ r) = Some ((acc @ [(k, x)]) @ kvs, r)"
      using 11 False f' seps kv by (intro 11(2)) auto
    moreover have "skip_ws (v @ dumps_at L d x @ item_sep L @ ?r) = dumps_at L d x @ item_sep L @ ?r"
      using seps st by (simp add: skip_ws_append skip_value_start value_start_append)
    ultimately show ?thesis using False seps kv put
      by (simp add: f' json_string_def read_string_escaped skip_ws_idem)
  qed
next
  case (3 L d i)
  then show ?case using read_value_scalar [of "JInt i" r _ L d] dumps_start [of "JInt i" L d]
    by (cases f) (auto simp del: read_value.simps simp: value_start_def)
next
  case (4 L d t)
  then show ?case using read_value_scalar [of "JFloat t" r _ L d] dumps_start [of "JFloat t" L d]
    by (cases f) (auto simp del: read_value.simps simp: value_start_def)
next
  case (1 L d)
  then show ?case using read_value_scalar [of JNull r _ L d] by (cases f) (auto simp del: read_value.simps)
next
  case (2 L d b)
  then show ?case using read_value_scalar [of "JBool b" r _ L d] by (cases f; cases b) (auto simp del: read_value.simps)
next
  case (5 L d s)
  then show ?case using read_value_scalar [of "JStr s" r _ L d] by (cases f) (auto simp del: read_value.simps simp: json_string_def)
qed simp_all

lemma loads_dumps: "layout_ok L \<Longrightarrow> wf_json j \<Longrightarrow> loads (dumps_at L d j) = Some j"
proof -
  assume a: "layout_ok L" "wf_json j"
  from read_dumps(1) [OF a, of "[]" d "Suc (2 * length (dumps_at L d j))"]
    skip_value_start [OF dumps_start [OF a(2), of L d]]
  show ?thesis by (simp add: loads_def skip_ws_def del: read_value.simps)
qed

end
