(* ===== verification/Json_Stream.thy ===== *)
theory Json_Stream
  imports Json_Text
begin

text \<open>
  \<open>twn_toolkit/json_stream.py\<close> (the chunked writer of archive members) and
  \<open>twn_toolkit/retained_json.py\<close> (the size-gated reader of retained run results).
  The writer yields a list of fragments, or the exception that stops it; circular references
  cannot occur in a value of type \<open>json\<close> and keys are strings.
\<close>

section \<open>The writer\<close>

definition json_string_chunk :: nat where
  "json_string_chunk = 16 * 1024"

definition json_max_depth :: nat where
  "json_max_depth = 64"

fun chunk_list :: "nat \<Rightarrow> 'a list \<Rightarrow> 'a list list" where
  "chunk_list n xs = (if n = 0 \<or> xs = [] then [] else take n xs # chunk_list n (drop n xs))"

declare chunk_list.simps [simp del]

definition string_parts :: "string \<Rightarrow> string list" where
  "string_parts s = [[CHR 0x22]] @ map escaped (chunk_list json_string_chunk s) @ [[CHR 0x22]]"

definition new_line :: "nat \<Rightarrow> string" where
  "new_line d = CHR 0x0A # replicate (2 * d) (CHR '' '')"

definition too_deep :: py_error where
  "too_deep = ValueError ''JSON metadata nesting exceeds 64 levels.''"

fun encode :: "json \<Rightarrow> nat \<Rightarrow> string list result"
  and encode_items :: "bool \<Rightarrow> json list \<Rightarrow> nat \<Rightarrow> string list result"
  and encode_members :: "bool \<Rightarrow> (string \<times> json) list \<Rightarrow> nat \<Rightarrow> string list result"
where
  "encode (JStr s) d = Inr (string_parts s)"
| "encode (JList js) d = (if json_max_depth < d then Inl too_deep
     else bindE (encode_items True js d) (\<lambda>ps.
       Inr ([''[''] @ ps @ (if js = [] then [] else [new_line d]) @ ['']''])))"
| "encode (JObj kvs) d = (if json_max_depth < d then Inl too_deep
     else bindE (encode_members True kvs d) (\<lambda>ps.
       Inr ([''{''] @ ps @ (if kvs = [] then [] else [new_line d]) @ [''}''])))"
| "encode JNull d = Inr [dumps JNull]"
| "encode (JBool b) d = Inr [dumps (JBool b)]"
| "encode (JInt i) d = Inr [dumps (JInt i)]"
| "encode (JFloat t) d = Inr [dumps (JFloat t)]"
| "encode_items first [] d = Inr []"
| "encode_items first (j # js) d =
     bindE (encode j (d + 1)) (\<lambda>ps. bindE (encode_items False js d) (\<lambda>qs.
       Inr ([(if first then [] else '','') @ new_line (d + 1)] @ ps @ qs)))"
| "encode_members first [] d = Inr []"
| "encode_members first (kv # kvs) d =
     bindE (encode (snd kv) (d + 1)) (\<lambda>ps. bindE (encode_members False kvs d) (\<lambda>qs.
       Inr ([(if first then [] else '','') @ new_line (d + 1)] @ string_parts (fst kv) @ ['': ''] @ ps @ qs)))"

definition iter_pretty_json :: "json \<Rightarrow> string list result" where
  "iter_pretty_json j = encode j 0"

section \<open>The reader\<close>


record scan =
  scan_depth :: int
  scan_nodes :: nat
  scan_quoted :: bool
  scan_escaped :: bool

definition scan_start :: scan where
  "scan_start = \<lparr>scan_depth = 0, scan_nodes = 0, scan_quoted = False, scan_escaped = False\<rparr>"

definition retained_too_deep :: py_error where
  "retained_too_deep = ValueError ''Retained JSON nesting exceeds 64 levels. Download the retained results JSON directly.''"

definition retained_too_complex :: py_error where
  "retained_too_complex = ValueError ''Retained JSON is too complex for an archive read. Download the retained results JSON directly.''"

text \<open>The body of the loop up to the count check; only an opening bracket can raise here.\<close>

definition scan_char :: "scan \<Rightarrow> char \<Rightarrow> scan result" where
  "scan_char s c =
     (if scan_quoted s then
        Inr (if scan_escaped s then s\<lparr>scan_escaped := False\<rparr>
             else if c = CHR 0x5C then s\<lparr>scan_escaped := True\<rparr>
             else if c = CHR 0x22 then s\<lparr>scan_quoted := False\<rparr> else s)
      else if c = CHR 0x22 then Inr (s\<lparr>scan_quoted := True, scan_nodes := scan_nodes s + 1\<rparr>)
      else if c = CHR ''['' \<or> c = CHR ''{'' then
        (let s' = s\<lparr>scan_depth := scan_depth s + 1, scan_nodes := scan_nodes s + 1\<rparr> in
         if 64 < scan_depth s' then Inl retained_too_deep else Inr s')
      else if c = CHR '']'' \<or> c = CHR ''}'' then Inr (s\<lparr>scan_depth := scan_depth s - 1\<rparr>)
      else if c = CHR '','' then Inr (s\<lparr>scan_nodes := scan_nodes s + 1\<rparr>)
      else Inr s)"

fun scan_text :: "scan \<Rightarrow> string \<Rightarrow> scan result" where
  "scan_text s [] = Inr s"
| "scan_text s (c # cs) = bindE (scan_char s c) (\<lambda>s'.
     if 500000 < scan_nodes s' then Inl retained_too_complex else scan_text s' cs)"


section \<open>Measures of a value\<close>

text \<open>Levels of containers, and the nodes the reader counts: strings, containers and commas.\<close>

fun nesting :: "json \<Rightarrow> nat" where
  "nesting (JList js) = Suc (foldr (\<lambda>j n. max (nesting j) n) js 0)"
| "nesting (JObj kvs) = Suc (foldr (\<lambda>kv n. max (nesting (snd kv)) n) kvs 0)"
| "nesting j = 0"


section \<open>The writer agrees with the standard encoder\<close>

lemma concat_chunk_list: "0 < n \<Longrightarrow> concat (map escaped (chunk_list n xs)) = escaped xs"
proof (induction n xs rule: chunk_list.induct)
  case (1 n xs)
  have "escaped xs = escaped (take n xs) @ escaped (drop n xs)"
    by (simp add: escaped_def flip: concat_append map_append)
  with 1 show ?case by (simp add: chunk_list.simps [of n xs]) (simp add: escaped_def)
qed

lemma concat_string_parts [simp]: "concat (string_parts s) = json_string s"
  by (simp add: string_parts_def concat_chunk_list json_string_chunk_def json_string_def)

abbreviation items_nesting :: "json list \<Rightarrow> nat" where
  "items_nesting js \<equiv> foldr (\<lambda>j n. max (nesting j) n) js 0"

abbreviation members_nesting :: "(string \<times> json) list \<Rightarrow> nat" where
  "members_nesting kvs \<equiv> foldr (\<lambda>kv n. max (nesting (snd kv)) n) kvs 0"

definition fits :: "nat \<Rightarrow> nat \<Rightarrow> bool" where
  "fits m d \<longleftrightarrow> m = 0 \<or> d + m \<le> 65"

definition wrote :: "bool \<Rightarrow> string \<Rightarrow> string list result \<Rightarrow> bool" where
  "wrote ok t r \<longleftrightarrow> (if ok then (\<exists>ps. r = Inr ps \<and> concat ps = t) else r = Inl too_deep)"

lemma pretty_simps [simp]:
  "before_item pretty_layout d = new_line d" "item_sep pretty_layout = '',''" "key_sep pretty_layout = '': ''"
  by (simp_all add: pretty_layout_def new_line_def)

lemma dumps_scalar: 
  "dumps JNull = dumps_at pretty_layout d JNull" "dumps (JBool b) = dumps_at pretty_layout d (JBool b)"
  "dumps (JInt i) = dumps_at pretty_layout d (JInt i)" "dumps (JFloat t) = dumps_at pretty_layout d (JFloat t)"
  by (simp_all add: dumps_def)

lemma encode_wrote:
  "wrote (fits (nesting j) d) (dumps_at pretty_layout d j) (encode j d)"
  "wrote (fits (items_nesting js) (d + 1))
     (if js = [] then [] else (if first then [] else '','') @ new_line (d + 1) @ dumps_items pretty_layout (d + 1) js)
     (encode_items first js d)"
  "wrote (fits (members_nesting kvs) (d + 1))
     (if kvs = [] then [] else (if first then [] else '','') @ new_line (d + 1) @ dumps_members pretty_layout (d + 1) kvs)
     (encode_members first kvs d)"
proof (induction j d and first js d and first kvs d rule: encode_encode_items_encode_members.induct)
  case (2 js d)
  then show ?case
    by (cases "64 < d") (auto simp: wrote_def fits_def json_max_depth_def split: if_splits)
next
  case (3 kvs d)
  then show ?case
    by (cases "64 < d") (auto simp: wrote_def fits_def json_max_depth_def split: if_splits)
next
  case (9 first j js d)
  then show ?case
    by (cases "fits (nesting j) (d + 1)"; cases "fits (items_nesting js) (d + 1)")
      (auto simp: wrote_def, auto simp: fits_def)
next
  case (11 first kv kvs d)
  then show ?case
    by (cases "fits (nesting (snd kv)) (d + 1)"; cases "fits (members_nesting kvs) (d + 1)")
      (auto simp: wrote_def, auto simp: fits_def)
qed (simp_all add: wrote_def fits_def dumps_def)


section \<open>The reader accepts what the writer produces\<close>

definition scan_at :: "int \<Rightarrow> nat \<Rightarrow> scan" where
  "scan_at k n = \<lparr>scan_depth = k, scan_nodes = n, scan_quoted = False, scan_escaped = False\<rparr>"

lemma scan_append: "scan_text s (a @ b) = bindE (scan_text s a) (\<lambda>s'. scan_text s' b)"
proof (induction a arbitrary: s)
  case (Cons c a)
  then show ?case by (cases "scan_char s c") auto
qed simp

definition neutral :: "char \<Rightarrow> bool" where
  "neutral c \<longleftrightarrow> c \<notin> set [CHR 0x22, CHR ''['', CHR ''{'', CHR '']'', CHR ''}'', CHR '','']"

lemma scan_neutral: "list_all neutral a \<Longrightarrow> n \<le> 500000 \<Longrightarrow> scan_text (scan_at k n) a = Inr (scan_at k n)"
  by (induction a) (simp_all add: scan_char_def scan_at_def neutral_def)

lemma number_char_neutral: "number_char c \<Longrightarrow> neutral c"
  by (auto simp: number_char_def py_digit_def neutral_def)

lemma ws_neutral: "json_ws c \<Longrightarrow> neutral c"
  by (auto simp: json_ws_def neutral_def)

lemma list_all_neutral:
  "list_all number_char s \<Longrightarrow> list_all neutral s" "list_all json_ws s \<Longrightarrow> list_all neutral s"
  by (auto simp: list_all_iff number_char_neutral ws_neutral)

definition in_quotes :: "int \<Rightarrow> nat \<Rightarrow> scan" where
  "in_quotes k n = \<lparr>scan_depth = k, scan_nodes = n, scan_quoted = True, scan_escaped = False\<rparr>"

lemma scan_quote_chars:
  "n \<le> 500000 \<Longrightarrow> scan_text (in_quotes k n) (CHR 0x5C # c # t) = scan_text (in_quotes k n) t"
  "n \<le> 500000 \<Longrightarrow> c \<noteq> CHR 0x22 \<Longrightarrow> c \<noteq> CHR 0x5C \<Longrightarrow> scan_text (in_quotes k n) (c # t) = scan_text (in_quotes k n) t"
  by (simp_all add: in_quotes_def scan_char_def)

lemma hex_digit_plain: "n < 16 \<Longrightarrow> hex_digit n \<noteq> CHR 0x22 \<and> hex_digit n \<noteq> CHR 0x5C"
  by (auto simp: hex_digit_def simp flip: of_char_eq_iff [where 'a = nat])

lemma scan_escape: "n \<le> 500000 \<Longrightarrow> scan_text (in_quotes k n) (json_escape c @ t) = scan_text (in_quotes k n) t"
proof -
  let ?m = "of_char c :: nat"
  assume n: "n \<le> 500000"
  have "?m < 256" by (rule nat_of_char_less_256)
  then have hex: "hex_digit (?m div 16) \<noteq> CHR 0x22 \<and> hex_digit (?m div 16) \<noteq> CHR 0x5C"
    "hex_digit (?m mod 16) \<noteq> CHR 0x22 \<and> hex_digit (?m mod 16) \<noteq> CHR 0x5C"
    by (auto intro!: hex_digit_plain simp: less_mult_imp_div_less)
  have plain: "c \<noteq> CHR 0x22" "c \<noteq> CHR 0x5C" if "?m \<noteq> 34" "?m \<noteq> 92" using that by auto
  show ?thesis
    using n hex plain by (simp add: json_escape_def Let_def scan_quote_chars del: scan_text.simps)
qed

lemma scan_escaped: "n \<le> 500000 \<Longrightarrow> scan_text (in_quotes k n) (escaped s) = Inr (in_quotes k n)"
proof (induction s)
  case (Cons c s)
  then show ?case using scan_escape [of n k c "escaped s"] by (simp add: escaped_def)
qed (simp add: escaped_def)


lemma scan_brackets:
  "n + 1 \<le> 500000 \<Longrightarrow> k + 1 \<le> 64 \<Longrightarrow> scan_text (scan_at k n) ''['' = Inr (scan_at (k + 1) (n + 1))"
  "n + 1 \<le> 500000 \<Longrightarrow> k + 1 \<le> 64 \<Longrightarrow> scan_text (scan_at k n) ''{'' = Inr (scan_at (k + 1) (n + 1))"
  "n \<le> 500000 \<Longrightarrow> scan_text (scan_at k n) '']'' = Inr (scan_at (k - 1) n)"
  "n \<le> 500000 \<Longrightarrow> scan_text (scan_at k n) ''}'' = Inr (scan_at (k - 1) n)"
  "n + 1 \<le> 500000 \<Longrightarrow> scan_text (scan_at k n) '','' = Inr (scan_at k (n + 1))"
  by (simp_all add: scan_at_def scan_char_def)

lemma scan_ws: "layout_ok L \<Longrightarrow> n \<le> 500000 \<Longrightarrow> scan_text (scan_at k n) (before_item L d) = Inr (scan_at k n)"
  by (intro scan_neutral) (simp_all add: before_ws list_all_neutral)




fun nest :: "nat \<Rightarrow> json" where
  "nest 0 = JList []"
| "nest (Suc n) = JList [nest n]"

lemma scan_nest:
  "k \<le> 64 \<Longrightarrow> 64 \<le> k + int m \<Longrightarrow> n + m < 500000 \<Longrightarrow>
     scan_text (scan_at k n) (dumps_at pretty_layout d (nest m) @ t) = Inl retained_too_deep"
proof (induction m arbitrary: k n d t)
  case 0
  then show ?case by (simp add: scan_at_def scan_char_def)
next
  case (Suc m)
  show ?case
  proof (cases "k = 64")
    case True
    then show ?thesis by (simp add: scan_at_def scan_char_def)
  next
    case False
    with Suc.prems have "scan_text (scan_at k n) (''['' @ u) = scan_text (scan_at (k + 1) (n + 1)) u" for u
      by (simp add: scan_append scan_brackets del: scan_text.simps append.simps)
    with False Suc show ?thesis
      by (simp add: scan_append [of _ "new_line _"] scan_ws [of pretty_layout, simplified] del: scan_text.simps)
  qed
qed

lemma nesting_nest [simp]: "nesting (nest n) = Suc n"
  by (induction n) simp_all

text \<open>
  Both messages speak of 64 levels; the writer accepts 65, the reader does not.
\<close>

lemma nesting_limits_differ:
  "\<exists>parts. iter_pretty_json (nest 64) = Inr parts \<and> scan_text scan_start (concat parts) = Inl retained_too_deep"
proof -
  obtain parts where "iter_pretty_json (nest 64) = Inr parts" "concat parts = dumps_at pretty_layout 0 (nest 64)"
    using encode_wrote(1) [of "nest 64" 0] by (auto simp: wrote_def fits_def iter_pretty_json_def)
  moreover have "scan_text (scan_at 0 0) (dumps_at pretty_layout 0 (nest 64)) = Inl retained_too_deep"
    using scan_nest [of 0 64 0 0 "[]"] by simp
  ultimately show ?thesis by (simp add: scan_at_def scan_start_def)
qed

section \<open>Witnesses\<close>









end
