(* ===== verification/Diagnostic_Store.thy ===== *)
theory Diagnostic_Store
  imports Json_Text
begin

text \<open>
  The durable queue of finite diagnostics, \<open>twn_toolkit/diagnostic_jobs.py\<close>, with the
  scrubbing and interruption rules it takes from \<open>bulk_ssh_jobs.py\<close>,
  \<open>certificate_jobs.py\<close> and \<open>export_jobs.py\<close>.  The four tables are one record; an
  operation returns its result (or the exception) and the new state.  Deleting a job deletes its
  rows: \<open>sqlite_store_connection\<close> turns foreign keys on.
\<close>

section \<open>Tables\<close>

datatype diag_state =
  DQueued | DRunning | DCancelRequested | DSucceeded | DFailed | DCancelled | DUnknown

record diag_job =
  dj_id :: string
  dj_user :: string
  dj_tool :: string
  dj_state :: diag_state
  dj_token :: string
  dj_config :: string
  dj_summary :: string
  dj_error :: string
  dj_created :: real
  dj_started :: "real option"
  dj_completed :: "real option"
  dj_timeout :: int

record diag_row =
  dr_job :: string
  dr_position :: nat
  dr_open :: nat
  dr_payload :: string

record receipt =
  rc_key :: string
  rc_user :: string
  rc_job :: string
  rc_expires :: real

record diag_store =
  diag_jobs :: "diag_job list"
  diag_rows :: "diag_row list"
  diag_receipts :: "receipt list"
  diag_targets :: "(string \<times> string) list"

definition empty_diag_store :: diag_store where
  "empty_diag_store = \<lparr>diag_jobs = [], diag_rows = [], diag_receipts = [], diag_targets = []\<rparr>"

text \<open>The operator settings the queue reads; \<open>upload_limit\<close> is the datastore's.\<close>

record diag_policy =
  history_limit :: nat
  queue_limit :: nat
  user_limit :: nat
  timeout_seconds :: int
  retention_hours :: nat
  artifact_max_mib :: int
  export_max_mib :: int
  export_input_mib :: int
  export_pdf_cells :: int
  minimum_free_gib :: int
  upload_limit :: int
  transfer_policy :: "(string \<times> json) list"

definition diag_active :: "diag_state \<Rightarrow> bool" where
  "diag_active st \<longleftrightarrow> st = DQueued \<or> st = DRunning \<or> st = DCancelRequested"

definition diag_terminal :: "diag_state \<Rightarrow> bool" where
  "diag_terminal st \<longleftrightarrow> st = DSucceeded \<or> st = DFailed \<or> st = DCancelled \<or> st = DUnknown"

definition diag_interruptible :: "diag_state \<Rightarrow> bool" where
  "diag_interruptible st \<longleftrightarrow> st = DRunning \<or> st = DCancelRequested"

section \<open>Retention\<close>

definition delete_jobs :: "(diag_job \<Rightarrow> bool) \<Rightarrow> diag_store \<Rightarrow> diag_store" where
  "delete_jobs p s = s\<lparr>diag_jobs := delete_rows p (diag_jobs s),
     diag_rows := delete_rows (\<lambda>r. \<exists>j\<in>set (diag_jobs s). p j \<and> dj_id j = dr_job r) (diag_rows s)\<rparr>"

text \<open>\<open>token='' AND NOT (tool='certificate_enroll' AND state='unknown')\<close>.\<close>

definition prunable :: "diag_job \<Rightarrow> bool" where
  "prunable j \<longleftrightarrow> dj_token j = [] \<and> \<not> (dj_tool j = ''certificate_enroll'' \<and> dj_state j = DUnknown)"

definition completed_before :: "diag_job \<Rightarrow> real \<Rightarrow> bool" where
  "completed_before j t \<longleftrightarrow> (case dj_completed j of None \<Rightarrow> False | Some c \<Rightarrow> c < t)"

definition drop_receipts :: "real \<Rightarrow> diag_store \<Rightarrow> diag_store" where
  "drop_receipts now s = s\<lparr>diag_receipts := delete_rows (\<lambda>r. rc_expires r < now) (diag_receipts s)\<rparr>"

definition oldest_prunable :: "nat \<Rightarrow> diag_job list \<Rightarrow> string list" where
  "oldest_prunable n js = map dj_id (take n (sort_key (\<lambda>j. the (dj_completed j))
     (filter (\<lambda>j. dj_completed j \<noteq> None \<and> prunable j) js)))"

definition prune :: "clock \<Rightarrow> diag_policy \<Rightarrow> bool \<Rightarrow> diag_store \<Rightarrow> diag_store" where
  "prune clk P reserve s =
     (let s1 = drop_receipts (clk 0) s;
          s2 = delete_jobs (\<lambda>j. completed_before j (clk 1 - real (retention_hours P) * 3600) \<and> prunable j) s1;
          count = length (diag_jobs s2);
          remove = count + (if reserve then 1 else 0) - history_limit P;
          ids = oldest_prunable remove (diag_jobs s2)
      in if remove = 0 then s2 else delete_jobs (\<lambda>j. dj_id j \<in> set ids) s2)"

section \<open>Saved configurations\<close>

definition config_context :: "string \<Rightarrow> string" where
  "config_context jid = jid @ '':diagnostic-config''"

definition summary_context :: "string \<Rightarrow> string" where
  "summary_context jid = jid @ '':diagnostic-summary''"

definition row_context :: "string \<Rightarrow> nat \<Rightarrow> string" where
  "row_context jid i = jid @ '':diagnostic-row:'' @ show_nat i"

definition json_loads :: "string \<Rightarrow> json result" where
  "json_loads s = (case loads s of None \<Rightarrow> Inl (ValueError ''JSONDecodeError'') | Some j \<Rightarrow> Inr j)"

text \<open>A configuration and a summary are JSON objects; subscripting anything else is a type error.\<close>

definition as_object :: "json \<Rightarrow> (string \<times> json) list result" where
  "as_object j = (case j of JObj kvs \<Rightarrow> Inr kvs | _ \<Rightarrow> Inl TypeError)"

definition open_object :: "cipher \<Rightarrow> string \<Rightarrow> string \<Rightarrow> (string \<times> json) list result" where
  "open_object C text ctx = bindE (open_payload C text ctx) (\<lambda>t. bindE (json_loads t) as_object)"

definition field :: "(string \<times> json) list \<Rightarrow> string \<Rightarrow> json result" where
  "field kvs k = (case map_of kvs k of None \<Rightarrow> Inl (KeyError k) | Some v \<Rightarrow> Inr v)"

definition int_field :: "(string \<times> json) list \<Rightarrow> string \<Rightarrow> int result" where
  "int_field kvs k = bindE (field kvs k) (\<lambda>v. case v of JInt i \<Rightarrow> Inr i | _ \<Rightarrow> Inl TypeError)"

definition truthy :: "json \<Rightarrow> bool" where
  "truthy j = (case j of JNull \<Rightarrow> False | JBool b \<Rightarrow> b | JInt i \<Rightarrow> i \<noteq> 0 | JFloat t \<Rightarrow> t \<noteq> ''0.0'' \<and> t \<noteq> ''-0.0''
     | JStr s \<Rightarrow> s \<noteq> [] | JList js \<Rightarrow> js \<noteq> [] | JObj kvs \<Rightarrow> kvs \<noteq> [])"

definition flag :: "(string \<times> json) list \<Rightarrow> string \<Rightarrow> bool" where
  "flag kvs k = (case map_of kvs k of None \<Rightarrow> False | Some v \<Rightarrow> truthy v)"

text \<open>
  \<open>scrub_certificate_inputs\<close> and the two \<open>scrub_inputs\<close>: a settled run keeps its
  configuration without the secrets.  An empty id stands for every run.
\<close>

definition scrub_row :: "cipher \<Rightarrow> string list \<Rightarrow> diag_job \<Rightarrow> diag_job result" where
  "scrub_row C keys j = bindE (open_object C (dj_config j) (config_context (dj_id j))) (\<lambda>kvs.
     Inr (if \<exists>k\<in>set keys. k \<in> fst ` set kvs
       then j\<lparr>dj_config := seal C (dumps (JObj (filter (\<lambda>kv. fst kv \<notin> set keys) kvs))) (config_context (dj_id j))\<rparr>
       else j))"

fun map_result :: "('a \<Rightarrow> 'b result) \<Rightarrow> 'a list \<Rightarrow> 'b list result" where
  "map_result f [] = Inr []"
| "map_result f (x # xs) = bindE (f x) (\<lambda>y. bindE (map_result f xs) (\<lambda>ys. Inr (y # ys)))"

definition scrub :: "cipher \<Rightarrow> string list \<Rightarrow> string list \<Rightarrow> string \<Rightarrow> diag_store \<Rightarrow> diag_store result" where
  "scrub C tools keys jid s =
     bindE (map_result (\<lambda>j. if dj_tool j \<in> set tools \<and> dj_completed j \<noteq> None \<and> dj_token j = [] \<and> (jid = [] \<or> dj_id j = jid)
         then scrub_row C keys j else Inr j) (diag_jobs s))
       (\<lambda>js. Inr (s\<lparr>diag_jobs := js\<rparr>))"

definition scrub_certificate_inputs :: "cipher \<Rightarrow> string \<Rightarrow> diag_store \<Rightarrow> diag_store result" where
  "scrub_certificate_inputs C = scrub C [''certificate_test'', ''certificate_enroll'', ''certificate_collect'']
     [''password'', ''key_password'', ''key_pem'', ''login'', ''credential_revision'']"

definition scrub_ssh_inputs :: "cipher \<Rightarrow> string \<Rightarrow> diag_store \<Rightarrow> diag_store result" where
  "scrub_ssh_inputs C = scrub C [''bulk_ssh''] [''password'', ''login'']"

definition scrub_export_inputs :: "cipher \<Rightarrow> string \<Rightarrow> diag_store \<Rightarrow> diag_store result" where
  "scrub_export_inputs C = scrub C [''configuration_export''] [''password'']"

definition scrub_all :: "cipher \<Rightarrow> string \<Rightarrow> diag_store \<Rightarrow> diag_store result" where
  "scrub_all C jid s = bindE (scrub_certificate_inputs C jid s) (\<lambda>s1.
     bindE (scrub_ssh_inputs C jid s1) (\<lambda>s2. scrub_export_inputs C jid s2))"

section \<open>How an interrupted run ends\<close>

definition failed_for_unknown :: "diag_state \<Rightarrow> diag_state" where
  "failed_for_unknown st = (if st = DUnknown then DFailed else st)"

definition ssh_interruption_state :: "diag_store \<Rightarrow> string \<Rightarrow> diag_state \<Rightarrow> diag_state" where
  "ssh_interruption_state s jid st =
     (if \<exists>r\<in>set (diag_rows s). dr_job r = jid \<and> 0 < dr_open r then DUnknown else failed_for_unknown st)"

definition certificate_interruption_state :: "cipher \<Rightarrow> diag_job \<Rightarrow> diag_state \<Rightarrow> diag_state result" where
  "certificate_interruption_state C j st =
     (case bindE (open_payload C (dj_summary j) (summary_context (dj_id j))) json_loads of
        Inl e \<Rightarrow> Inr DUnknown
      | Inr v \<Rightarrow> bindE (as_object v) (\<lambda>summary.
          Inr (if flag summary ''attempted'' \<and> \<not> flag summary ''settled'' then DUnknown
               else failed_for_unknown st)))"

definition export_interruption_outcome :: "cipher \<Rightarrow> diag_job \<Rightarrow> diag_state \<Rightarrow> string \<Rightarrow> (diag_state \<times> string) result" where
  "export_interruption_outcome C j st err =
     (if dj_tool j \<noteq> ''automation_export'' then Inr (st, err)
      else (case bindE (open_payload C (dj_summary j) (summary_context (dj_id j))) json_loads of
        Inl e \<Rightarrow> Inr (DUnknown, ''Export completion could not be reconciled. Inspect the original case before retrying an attachment.'')
      | Inr v \<Rightarrow> bindE (as_object v) (\<lambda>summary. Inr (if flag summary ''case_attachment_started''
          then (DUnknown, ''Case attachment may have completed before the export stopped. Inspect the original case before retrying.'')
          else (st, err)))))"

section \<open>Admission\<close>

definition diag_tools :: "string list" where
  "diag_tools = [''automation_export'', ''configuration_export'', ''bulk_ssh'', ''certificate_test'',
     ''certificate_enroll'', ''certificate_collect'', ''iperf_client'', ''tcp_scan'', ''dns'', ''transfer'',
     ''wireless_history'', ''fac_inventory_devices'', ''fac_inventory_memberships'', ''case_export'',
     ''appliance_read'', ''switch_order'', ''appliance_rename'', ''fac_cleanup'']"

definition inventory_tools :: "string list" where
  "inventory_tools = [''fac_inventory_devices'', ''fac_inventory_memberships'', ''appliance_read'']"

definition export_tools :: "string list" where
  "export_tools = [''case_export'', ''automation_export'', ''configuration_export'']"

definition max_backup_wire_bytes :: int where
  "max_backup_wire_bytes = 64 * 1024 * 1024"

definition preview_max_age :: real where
  "preview_max_age = 15 * 60"

definition mib :: int where
  "mib = 1024 * 1024"

text \<open>The policy values that admission freezes into the saved configuration.\<close>

definition with_limits :: "diag_policy \<Rightarrow> string \<Rightarrow> (string \<times> json) list \<Rightarrow> (string \<times> json) list" where
  "with_limits P tool config =
     (let c1 = (if tool \<in> set inventory_tools
            then assoc_put ''artifact_bytes'' (JInt (artifact_max_mib P * mib)) config else config);
          c2 = (if tool = ''case_export''
            then assoc_put ''pdf_cells'' (JInt (export_pdf_cells P))
              (assoc_put ''input_bytes'' (JInt (export_input_mib P * mib))
                (assoc_put ''artifact_bytes'' (JInt (export_max_mib P * mib)) c1)) else c1);
          c3 = (if tool = ''automation_export'' \<or> tool = ''configuration_export''
            then assoc_put ''artifact_bytes'' (JInt (if tool = ''automation_export'' then upload_limit P
              else max_backup_wire_bytes)) c2 else c2)
      in if tool = ''transfer'' then assoc_put ''transfer_policy'' (JObj (transfer_policy P)) c3 else c3)"

definition count_jobs :: "(diag_job \<Rightarrow> bool) \<Rightarrow> diag_store \<Rightarrow> nat" where
  "count_jobs p s = row_count p (diag_jobs s)"

definition run_bytes :: "(string \<times> json) list \<Rightarrow> int result" where
  "run_bytes kvs = bindE (bindE (field kvs ''transfer_policy'') as_object) (\<lambda>tp. int_field tp ''run_bytes'')"

definition sum_result :: "('a \<Rightarrow> int result) \<Rightarrow> 'a list \<Rightarrow> int result" where
  "sum_result f xs = bindE (map_result f xs) (\<lambda>is. Inr (sum_list is))"

definition saved_config :: "cipher \<Rightarrow> diag_job \<Rightarrow> (string \<times> json) list result" where
  "saved_config C j = open_object C (dj_config j) (config_context (dj_id j))"

definition export_need :: "(string \<times> json) list \<Rightarrow> int result" where
  "export_need kvs = bindE (field kvs ''mode'') (\<lambda>m.
     if m = JStr ''export'' then bindE (int_field kvs ''artifact_bytes'') (\<lambda>b. Inr (3 * b)) else Inr 0)"

text \<open>The disk space that the active runs and the new one may still write.\<close>

definition reserved_bytes :: "cipher \<Rightarrow> string \<Rightarrow> (string \<times> json) list \<Rightarrow> diag_store \<Rightarrow> int result" where
  "reserved_bytes C tool config s =
     (let busy = (\<lambda>j. diag_active (dj_state j) \<or> dj_token j \<noteq> []);
          base = (int (count_jobs (\<lambda>j. diag_active (dj_state j)) s) + 1) * 32 * mib;
          ssh = (int (count_jobs (\<lambda>j. dj_tool j = ''bulk_ssh'' \<and> busy j) s) + (if tool = ''bulk_ssh'' then 1 else 0)) * 128 * mib
      in
      bindE (if tool = ''transfer'' then bindE (run_bytes config) (\<lambda>b. Inr (2 * b)) else Inr 0) (\<lambda>t1.
      bindE (sum_result (\<lambda>j. bindE (bindE (saved_config C j) run_bytes) (\<lambda>b. Inr (2 * b)))
        (filter (\<lambda>j. dj_tool j = ''transfer'' \<and> diag_active (dj_state j)) (diag_jobs s))) (\<lambda>t2.
      bindE (if tool \<in> set inventory_tools then export_need config else Inr 0) (\<lambda>i1.
      bindE (sum_result (\<lambda>j. bindE (saved_config C j) export_need)
        (filter (\<lambda>j. dj_tool j \<in> set inventory_tools \<and> busy j) (diag_jobs s))) (\<lambda>i2.
      bindE (if tool \<in> set export_tools then bindE (int_field config ''artifact_bytes'') (\<lambda>b. Inr (2 * b)) else Inr 0) (\<lambda>e1.
      bindE (sum_result (\<lambda>j. bindE (saved_config C j) (\<lambda>kvs. bindE (int_field kvs ''artifact_bytes'') (\<lambda>b. Inr (2 * b))))
        (filter (\<lambda>j. dj_tool j \<in> set export_tools \<and> busy j) (diag_jobs s))) (\<lambda>e2.
      Inr (base + ssh + t1 + t2 + i1 + i2 + e1 + e2))))))))"

text \<open>
  \<open>json.dumps(config, separators=(',', ':'), allow_nan=False)\<close>.
\<close>

fun has_nan :: "json \<Rightarrow> bool" where
  "has_nan (JFloat t) = (t = ''NaN'' \<or> t = ''Infinity'' \<or> t = ''-Infinity'')"
| "has_nan (JList js) = list_ex has_nan js"
| "has_nan (JObj kvs) = list_ex (\<lambda>kv. has_nan (snd kv)) kvs"
| "has_nan j = False"

definition dumps_strict :: "layout \<Rightarrow> json \<Rightarrow> string result" where
  "dumps_strict L j = (if has_nan j then Inl (ValueError ''Out of range float values are not JSON compliant'')
     else Inr (dumps_at L 0 j))"

record diag_request =
  rq_user :: string
  rq_config :: "(string \<times> json) list"
  rq_tool :: string
  rq_key :: "string option"

definition new_diag_job :: "string \<Rightarrow> diag_request \<Rightarrow> string \<Rightarrow> real \<Rightarrow> diag_policy \<Rightarrow> diag_job" where
  "new_diag_job jid q sealed now P = \<lparr>dj_id = jid, dj_user = rq_user q, dj_tool = rq_tool q, dj_state = DQueued,
     dj_token = [], dj_config = sealed, dj_summary = ''{}'', dj_error = [], dj_created = now,
     dj_started = None, dj_completed = None, dj_timeout = timeout_seconds P\<rparr>"

text \<open>The capacity checks after pruning, in the order of the code.\<close>

definition admission_error :: "cipher \<Rightarrow> diag_policy \<Rightarrow> int \<Rightarrow> diag_request \<Rightarrow> (string \<times> json) list \<Rightarrow> diag_store \<Rightarrow> py_error option" where
  "admission_error C P free q config s =
     (if rq_key q \<noteq> None \<and> history_limit P \<le> length (diag_receipts s)
        then Some (ValueError ''Recent change admission capacity is busy. Wait for older previews to expire.'')
      else if history_limit P \<le> length (diag_jobs s)
        then Some (ValueError ''Diagnostic storage capacity is busy. Finish active runs or reconcile unresolved certificate submissions.'')
      else if queue_limit P \<le> count_jobs (\<lambda>j. dj_state j = DQueued) s
        then Some (ValueError ''The diagnostic queue is full. Try again after a run finishes.'')
      else if user_limit P \<le> count_jobs (\<lambda>j. dj_user j = rq_user q \<and> diag_active (dj_state j)) s
        then Some (ValueError ''Your active diagnostic limit is reached. Finish or cancel a run first.'')
      else (case reserved_bytes C (rq_tool q) config s of
          Inl e \<Rightarrow> Some e
        | Inr reserved \<Rightarrow> if free - reserved < minimum_free_gib P * 1024 * mib
            then Some (ValueError ''Diagnostic results would cross the configured free-disk reserve.'') else None))"

definition receipt_life :: "string \<Rightarrow> real" where
  "receipt_life tool = (if tool = ''bulk_ssh'' then 1800 else preview_max_age) + 1"

definition before_admission :: "clock \<Rightarrow> diag_policy \<Rightarrow> diag_store \<Rightarrow> diag_store" where
  "before_admission clk P s = prune (\<lambda>k. clk (k + 1)) P True (drop_receipts (clk 0) s)"

definition admit_tx :: "cipher \<Rightarrow> clock \<Rightarrow> diag_policy \<Rightarrow> int \<Rightarrow> string \<Rightarrow> diag_request \<Rightarrow> (string \<times> json) list \<Rightarrow> string \<Rightarrow>
    diag_store \<Rightarrow> (string \<times> diag_store) result" where
  "admit_tx C clk P free jid q config sealed s =
     (let s0 = drop_receipts (clk 0) s;
          known = (case rq_key q of None \<Rightarrow> None | Some k \<Rightarrow> select_first (\<lambda>r. rc_key r = k) (diag_receipts s0))
      in case known of
        Some r \<Rightarrow>
          if rc_user r = rq_user q \<and> (\<exists>j\<in>set (diag_jobs s0). dj_id j = rc_job r \<and> dj_tool j = rq_tool q)
          then Inr (rc_job r, s0)
          else Inl (ValueError ''This preview was already submitted. Reconcile its result and build a fresh preview.'')
      | None \<Rightarrow>
          (let s1 = before_admission clk P s in
           case admission_error C P free q config s1 of
             Some e \<Rightarrow> Inl e
           | None \<Rightarrow>
               if jid \<in> dj_id ` set (diag_jobs s1) then Inl IntegrityError
               else Inr (jid, s1\<lparr>diag_jobs := diag_jobs s1 @ [new_diag_job jid q sealed (clk 3) P],
                 diag_receipts := (case rq_key q of None \<Rightarrow> diag_receipts s1
                   | Some k \<Rightarrow> diag_receipts s1 @
                       [\<lparr>rc_key = k, rc_user = rq_user q, rc_job = jid, rc_expires = clk 4 + receipt_life (rq_tool q)\<rparr>])\<rparr>)))"

text \<open>A write transaction commits its state, or the exception rolls it back.\<close>

definition diag_tx :: "diag_store \<Rightarrow> ('a \<times> diag_store) result \<Rightarrow> 'a result \<times> diag_store" where
  "diag_tx s r = (case r of Inl e \<Rightarrow> (Inl e, s) | Inr (x, s') \<Rightarrow> (Inr x, s'))"

lemma diag_tx_simps [simp]: "diag_tx s (Inl e) = (Inl e, s)" "diag_tx s (Inr (x, s')) = (Inr x, s')"
  by (simp_all add: diag_tx_def)

text \<open>\<open>enqueue\<close>; an empty \<open>request_key\<close> is the same as none.\<close>

definition norm_request :: "diag_request \<Rightarrow> diag_request" where
  "norm_request q = (if rq_key q = Some [] then q\<lparr>rq_key := None\<rparr> else q)"

definition submit :: "cipher \<Rightarrow> clock \<Rightarrow> diag_policy \<Rightarrow> int \<Rightarrow> string \<Rightarrow> diag_request \<Rightarrow> diag_store \<Rightarrow> string result \<times> diag_store" where
  "submit C clk P free jid q0 s =
     (let q = norm_request q0;
          config = with_limits P (rq_tool q) (rq_config q) in
      if rq_tool q \<notin> set diag_tools \<or> rq_user q = [] then (Inl (ValueError ''Invalid diagnostic request.''), s)
      else (case dumps_strict compact_layout (JObj config) of
          Inl e \<Rightarrow> (Inl e, s)
        | Inr raw \<Rightarrow>
            if (if rq_tool q = ''bulk_ssh'' then 2 * 1024 * 1024 else 64 * 1024) < length raw
            then (Inl (ValueError ''Diagnostic configuration exceeds the storage envelope.''), s)
            else diag_tx s (admit_tx C clk P free jid q config (seal C raw (config_context jid)) s)))"

section \<open>Execution\<close>

text \<open>\<open>ORDER BY created LIMIT 1\<close> among the queued rows.\<close>

definition next_queued :: "diag_job list \<Rightarrow> diag_job option" where
  "next_queued js = (case sort_key dj_created (filter (\<lambda>j. dj_state j = DQueued) js) of [] \<Rightarrow> None | j # _ \<Rightarrow> Some j)"

text \<open>\<open>claim\<close>; \<open>token\<close> is \<open>secrets.token_hex(32)\<close>, the returned row reads the clock again.\<close>

definition claim_job :: "clock \<Rightarrow> string \<Rightarrow> diag_store \<Rightarrow> diag_job option \<times> diag_store" where
  "claim_job clk token s = (case next_queued (diag_jobs s) of None \<Rightarrow> (None, s)
     | Some j \<Rightarrow> (Some (j\<lparr>dj_token := token, dj_state := DRunning, dj_started := Some (clk 1)\<rparr>),
         s\<lparr>diag_jobs := update_rows (\<lambda>r. dj_id r = dj_id j)
            (\<lambda>r. r\<lparr>dj_state := DRunning, dj_token := token, dj_started := Some (clk 0)\<rparr>) (diag_jobs s)\<rparr>))"

definition owned_job :: "string \<Rightarrow> string \<Rightarrow> diag_store \<Rightarrow> diag_job option" where
  "owned_job jid token s = select_first (\<lambda>j. dj_id j = jid \<and> dj_token j = token) (diag_jobs s)"

record diag_view =
  dv_job :: diag_job
  dv_config :: json
  dv_summary :: json

definition get_diag :: "cipher \<Rightarrow> string \<Rightarrow> string \<Rightarrow> diag_store \<Rightarrow> diag_view option result" where
  "get_diag C jid user s = (case select_first (\<lambda>j. dj_id j = jid \<and> dj_user j = user) (diag_jobs s) of
     None \<Rightarrow> Inr None
   | Some j \<Rightarrow> bindE (bindE (open_payload C (dj_config j) (config_context jid)) json_loads) (\<lambda>config.
       bindE (bindE (open_payload C (dj_summary j) (summary_context jid)) json_loads) (\<lambda>summary.
         Inr (Some \<lparr>dv_job = j\<lparr>dj_token := []\<rparr>, dv_config = config, dv_summary = summary\<rparr>))))"

text \<open>\<open>ORDER BY created DESC LIMIT 10\<close>.\<close>

definition recent :: "string \<Rightarrow> string \<Rightarrow> diag_store \<Rightarrow> (string \<times> diag_state \<times> real) list" where
  "recent user tool s = map (\<lambda>j. (dj_id j, dj_state j, dj_created j))
     (take 10 (sort_key (\<lambda>j. - dj_created j) (filter (\<lambda>j. dj_user j = user \<and> dj_tool j = tool) (diag_jobs s))))"

definition cancel_row :: "real \<Rightarrow> diag_job \<Rightarrow> diag_job" where
  "cancel_row now j = j\<lparr>dj_state := (if dj_state j = DQueued then DCancelled else DCancelRequested),
     dj_completed := (if dj_state j = DQueued then Some now else None)\<rparr>"

definition cancel_job :: "cipher \<Rightarrow> clock \<Rightarrow> string \<Rightarrow> string \<Rightarrow> diag_store \<Rightarrow> diag_job option result \<times> diag_store" where
  "cancel_job C clk jid user s =
     (let previous = select_first (\<lambda>j. dj_id j = jid \<and> dj_user j = user \<and> dj_state j = DQueued) (diag_jobs s);
          s1 = s\<lparr>diag_jobs := update_rows (\<lambda>j. dj_id j = jid \<and> dj_user j = user \<and> (dj_state j = DQueued \<or> dj_state j = DRunning))
             (cancel_row (clk 0)) (diag_jobs s)\<rparr>
      in diag_tx s (bindE (scrub_export_inputs C jid s1) (\<lambda>s2. Inr (previous, s2))))"

definition abort_outcome :: "cipher \<Rightarrow> diag_store \<Rightarrow> diag_job option \<Rightarrow> diag_state \<Rightarrow> string \<Rightarrow> (diag_state \<times> string) result" where
  "abort_outcome C s previous st err = (case previous of None \<Rightarrow> Inr (st, err)
     | Some j \<Rightarrow>
         if dj_tool j = ''automation_export'' then export_interruption_outcome C j st err
         else if dj_tool j = ''bulk_ssh'' then Inr (ssh_interruption_state s (dj_id j) st, err)
         else if dj_tool j = ''certificate_enroll''
           then bindE (certificate_interruption_state C j st) (\<lambda>st'. Inr (st', err))
         else Inr (st, err))"

definition abort :: "cipher \<Rightarrow> clock \<Rightarrow> string \<Rightarrow> string \<Rightarrow> diag_state \<Rightarrow> string \<Rightarrow> diag_store \<Rightarrow> diag_job option result \<times> diag_store" where
  "abort C clk jid token st err s =
     (if \<not> diag_terminal st then (Inl (ValueError ''Invalid diagnostic outcome.''), s)
      else let held = (\<lambda>j. dj_id j = jid \<and> dj_token j = token \<and> diag_interruptible (dj_state j));
               previous = select_first held (diag_jobs s)
           in diag_tx s (bindE (abort_outcome C s previous st err) (\<lambda>(st', err').
             Inr (previous, s\<lparr>diag_jobs := update_rows held
               (\<lambda>j. j\<lparr>dj_state := st', dj_error := take 500 err', dj_completed := Some (clk 0)\<rparr>) (diag_jobs s)\<rparr>))))"

definition release :: "cipher \<Rightarrow> string \<Rightarrow> string \<Rightarrow> diag_store \<Rightarrow> unit result \<times> diag_store" where
  "release C jid token s =
     (let s1 = s\<lparr>diag_jobs := update_rows (\<lambda>j. dj_id j = jid \<and> dj_token j = token \<and> dj_completed j \<noteq> None)
         (\<lambda>j. j\<lparr>dj_token := []\<rparr>) (diag_jobs s)\<rparr>
      in diag_tx s (bindE (scrub_all C jid s1) (\<lambda>s2. Inr ((), s2))))"

definition recovery_error :: string where
  "recovery_error = ''Scheduler restarted before confirming completion. This run was not replayed.''"

text \<open>\<open>recover\<close>: every interrupted run is settled from the row as it was, never replayed.\<close>

definition recover_row :: "real \<Rightarrow> diag_job \<Rightarrow> diag_job" where
  "recover_row now j = j\<lparr>dj_state := DUnknown, dj_error := recovery_error, dj_completed := Some now, dj_token := []\<rparr>"

definition recovered_state :: "cipher \<Rightarrow> diag_store \<Rightarrow> diag_job \<Rightarrow> diag_state result" where
  "recovered_state C s j =
     (if dj_tool j = ''bulk_ssh'' then Inr (ssh_interruption_state s (dj_id j) DUnknown)
      else if dj_tool j = ''certificate_enroll'' then certificate_interruption_state C j DUnknown
      else Inr DUnknown)"

definition set_state :: "string \<Rightarrow> diag_state \<Rightarrow> diag_job list \<Rightarrow> diag_job list" where
  "set_state jid st = update_rows (\<lambda>j. dj_id j = jid) (\<lambda>j. j\<lparr>dj_state := st\<rparr>)"

fun settle_rows :: "cipher \<Rightarrow> diag_store \<Rightarrow> diag_job list \<Rightarrow> diag_job list \<Rightarrow> diag_job list result" where
  "settle_rows C s [] js = Inr js"
| "settle_rows C s (p # ps) js = bindE (recovered_state C s p) (\<lambda>st. settle_rows C s ps
     (if dj_tool p = ''bulk_ssh'' \<or> dj_tool p = ''certificate_enroll'' then set_state (dj_id p) st js else js))"

definition recover :: "cipher \<Rightarrow> clock \<Rightarrow> diag_store \<Rightarrow> diag_job list result \<times> diag_store" where
  "recover C clk s =
     (let previous = filter (\<lambda>j. diag_interruptible (dj_state j)) (diag_jobs s);
          js1 = update_rows (\<lambda>j. diag_interruptible (dj_state j)) (recover_row (clk 0)) (diag_jobs s)
      in diag_tx s (bindE (settle_rows C s previous js1) (\<lambda>js2.
           let js3 = update_rows (\<lambda>j. dj_completed j \<noteq> None) (\<lambda>j. j\<lparr>dj_token := []\<rparr>) js2 in
           bindE (scrub_all C [] (s\<lparr>diag_jobs := js3\<rparr>)) (\<lambda>s'. Inr (previous, s')))))"

definition max_result_rows :: nat where
  "max_result_rows = 5000"

definition max_result_bytes :: nat where
  "max_result_bytes = 8 * 1024 * 1024"

definition result_page_size :: nat where
  "result_page_size = 100"

definition progress :: "cipher \<Rightarrow> string \<Rightarrow> string \<Rightarrow> json \<Rightarrow> diag_store \<Rightarrow> bool result \<times> diag_store" where
  "progress C jid token summary s = (case dumps_strict default_layout summary of Inl e \<Rightarrow> (Inl e, s)
     | Inr raw \<Rightarrow>
         if max_result_bytes < length raw
         then (Inl (ValueError ''Diagnostic progress storage envelope exceeded.''), s)
         else let held = (\<lambda>j. dj_id j = jid \<and> dj_token j = token \<and> dj_state j = DRunning) in
           (Inr (count_jobs held s = 1),
            s\<lparr>diag_jobs := update_rows held (\<lambda>j. j\<lparr>dj_summary := seal C raw (summary_context jid)\<rparr>) (diag_jobs s)\<rparr>))"

section \<open>The fence of remote changes\<close>

definition mutation_revision :: "string \<Rightarrow> diag_store \<Rightarrow> string" where
  "mutation_revision target s = (case map_of (diag_targets s) target of None \<Rightarrow> [] | Some r \<Rightarrow> r)"

definition advance_mutation_revision :: "string \<Rightarrow> string \<Rightarrow> string \<Rightarrow> string \<Rightarrow> diag_store \<Rightarrow> bool \<times> diag_store" where
  "advance_mutation_revision target jid token reviewed s =
     (if \<not> (\<exists>j\<in>set (diag_jobs s). dj_id j = jid \<and> dj_token j = token \<and> dj_state j = DRunning) then (False, s)
      else if mutation_revision target s \<notin> {reviewed, jid} then (False, s)
      else (True, s\<lparr>diag_targets := assoc_put target jid (diag_targets s)\<rparr>))"

section \<open>Results\<close>

definition row_status :: "json \<Rightarrow> nat" where
  "row_status row = (case row of JObj kvs \<Rightarrow> if map_of kvs ''status'' = Some (JStr ''open'') then 1 else 0 | _ \<Rightarrow> 0)"

definition sealed_rows :: "cipher \<Rightarrow> string \<Rightarrow> json list \<Rightarrow> string list \<Rightarrow> diag_row list" where
  "sealed_rows C jid rows encoded = map (\<lambda>(i, row, raw).
     \<lparr>dr_job = jid, dr_position = i, dr_open = row_status row, dr_payload = seal C raw (row_context jid i)\<rparr>)
     (zip [0..<length rows] (zip rows encoded))"

text \<open>\<open>executemany\<close> fails on a position that the job already has.\<close>

definition finish :: "cipher \<Rightarrow> clock \<Rightarrow> string \<Rightarrow> string \<Rightarrow> json list \<Rightarrow> json \<Rightarrow> diag_store \<Rightarrow> bool result \<times> diag_store" where
  "finish C clk jid token rows summary s =
     (if max_result_rows < length rows then (Inl (ValueError ''Diagnostic result row limit exceeded.''), s)
      else (case map_result (dumps_strict compact_layout) rows of Inl e \<Rightarrow> (Inl e, s)
      | Inr encoded \<Rightarrow> (case dumps_strict compact_layout summary of Inl e \<Rightarrow> (Inl e, s)
      | Inr raw \<Rightarrow>
          if max_result_bytes < sum_list (map length encoded) + length raw
          then (Inl (ValueError ''Diagnostic result storage envelope exceeded.''), s)
          else diag_tx s (
            case select_first (\<lambda>j. dj_id j = jid \<and> dj_token j = token) (diag_jobs s) of None \<Rightarrow> Inr (False, s)
            | Some j \<Rightarrow>
                if dj_state j \<noteq> DRunning then Inr (False, s)
                else if \<exists>r\<in>set (diag_rows s). dr_job r = jid \<and> dr_position r < length rows then Inl IntegrityError
                else Inr (True, s\<lparr>diag_rows := diag_rows s @ sealed_rows C jid rows encoded,
                  diag_jobs := update_rows (\<lambda>r. dj_id r = jid)
                    (\<lambda>r. r\<lparr>dj_state := DSucceeded, dj_summary := seal C raw (summary_context jid), dj_completed := Some (clk 0)\<rparr>)
                    (diag_jobs s)\<rparr>)))))"

definition open_row :: "cipher \<Rightarrow> string \<Rightarrow> diag_row \<Rightarrow> json result" where
  "open_row C jid r = bindE (open_payload C (dr_payload r) (row_context jid (dr_position r))) json_loads"

definition job_rows :: "string \<Rightarrow> diag_store \<Rightarrow> diag_row list" where
  "job_rows jid s = sort_key dr_position (filter (\<lambda>r. dr_job r = jid) (diag_rows s))"

definition page :: "cipher \<Rightarrow> string \<Rightarrow> string \<Rightarrow> int \<Rightarrow> bool \<Rightarrow> diag_store \<Rightarrow> (json list \<times> nat) result" where
  "page C jid user n open_only s =
     (let p = nat (max 1 (min n 50)) in
      if \<not> (\<exists>j\<in>set (diag_jobs s). dj_id j = jid \<and> dj_user j = user) then Inr ([], 0)
      else let rs = filter (\<lambda>r. open_only \<longrightarrow> dr_open r = 1) (job_rows jid s) in
        bindE (map_result (open_row C jid) (take result_page_size (drop ((p - 1) * result_page_size) rs)))
          (\<lambda>js. Inr (js, length rs)))"

definition completed_rows :: "cipher \<Rightarrow> string \<Rightarrow> string \<Rightarrow> string \<Rightarrow> diag_store \<Rightarrow> json list option result" where
  "completed_rows C jid user tool s =
     (if \<not> (\<exists>j\<in>set (diag_jobs s). dj_id j = jid \<and> dj_user j = user \<and> dj_tool j = tool \<and> dj_state j = DSucceeded)
      then Inr None
      else bindE (map_result (open_row C jid) (job_rows jid s)) (\<lambda>js. Inr (Some js)))"

definition cleanup :: "cipher \<Rightarrow> clock \<Rightarrow> diag_policy \<Rightarrow> diag_store \<Rightarrow> unit result \<times> diag_store" where
  "cleanup C clk P s = diag_tx s (bindE (scrub_all C [] (prune clk P False s)) (\<lambda>s'. Inr ((), s')))"

end
