(* ===== verification/Diagnostic_Jobs.thy ===== *)
theory Diagnostic_Jobs
  imports Diagnostic_Store
begin

text \<open>
  The diagnostic queue as a machine: any sequence of operations, and what every operation does to
  the job table.  All of them except a submission keep a selection of the rows, each changed in a
  way \<open>settles\<close> allows; the queue's properties are consequences of that.
\<close>

section \<open>Operations in any order\<close>

datatype diag_op =
    Submit clock int string diag_request
  | Claim clock string
  | Cancel clock string string
  | Abort clock string string diag_state string
  | Release string string
  | Recover clock
  | Progress string string json
  | Advance string string string string
  | Finish clock string string "json list" json
  | Cleanup clock

definition diag_step :: "cipher \<Rightarrow> diag_policy \<Rightarrow> diag_store \<Rightarrow> diag_op \<Rightarrow> diag_store" where
  "diag_step C P s op = (case op of
     Submit clk free jid q \<Rightarrow> snd (submit C clk P free jid q s)
   | Claim clk token \<Rightarrow> snd (claim_job clk token s)
   | Cancel clk jid user \<Rightarrow> snd (cancel_job C clk jid user s)
   | Abort clk jid token st err \<Rightarrow> snd (abort C clk jid token st err s)
   | Release jid token \<Rightarrow> snd (release C jid token s)
   | Recover clk \<Rightarrow> snd (recover C clk s)
   | Progress jid token summary \<Rightarrow> snd (progress C jid token summary s)
   | Advance target jid token reviewed \<Rightarrow> snd (advance_mutation_revision target jid token reviewed s)
   | Finish clk jid token rows summary \<Rightarrow> snd (finish C clk jid token rows summary s)
   | Cleanup clk \<Rightarrow> snd (cleanup C clk P s))"

section \<open>What may happen to a row\<close>

text \<open>The life of a run: queued, running, asked to stop, settled.\<close>

definition diag_moves :: "diag_state \<Rightarrow> diag_state \<Rightarrow> bool" where
  "diag_moves a b \<longleftrightarrow> a = b \<or> (a = DQueued \<and> (b = DRunning \<or> b = DCancelled)) \<or>
     (a = DRunning \<and> (b = DCancelRequested \<or> diag_terminal b)) \<or> (a = DCancelRequested \<and> diag_terminal b)"

definition settles :: "diag_job \<Rightarrow> diag_job \<Rightarrow> bool" where
  "settles j j' \<longleftrightarrow> dj_id j' = dj_id j \<and> dj_user j' = dj_user j \<and> dj_tool j' = dj_tool j \<and>
     dj_created j' = dj_created j \<and> diag_moves (dj_state j) (dj_state j') \<and>
     (diag_terminal (dj_state j) \<longrightarrow> dj_completed j' = dj_completed j \<and> dj_error j' = dj_error j \<and>
        dj_summary j' = dj_summary j \<and> dj_started j' = dj_started j)"

definition reshaped :: "('a \<Rightarrow> 'a \<Rightarrow> bool) \<Rightarrow> 'a list \<Rightarrow> 'a list \<Rightarrow> bool" where
  "reshaped R xs ys \<longleftrightarrow> (\<exists>p f. ys = map f (filter p xs) \<and> (\<forall>x\<in>set xs. R x (f x)))"

lemma settles_refl [simp, intro]: "settles j j"
  by (simp add: settles_def diag_moves_def)

lemma settles_states:
  "settles j j' \<Longrightarrow> diag_active (dj_state j') \<Longrightarrow> diag_active (dj_state j)"
  "settles j j' \<Longrightarrow> dj_state j' = DQueued \<Longrightarrow> dj_state j = DQueued"
  "settles j j' \<Longrightarrow> diag_terminal (dj_state j) \<Longrightarrow> dj_state j' = dj_state j"
  by (auto simp: settles_def diag_moves_def diag_active_def diag_terminal_def)

lemma reshaped_self: "(\<And>x. x \<in> set xs \<Longrightarrow> R x x) \<Longrightarrow> reshaped R xs xs"
  unfolding reshaped_def by (intro exI [of _ "\<lambda>x. True"] exI [of _ "\<lambda>x. x"]) auto

lemma reshaped_map: "(\<And>x. x \<in> set xs \<Longrightarrow> R x (f x)) \<Longrightarrow> reshaped R xs (map f xs)"
  unfolding reshaped_def by (intro exI [of _ "\<lambda>x. True"] exI [of _ f]) auto

lemma reshaped_update:
  "(\<And>x. x \<in> set xs \<Longrightarrow> R x x) \<Longrightarrow> (\<And>x. x \<in> set xs \<Longrightarrow> p x \<Longrightarrow> R x (f x)) \<Longrightarrow> reshaped R xs (update_rows p f xs)"
  unfolding update_rows_def by (rule reshaped_map) auto

lemma reshaped_delete: "(\<And>x. x \<in> set xs \<Longrightarrow> R x x) \<Longrightarrow> reshaped R xs (delete_rows p xs)"
  unfolding reshaped_def delete_rows_def by (intro exI [of _ "\<lambda>x. \<not> p x"] exI [of _ "\<lambda>x. x"]) auto

lemma reshaped_compose:
  assumes "reshaped R xs ys" "reshaped S ys zs" "\<And>x y z. x \<in> set xs \<Longrightarrow> R x y \<Longrightarrow> S y z \<Longrightarrow> T x z"
    and "\<And>x. x \<in> set xs \<Longrightarrow> T x x"
  shows "reshaped T xs zs"
proof -
  from assms(1) obtain p f where f: "ys = map f (filter p xs)" "\<forall>x\<in>set xs. R x (f x)"
    unfolding reshaped_def by (elim exE conjE)
  from assms(2) obtain q g where g: "zs = map g (filter q ys)" "\<forall>y\<in>set ys. S y (g y)"
    unfolding reshaped_def by (elim exE conjE)
  let ?h = "\<lambda>x. if p x then g (f x) else x"
  have "zs = map ?h (filter (\<lambda>x. p x \<and> q (f x)) xs)"
    unfolding g(1) f(1) by (induction xs) auto
  moreover have "T x (?h x)" if "x \<in> set xs" for x
    using that f g assms(3,4) by auto
  ultimately show ?thesis unfolding reshaped_def by blast
qed

lemma reshaped_mono: "reshaped R xs ys \<Longrightarrow> (\<And>x y. x \<in> set xs \<Longrightarrow> R x y \<Longrightarrow> S x y) \<Longrightarrow> reshaped S xs ys"
  by (fastforce simp: reshaped_def)

lemma reshaped_member: "reshaped R xs ys \<Longrightarrow> y \<in> set ys \<Longrightarrow> \<exists>x\<in>set xs. R x y"
  unfolding reshaped_def by (elim exE conjE) auto

lemma reshaped_count:
  assumes "reshaped R xs ys" "\<And>x y. R x y \<Longrightarrow> p y \<Longrightarrow> q x"
  shows "row_count p ys \<le> row_count q xs"
proof -
  from assms(1) obtain r f where f: "ys = map f (filter r xs)" "\<forall>x\<in>set xs. R x (f x)"
    by (auto simp: reshaped_def)
  from f(2) assms(2) have "length (filter (\<lambda>x. r x \<and> p (f x)) xs) \<le> length (filter q xs)"
    by (induction xs) (auto intro: le_SucI)
  then show ?thesis
    by (simp add: row_count_def f(1) filter_map o_def conj_commute)
qed

lemma reshaped_length: "reshaped R xs ys \<Longrightarrow> length ys \<le> length xs"
  using reshaped_count [of R xs ys "\<lambda>x. True" "\<lambda>x. True"] by (simp add: row_count_def)

lemma reshaped_distinct:
  assumes "reshaped R xs ys" "\<And>x y. R x y \<Longrightarrow> k y = k x" "distinct (map k xs)"
  shows "distinct (map k ys)"
proof -
  from assms(1) obtain r f where f: "ys = map f (filter r xs)" "\<forall>x\<in>set xs. R x (f x)"
    by (auto simp: reshaped_def)
  then have "map k ys = map k (filter r xs)"
    using assms(2) by auto
  with assms(3) show ?thesis by (simp add: distinct_map_filter)
qed

lemmas settled_update = reshaped_update [of _ settles, OF settles_refl]
  and settled_delete = reshaped_delete [of _ settles, OF settles_refl]
  and settled_self = reshaped_self [of _ settles, OF settles_refl]

section \<open>Every operation reshapes the table\<close>

lemma map_result_Inr: "map_result f xs = Inr ys \<Longrightarrow> ys = map (\<lambda>x. projr (f x)) xs \<and> (\<forall>x\<in>set xs. \<exists>y. f x = Inr y)"
  by (induction xs arbitrary: ys) (auto simp: bindE_eq_Inr)

lemma scrub_row_Inr: "scrub_row C keys j = Inr j' \<Longrightarrow> \<exists>c. j' = j\<lparr>dj_config := c\<rparr>"
proof -
  have "j = j\<lparr>dj_config := dj_config j\<rparr>" by simp
  then show "scrub_row C keys j = Inr j' \<Longrightarrow> \<exists>c. j' = j\<lparr>dj_config := c\<rparr>"
    by (auto simp: scrub_row_def bindE_eq_Inr split: if_splits intro: exI [of _ "dj_config j"])
qed

text \<open>Scrubbing touches only the saved configuration.\<close>

definition same_but_config :: "diag_job \<Rightarrow> diag_job \<Rightarrow> bool" where
  "same_but_config j j' \<longleftrightarrow> (\<exists>c. j' = j\<lparr>dj_config := c\<rparr>)"

lemma same_but_config_refl [simp, intro]: "same_but_config j j"
  unfolding same_but_config_def by (rule exI [of _ "dj_config j"]) simp

lemma same_but_config_trans: "same_but_config a b \<Longrightarrow> same_but_config b c \<Longrightarrow> same_but_config a c"
  by (auto simp: same_but_config_def)

lemma scrub_map:
  assumes "scrub C tools keys jid s = Inr s'"
  obtains f where "s' = s\<lparr>diag_jobs := map f (diag_jobs s)\<rparr>" "\<forall>j\<in>set (diag_jobs s). same_but_config j (f j)"
proof -
  from assms obtain js where js: "map_result (\<lambda>j. if dj_tool j \<in> set tools \<and> dj_completed j \<noteq> None \<and> dj_token j = [] \<and> (jid = [] \<or> dj_id j = jid)
         then scrub_row C keys j else Inr j) (diag_jobs s) = Inr js" (is "map_result ?f _ = _") and s': "s' = s\<lparr>diag_jobs := js\<rparr>"
    by (auto simp: scrub_def bindE_eq_Inr)
  from map_result_Inr [OF js] have js': "js = map (\<lambda>j. projr (?f j)) (diag_jobs s)"
    and ok: "\<And>j. j \<in> set (diag_jobs s) \<Longrightarrow> \<exists>y. ?f j = Inr y" by auto
  have "\<forall>j\<in>set (diag_jobs s). same_but_config j (projr (?f j))"
  proof
    fix j assume "j \<in> set (diag_jobs s)"
    from ok [OF this] scrub_row_Inr [of C keys j] show "same_but_config j (projr (?f j))"
      by (cases "scrub_row C keys j") (auto simp: same_but_config_def [symmetric] split: if_splits)
  qed
  with s' js' show thesis by (intro that) simp_all
qed

lemma scrub_Inr:
  "scrub C tools keys jid s = Inr s' \<Longrightarrow>
     reshaped same_but_config (diag_jobs s) (diag_jobs s') \<and> diag_rows s' = diag_rows s \<and>
     diag_receipts s' = diag_receipts s \<and> diag_targets s' = diag_targets s"
  by (erule scrub_map) (simp add: reshaped_map)

definition only_configs :: "diag_store \<Rightarrow> diag_store \<Rightarrow> bool" where
  "only_configs s s' \<longleftrightarrow> reshaped same_but_config (diag_jobs s) (diag_jobs s') \<and> diag_rows s' = diag_rows s \<and>
     diag_receipts s' = diag_receipts s \<and> diag_targets s' = diag_targets s"

lemma scrub_all_Inr: "scrub_all C jid s = Inr s' \<Longrightarrow> only_configs s s'"
proof -
  assume "scrub_all C jid s = Inr s'"
  then obtain s1 s2 where s: "scrub_certificate_inputs C jid s = Inr s1" "scrub_ssh_inputs C jid s1 = Inr s2"
    "scrub_export_inputs C jid s2 = Inr s'"
    by (auto simp: scrub_all_def bindE_eq_Inr)
  note r = s [unfolded scrub_certificate_inputs_def scrub_ssh_inputs_def scrub_export_inputs_def, THEN scrub_Inr]
  have "reshaped same_but_config (diag_jobs s) (diag_jobs s2)"
    using r by (blast intro: reshaped_compose same_but_config_trans same_but_config_refl)
  with r show ?thesis
    unfolding only_configs_def by (auto intro: reshaped_compose same_but_config_trans same_but_config_refl)
qed

lemma scrub_export_Inr: "scrub_export_inputs C jid s = Inr s' \<Longrightarrow> only_configs s s'"
  by (simp add: scrub_export_inputs_def only_configs_def scrub_Inr)

lemma reshaped_config:
  assumes "reshaped settles xs ys" "reshaped same_but_config ys zs"
  shows "reshaped settles xs zs"
  by (rule reshaped_compose [OF assms]) (auto simp: same_but_config_def settles_def)

lemma next_queued_Some: "next_queued js = Some j \<Longrightarrow> j \<in> set js \<and> dj_state j = DQueued"
proof -
  assume "next_queued js = Some j"
  then have "j \<in> set (sort_key dj_created (filter (\<lambda>j. dj_state j = DQueued) js))"
    by (cases "sort_key dj_created (filter (\<lambda>j. dj_state j = DQueued) js)") (auto simp: next_queued_def simp del: set_sort)
  then show ?thesis by auto
qed

lemma claim_reshapes: "reshaped settles (diag_jobs s) (diag_jobs (snd (claim_job clk token s)))"
  if "distinct (map dj_id (diag_jobs s))"
proof (cases "next_queued (diag_jobs s)")
  case None
  then show ?thesis by (simp add: claim_job_def settled_self)
next
  case (Some j)
  then have j: "j \<in> set (diag_jobs s)" "dj_state j = DQueued" using next_queued_Some by auto
  have "dj_state x = DQueued" if "x \<in> set (diag_jobs s)" "dj_id x = dj_id j" for x
    using key_unique [OF \<open>distinct _\<close>] that j by metis
  with Some show ?thesis
    by (auto simp: claim_job_def settles_def diag_moves_def diag_terminal_def intro!: settled_update)
qed

lemma abort_reshapes: "reshaped settles (diag_jobs s) (diag_jobs (snd (abort C clk jid token st err s)))"
proof -
  have out: "diag_terminal st'" if "diag_terminal st" "abort_outcome C s prev st err = Inr (st', err')" for prev st' err'
    using that
    by (auto simp: abort_outcome_def export_interruption_outcome_def certificate_interruption_state_def
        ssh_interruption_state_def failed_for_unknown_def diag_terminal_def bindE_eq_Inr
        split: option.splits if_splits sum.splits)
  show ?thesis
  proof (cases "diag_terminal st")
    case True
    then show ?thesis
      using out [OF True]
      by (auto simp: abort_def Let_def settled_self diag_tx_def bindE_eq_Inr split: sum.splits intro!: settled_update)
        (auto simp: settles_def diag_moves_def diag_interruptible_def diag_terminal_def)
  qed (simp add: abort_def settled_self)
qed


lemma cancel_reshapes: "reshaped settles (diag_jobs s) (diag_jobs (snd (cancel_job C clk jid user s)))"
proof -
  let ?js = "update_rows (\<lambda>j. dj_id j = jid \<and> dj_user j = user \<and> (dj_state j = DQueued \<or> dj_state j = DRunning))
             (cancel_row (clk 0)) (diag_jobs s)"
  have "reshaped settles (diag_jobs s) ?js"
    by (rule settled_update) (auto simp: settles_def cancel_row_def diag_moves_def diag_terminal_def)
  then show ?thesis
    using scrub_export_Inr [of C jid "s\<lparr>diag_jobs := ?js\<rparr>"]
    by (auto simp: cancel_job_def Let_def diag_tx_def settled_self only_configs_def bindE_eq_Inr
        intro: reshaped_config split: sum.splits)
qed

lemma release_reshapes: "reshaped settles (diag_jobs s) (diag_jobs (snd (release C jid token s)))"
proof -
  let ?js = "update_rows (\<lambda>j. dj_id j = jid \<and> dj_token j = token \<and> dj_completed j \<noteq> None)
             (\<lambda>j. j\<lparr>dj_token := []\<rparr>) (diag_jobs s)"
  have "reshaped settles (diag_jobs s) ?js"
    by (rule settled_update) (auto simp: settles_def diag_moves_def diag_terminal_def)
  then show ?thesis
    using scrub_all_Inr [of C jid "s\<lparr>diag_jobs := ?js\<rparr>"]
    by (auto simp: release_def Let_def diag_tx_def settled_self only_configs_def bindE_eq_Inr
        intro: reshaped_config split: sum.splits)
qed

lemma progress_reshapes: "reshaped settles (diag_jobs s) (diag_jobs (snd (progress C jid token summary s)))"
  by (auto simp: progress_def Let_def settled_self split: sum.splits intro!: settled_update)
    (auto simp: settles_def diag_moves_def diag_terminal_def)

lemma finish_cases:
  obtains (refused) "snd (finish C clk jid token rows summary s) = s" "fst (finish C clk jid token rows summary s) \<noteq> Inr True"
  | (finished) encoded raw j where "fst (finish C clk jid token rows summary s) = Inr True"
    "map_result (dumps_strict compact_layout) rows = Inr encoded" "dumps_strict compact_layout summary = Inr raw"
    "select_first (\<lambda>j. dj_id j = jid \<and> dj_token j = token) (diag_jobs s) = Some j" "dj_state j = DRunning"
    "\<not> (\<exists>r\<in>set (diag_rows s). dr_job r = jid \<and> dr_position r < length rows)"
    "snd (finish C clk jid token rows summary s) = s\<lparr>diag_rows := diag_rows s @ sealed_rows C jid rows encoded,
                  diag_jobs := update_rows (\<lambda>r. dj_id r = jid)
                    (\<lambda>r. r\<lparr>dj_state := DSucceeded, dj_summary := seal C raw (summary_context jid), dj_completed := Some (clk 0)\<rparr>)
                    (diag_jobs s)\<rparr>"
proof -
  let ?r = "finish C clk jid token rows summary s"
  have "(\<exists>encoded raw j. map_result (dumps_strict compact_layout) rows = Inr encoded \<and>
      dumps_strict compact_layout summary = Inr raw \<and>
      select_first (\<lambda>j. dj_id j = jid \<and> dj_token j = token) (diag_jobs s) = Some j \<and> dj_state j = DRunning \<and>
      \<not> (\<exists>r\<in>set (diag_rows s). dr_job r = jid \<and> dr_position r < length rows) \<and>
      ?r = (Inr True, s\<lparr>diag_rows := diag_rows s @ sealed_rows C jid rows encoded,
                  diag_jobs := update_rows (\<lambda>r. dj_id r = jid)
                    (\<lambda>r. r\<lparr>dj_state := DSucceeded, dj_summary := seal C raw (summary_context jid), dj_completed := Some (clk 0)\<rparr>)
                    (diag_jobs s)\<rparr>)) \<or> (snd ?r = s \<and> fst ?r \<noteq> Inr True)"
    unfolding finish_def
    by (cases "map_result (dumps_strict compact_layout) rows"; cases "dumps_strict compact_layout summary";
        cases "select_first (\<lambda>j. dj_id j = jid \<and> dj_token j = token) (diag_jobs s)") simp_all
  then show thesis
    by (elim disjE exE conjE) (erule finished [rotated], simp_all add: refused)
qed

lemma finish_reshapes:
  assumes "distinct (map dj_id (diag_jobs s))"
  shows "reshaped settles (diag_jobs s) (diag_jobs (snd (finish C clk jid token rows summary s)))"
proof -
  have one: "dj_state x = DRunning"
    if "select_first (\<lambda>j. dj_id j = jid \<and> dj_token j = token) (diag_jobs s) = Some j" "dj_state j = DRunning"
      "x \<in> set (diag_jobs s)" "dj_id x = jid" for x j
    using key_unique [OF assms] that select_first_Some [OF that(1)] by metis
  show ?thesis
  proof (cases rule: finish_cases [of C clk jid token rows summary s])
    case (finished encoded raw j)
    from finished one [OF finished(4,5)] show ?thesis
      by (auto simp: settles_def diag_moves_def diag_terminal_def intro!: settled_update)
  qed (simp add: settled_self)
qed

lemma advance_jobs [simp]: "diag_jobs (snd (advance_mutation_revision target jid token reviewed s)) = diag_jobs s"
  by (simp add: advance_mutation_revision_def)

text \<open>A recovered run ends unknown or failed; the others are not touched.\<close>

lemma settle_rows_Inr:
  "settle_rows C s ps js = Inr js' \<Longrightarrow>
     reshaped (\<lambda>j j'. j' = j \<or> (dj_id j \<in> dj_id ` set ps \<and> (\<exists>st. diag_terminal st \<and> j' = j\<lparr>dj_state := st\<rparr>))) js js'"
proof (induction ps arbitrary: js)
  case Nil
  then show ?case by (simp add: reshaped_self)
next
  case (Cons p ps)
  from Cons.prems obtain st where st: "recovered_state C s p = Inr st"
    and rest: "settle_rows C s ps (if dj_tool p = ''bulk_ssh'' \<or> dj_tool p = ''certificate_enroll''
       then set_state (dj_id p) st js else js) = Inr js'" (is "settle_rows C s ps ?mid = _")
    by (auto simp: bindE_eq_Inr)
  have t: "diag_terminal st"
    using st by (auto simp: recovered_state_def ssh_interruption_state_def certificate_interruption_state_def
        failed_for_unknown_def diag_terminal_def bindE_eq_Inr split: if_splits sum.splits)
  have mid: "reshaped (\<lambda>j j'. j' = j \<or> (dj_id j = dj_id p \<and> j' = j\<lparr>dj_state := st\<rparr>)) js ?mid"
    unfolding set_state_def by (auto intro: reshaped_self reshaped_update)
  show ?case
    by (rule reshaped_compose [OF mid Cons.IH [OF rest]]) (use t in auto)
qed

lemma recover_reshapes:
  assumes d: "distinct (map dj_id (diag_jobs s))"
  shows "reshaped settles (diag_jobs s) (diag_jobs (snd (recover C clk s)))"
proof -
  let ?prev = "filter (\<lambda>j. diag_interruptible (dj_state j)) (diag_jobs s)"
  let ?js1 = "update_rows (\<lambda>j. diag_interruptible (dj_state j)) (recover_row (clk 0)) (diag_jobs s)"
  let ?clear = "update_rows (\<lambda>j. dj_completed j \<noteq> None) (\<lambda>j. j\<lparr>dj_token := []\<rparr>)"
  have "reshaped settles (diag_jobs s) (diag_jobs s')"
    if settle: "settle_rows C s ?prev ?js1 = Inr js2" and sc: "scrub_all C [] (s\<lparr>diag_jobs := ?clear js2\<rparr>) = Inr s'" for js2 s'
  proof -
    have 1: "reshaped (\<lambda>j j'. j' = (if diag_interruptible (dj_state j) then recover_row (clk 0) j else j)) (diag_jobs s) ?js1"
      unfolding update_rows_def by (rule reshaped_map) simp
    have interrupted: "diag_interruptible (dj_state j)" if "j \<in> set (diag_jobs s)" "dj_id j \<in> dj_id ` set ?prev" for j
      using that key_unique [OF d, of j] by auto
    have 2: "reshaped settles (diag_jobs s) js2"
    proof (rule reshaped_compose [OF 1 settle_rows_Inr [OF settle]])
      fix x y z
      assume x: "x \<in> set (diag_jobs s)" and y: "y = (if diag_interruptible (dj_state x) then recover_row (clk 0) x else x)"
        and z: "z = y \<or> (dj_id y \<in> dj_id ` set ?prev \<and> (\<exists>st. diag_terminal st \<and> z = y\<lparr>dj_state := st\<rparr>))"
      have id: "dj_id y = dj_id x" by (simp add: y recover_row_def)
      show "settles x z"
      proof (cases "diag_interruptible (dj_state x)")
        case True
        then have "\<exists>st. diag_terminal st \<and> z = (recover_row (clk 0) x)\<lparr>dj_state := st\<rparr>"
          using z by (auto simp: y recover_row_def diag_terminal_def)
        with True show ?thesis
          by (auto simp: settles_def recover_row_def diag_interruptible_def diag_moves_def diag_terminal_def)
      next
        case False
        with z interrupted [OF x] id have "z = x" by (auto simp: y)
        then show ?thesis by simp
      qed
    qed simp
    have 3: "reshaped (\<lambda>j j'. j' = j \<or> j' = j\<lparr>dj_token := []\<rparr>) js2 (?clear js2)"
      by (rule reshaped_update) auto
    have "reshaped settles (diag_jobs s) (?clear js2)"
      by (rule reshaped_compose [OF 2 3]) (auto simp: settles_def)
    with scrub_all_Inr [OF sc] show ?thesis by (auto simp: only_configs_def intro: reshaped_config)
  qed
  then show ?thesis
    by (auto simp: recover_def Let_def diag_tx_def bindE_eq_Inr settled_self split: sum.splits)
qed

lemma delete_jobs_reshapes: "reshaped settles (diag_jobs s) (diag_jobs (delete_jobs p s))"
  by (simp add: delete_jobs_def settled_delete)

lemma settled_delete2: "reshaped settles xs (delete_rows p (delete_rows q xs))"
proof -
  have "delete_rows p (delete_rows q xs) = delete_rows (\<lambda>x. q x \<or> p x) xs"
    by (induction xs) simp_all
  then show ?thesis by (simp add: settled_delete)
qed

lemma prune_reshapes: "reshaped settles (diag_jobs s) (diag_jobs (prune clk P r s))"
  by (simp add: prune_def Let_def drop_receipts_def delete_jobs_def settled_delete settled_delete2)

section \<open>Admission\<close>

definition after_admission :: "clock \<Rightarrow> diag_policy \<Rightarrow> string \<Rightarrow> diag_request \<Rightarrow> string \<Rightarrow> diag_store \<Rightarrow> diag_store" where
  "after_admission clk P jid q sealed mid =
     mid\<lparr>diag_jobs := diag_jobs mid @ [new_diag_job jid q sealed (clk 3) P],
         diag_receipts := (case rq_key q of None \<Rightarrow> diag_receipts mid
           | Some k \<Rightarrow> diag_receipts mid @
               [\<lparr>rc_key = k, rc_user = rq_user q, rc_job = jid, rc_expires = clk 4 + receipt_life (rq_tool q)\<rparr>])\<rparr>"

text \<open>The limits a submission is admitted under.\<close>

definition room :: "diag_policy \<Rightarrow> diag_request \<Rightarrow> diag_store \<Rightarrow> bool" where
  "room P q s \<longleftrightarrow> length (diag_jobs s) < history_limit P \<and> count_jobs (\<lambda>j. dj_state j = DQueued) s < queue_limit P \<and>
     count_jobs (\<lambda>j. dj_user j = rq_user q \<and> diag_active (dj_state j)) s < user_limit P \<and>
     (rq_key q \<noteq> None \<longrightarrow> length (diag_receipts s) < history_limit P)"

lemma admission_room: "admission_error C P free q config s = None \<Longrightarrow> room P q s"
  by (auto simp: admission_error_def room_def split: if_splits)

lemma submit_cases:
  obtains (refused) e where "submit C clk P free jid q s = (Inl e, s)"
  | (known) r where "r \<in> set (diag_receipts (drop_receipts (clk 0) s))" "rq_key (norm_request q) = Some (rc_key r)"
      "rc_user r = rq_user q" "submit C clk P free jid q s = (Inr (rc_job r), drop_receipts (clk 0) s)"
  | (admitted) sealed where
      "\<forall>k. rq_key (norm_request q) = Some k \<longrightarrow> (\<forall>r\<in>set (diag_receipts (drop_receipts (clk 0) s)). rc_key r \<noteq> k)"
      "room P (norm_request q) (before_admission clk P s)" "jid \<notin> dj_id ` set (diag_jobs (before_admission clk P s))"
      "submit C clk P free jid q s = (Inr jid, after_admission clk P jid (norm_request q) sealed (before_admission clk P s))"
proof -
  let ?q = "norm_request q"
  let ?config = "with_limits P (rq_tool ?q) (rq_config ?q)"
  have user: "rq_user ?q = rq_user q" by (simp add: norm_request_def)
  have tx: "(\<exists>e. admit_tx C clk P free jid ?q ?config sealed s = Inl e) \<or>
    (\<exists>r. r \<in> set (diag_receipts (drop_receipts (clk 0) s)) \<and> rq_key ?q = Some (rc_key r) \<and> rc_user r = rq_user q \<and>
       admit_tx C clk P free jid ?q ?config sealed s = Inr (rc_job r, drop_receipts (clk 0) s)) \<or>
    ((\<forall>k. rq_key ?q = Some k \<longrightarrow> (\<forall>r\<in>set (diag_receipts (drop_receipts (clk 0) s)). rc_key r \<noteq> k)) \<and>
       room P ?q (before_admission clk P s) \<and> jid \<notin> dj_id ` set (diag_jobs (before_admission clk P s)) \<and>
       admit_tx C clk P free jid ?q ?config sealed s = Inr (jid, after_admission clk P jid ?q sealed (before_admission clk P s)))"
    for sealed
  proof (cases "case rq_key ?q of None \<Rightarrow> None | Some k \<Rightarrow> select_first (\<lambda>r. rc_key r = k) (diag_receipts (drop_receipts (clk 0) s))")
    case None
    then have fresh: "\<forall>k. rq_key ?q = Some k \<longrightarrow> (\<forall>r\<in>set (diag_receipts (drop_receipts (clk 0) s)). rc_key r \<noteq> k)"
      by (auto simp: select_first_None split: option.splits)
    show ?thesis
      using fresh admission_room [of C P free ?q ?config "before_admission clk P s"]
      by (cases "admission_error C P free ?q ?config (before_admission clk P s)")
        (auto simp: admit_tx_def Let_def None after_admission_def)
  next
    case (Some r)
    then obtain k where "rq_key ?q = Some k" and sel: "select_first (\<lambda>r. rc_key r = k) (diag_receipts (drop_receipts (clk 0) s)) = Some r"
      by (auto split: option.splits)
    moreover from select_first_Some [OF sel] have "r \<in> set (diag_receipts (drop_receipts (clk 0) s))" "rc_key r = k" by auto
    ultimately show ?thesis
      by (auto simp: admit_tx_def Let_def user)
  qed
  show thesis
  proof (cases "rq_tool ?q \<notin> set diag_tools \<or> rq_user ?q = []")
    case True
    then show thesis by (intro refused) (auto simp: submit_def Let_def)
  next
    case False
    show thesis
    proof (cases "dumps_strict compact_layout (JObj ?config)")
      case (Inl e)
      with False show thesis by (intro refused) (auto simp: submit_def Let_def)
    next
      case (Inr raw)
      show thesis
      proof (cases "(if rq_tool ?q = ''bulk_ssh'' then 2 * 1024 * 1024 else 64 * 1024) < length raw")
        case True
        with False Inr show thesis by (intro refused) (auto simp: submit_def Let_def)
      next
        case small: False
        with False Inr have "submit C clk P free jid q s =
            diag_tx s (admit_tx C clk P free jid ?q ?config (seal C raw (config_context jid)) s)"
          by (simp add: submit_def Let_def)
        with tx [of "seal C raw (config_context jid)"] show thesis
          using refused known admitted by fastforce
      qed
    qed
  qed
qed

lemma before_admission_reshapes: "reshaped settles (diag_jobs s) (diag_jobs (before_admission clk P s))"
  using prune_reshapes [of "drop_receipts (clk 0) s"] by (simp add: before_admission_def drop_receipts_def)

text \<open>The effect of any operation on the job table.\<close>

lemma diag_step_jobs:
  assumes "distinct (map dj_id (diag_jobs s))"
  obtains (reshape) "reshaped settles (diag_jobs s) (diag_jobs (diag_step C P s op))"
  | (new) clk free jid q sealed mid where "op = Submit clk free jid q" "reshaped settles (diag_jobs s) (diag_jobs mid)"
      "room P (norm_request q) mid" "jid \<notin> dj_id ` set (diag_jobs mid)" "fst (submit C clk P free jid q s) = Inr jid"
      "diag_jobs (diag_step C P s op) = diag_jobs mid @ [new_diag_job jid (norm_request q) sealed (clk 3) P]"
proof (cases op)
  case (Submit clk free jid q)
  show thesis
  proof (cases rule: submit_cases [of C clk P free jid q s])
    case (admitted sealed)
    with Submit show thesis
      by (intro new [of clk free jid q "before_admission clk P s" sealed])
        (simp_all add: before_admission_reshapes diag_step_def after_admission_def)
  qed (use Submit in \<open>auto intro!: reshape simp: diag_step_def settled_self drop_receipts_def\<close>)
next
  case (Cleanup clk)
  have "reshaped settles (diag_jobs s) (diag_jobs (snd (cleanup C clk P s)))"
    using scrub_all_Inr [of C "[]" "prune clk P False s"] prune_reshapes [of s clk P False]
    by (auto simp: cleanup_def diag_tx_def bindE_eq_Inr only_configs_def settled_self intro: reshaped_config split: sum.splits)
  with Cleanup show thesis by (intro reshape) (simp add: diag_step_def)
qed (use assms in \<open>auto intro!: reshape simp: diag_step_def settled_self claim_reshapes cancel_reshapes abort_reshapes
    release_reshapes recover_reshapes progress_reshapes finish_reshapes\<close>)

end
