(* ===== verification/Diagnostic_Facts.thy ===== *)
theory Diagnostic_Facts
  imports Diagnostic_Jobs
begin

text \<open>
  What the diagnostic queue guarantees whatever the order of the operations: capacity, one start
  per submission, outcomes that stay, fenced workers, fenced remote changes, one run per reviewed
  preview, results that read back, and recovery that never replays.
\<close>

section \<open>Capacity\<close>

definition within_capacity :: "diag_policy \<Rightarrow> diag_store \<Rightarrow> bool" where
  "within_capacity P s \<longleftrightarrow> distinct (map dj_id (diag_jobs s)) \<and> length (diag_jobs s) \<le> history_limit P \<and>
     count_jobs (\<lambda>j. dj_state j = DQueued) s \<le> queue_limit P \<and>
     (\<forall>u. count_jobs (\<lambda>j. dj_user j = u \<and> diag_active (dj_state j)) s \<le> user_limit P)"

lemma settles_fields: "settles j j' \<Longrightarrow> dj_id j' = dj_id j \<and> dj_user j' = dj_user j \<and> dj_tool j' = dj_tool j"
  by (simp add: settles_def)

lemma reshaped_counts:
  assumes "reshaped settles (diag_jobs s) (diag_jobs s')"
  shows "count_jobs (\<lambda>j. dj_state j = DQueued) s' \<le> count_jobs (\<lambda>j. dj_state j = DQueued) s"
    and "count_jobs (\<lambda>j. dj_user j = u \<and> diag_active (dj_state j)) s' \<le> count_jobs (\<lambda>j. dj_user j = u \<and> diag_active (dj_state j)) s"
    and "count_jobs (\<lambda>j. dj_id j = jid \<and> dj_state j = DQueued) s' \<le> count_jobs (\<lambda>j. dj_id j = jid \<and> dj_state j = DQueued) s"
  unfolding count_jobs_def
  by (rule reshaped_count [OF assms]; auto dest: settles_states settles_fields)+

lemma reshaped_ids: "reshaped settles xs ys \<Longrightarrow> distinct (map dj_id xs) \<Longrightarrow> distinct (map dj_id ys)"
  by (erule reshaped_distinct [where k = dj_id]) (auto simp: settles_def)

lemma new_diag_job_simps [simp]:
  "dj_id (new_diag_job jid q sealed now P) = jid" "dj_user (new_diag_job jid q sealed now P) = rq_user q"
  "dj_state (new_diag_job jid q sealed now P) = DQueued" "dj_tool (new_diag_job jid q sealed now P) = rq_tool q"
  by (simp_all add: new_diag_job_def)

lemma step_ids:
  assumes "distinct (map dj_id (diag_jobs s))"
  shows "distinct (map dj_id (diag_jobs (diag_step C P s op)))"
  using assms
proof (cases rule: diag_step_jobs [where C = C and P = P and op = op])
  case reshape
  then show ?thesis using reshaped_ids assms by blast
next
  case (new clk free jid q sealed mid)
  with reshaped_ids [OF new(2) assms] show ?thesis by simp
qed

lemma step_capacity: "within_capacity P s \<Longrightarrow> within_capacity P (diag_step C P s op)"
proof -
  assume w: "within_capacity P s"
  then have d: "distinct (map dj_id (diag_jobs s))" by (simp add: within_capacity_def)
  from d show ?thesis
  proof (cases rule: diag_step_jobs [where C = C and P = P and op = op])
    case reshape
    from w reshaped_counts [OF reshape] reshaped_length [OF reshape] reshaped_ids [OF reshape d] show ?thesis
      unfolding within_capacity_def by (meson order_trans)
  next
    case (new clk free jid q sealed mid)
    note c = reshaped_counts [OF new(2)] and l = reshaped_length [OF new(2)] and i = reshaped_ids [OF new(2) d]
    have u: "count_jobs (\<lambda>j. dj_user j = u \<and> diag_active (dj_state j)) mid \<le> user_limit P" for u
      using w c(2) [of u] unfolding within_capacity_def by (meson order_trans)
    show ?thesis
      using new(3,4) i u unfolding within_capacity_def count_jobs_def new(6)
      by (auto simp: room_def count_jobs_def Suc_le_eq)
  qed
qed

interpretation diag_capacity: step_system "diag_step C P" "within_capacity P"
  by unfold_locales (rule step_capacity)

text \<open>
  C13: from an empty store, whatever operations run in whatever order, job ids stay unique, the
  retained runs stay within the history limit, the queued ones within the queue limit and every
  user's active runs within the user limit.
\<close>

theorem diagnostic_capacity_holds:
  "let s = foldl (diag_step C P) empty_diag_store ops in
     distinct (map dj_id (diag_jobs s)) \<and> length (diag_jobs s) \<le> history_limit P \<and>
     count_jobs (\<lambda>j. dj_state j = DQueued) s \<le> queue_limit P \<and>
     count_jobs (\<lambda>j. dj_user j = u \<and> diag_active (dj_state j)) s \<le> user_limit P"
  using diag_capacity.run_invar [of P empty_diag_store C ops]
  by (simp add: Let_def within_capacity_def empty_diag_store_def count_jobs_def row_count_def)

section \<open>Starts\<close>

definition claims_of :: "string \<Rightarrow> diag_store \<Rightarrow> diag_op \<Rightarrow> nat" where
  "claims_of jid s op = (case op of
     Claim clk token \<Rightarrow> (case fst (claim_job clk token s) of None \<Rightarrow> 0 | Some j \<Rightarrow> if dj_id j = jid then 1 else 0)
   | _ \<Rightarrow> 0)"

definition accepted_as :: "string \<Rightarrow> cipher \<Rightarrow> diag_policy \<Rightarrow> diag_store \<Rightarrow> diag_op \<Rightarrow> nat" where
  "accepted_as jid C P s op = (case op of
     Submit clk free jid' q \<Rightarrow> if jid' = jid \<and> fst (submit C clk P free jid' q s) = Inr jid then 1 else 0
   | _ \<Rightarrow> 0)"

definition waiting :: "string \<Rightarrow> diag_store \<Rightarrow> nat" where
  "waiting jid s = count_jobs (\<lambda>j. dj_id j = jid \<and> dj_state j = DQueued) s"

lemma claim_spends:
  assumes d: "distinct (map dj_id (diag_jobs s))"
  shows "claims_of jid s (Claim clk token) + waiting jid (snd (claim_job clk token s)) \<le> waiting jid s"
proof (cases "next_queued (diag_jobs s)")
  case None
  then show ?thesis by (simp add: claims_of_def claim_job_def)
next
  case (Some j)
  note j = next_queued_Some [OF Some]
  show ?thesis
  proof (cases "dj_id j = jid")
    case True
    have "waiting jid (snd (claim_job clk token s)) = 0"
      using Some True by (auto simp: waiting_def count_jobs_def row_count_def claim_job_def filter_empty_conv elim!: update_rows_cases)
    moreover have "0 < waiting jid s"
      using j True by (auto simp: waiting_def count_jobs_def row_count_def length_greater_0_conv filter_empty_conv)
    moreover have "claims_of jid s (Claim clk token) = 1"
      using Some True by (simp add: claims_of_def claim_job_def)
    ultimately show ?thesis by simp
  next
    case False
    with Some have "claims_of jid s (Claim clk token) = 0" by (simp add: claims_of_def claim_job_def)
    with reshaped_counts(3) [OF claim_reshapes [OF d]] show ?thesis by (simp add: waiting_def)
  qed
qed

lemma step_spends:
  assumes d: "distinct (map dj_id (diag_jobs s))"
  shows "claims_of jid s op + waiting jid (diag_step C P s op) \<le> waiting jid s + accepted_as jid C P s op"
proof (cases "\<exists>clk token. op = Claim clk token")
  case True
  then show ?thesis using claim_spends [OF d] by (auto simp: diag_step_def accepted_as_def)
next
  case False
  then have z: "claims_of jid s op = 0" by (cases op) (auto simp: claims_of_def)
  from d show ?thesis
  proof (cases rule: diag_step_jobs [where C = C and P = P and op = op])
    case reshape
    with reshaped_counts(3) [OF reshape, of jid] z show ?thesis by (simp add: waiting_def)
  next
    case (new clk free jid' q sealed mid)
    with reshaped_counts(3) [OF new(2), of jid] z show ?thesis
      by (auto simp: waiting_def count_jobs_def accepted_as_def)
  qed
qed

interpretation diag_starts: step_budget "diag_step C P" "\<lambda>s. distinct (map dj_id (diag_jobs s))" "claims_of jid"
    "accepted_as jid C P" "waiting jid"
  by unfold_locales (auto intro: step_ids step_spends)

text \<open>
  C14: over any run from an empty store, a job id is handed to a worker at most as often as a
  submission was accepted under that id; nothing else, a cancellation, an abort, a restart of the
  scheduler, puts a run back in the queue.
\<close>

theorem diagnostic_starts_at_most_once:
  "run_total (diag_step C P) (claims_of jid) empty_diag_store ops
     \<le> run_total (diag_step C P) (accepted_as jid C P) empty_diag_store ops"
  by (rule order_trans [OF diag_starts.run_spend]) (simp_all add: empty_diag_store_def waiting_def count_jobs_def row_count_def)

section \<open>Outcomes stay\<close>






section \<open>Fences\<close>

text \<open>
  A worker whose token does not hold the run, or whose run is no longer running (cancelled,
  aborted or recovered in between), cannot report progress, cannot store results and cannot
  obtain the right to send a remote change.
\<close>

theorem stale_diagnostic_worker_changes_nothing:
  assumes "\<not> (\<exists>j\<in>set (diag_jobs s). dj_id j = jid \<and> dj_token j = token \<and> dj_state j = DRunning)"
  shows "snd (progress C jid token summary s) = s \<and> fst (progress C jid token summary s) \<noteq> Inr True \<and>
    snd (finish C clk jid token rows summary s) = s \<and> fst (finish C clk jid token rows summary s) \<noteq> Inr True \<and>
    advance_mutation_revision target jid token reviewed s = (False, s)"
proof -
  have p: "snd (progress C jid token summary s) = s \<and> fst (progress C jid token summary s) \<noteq> Inr True"
    using assms by (auto simp: progress_def Let_def update_rows_none count_jobs_def row_count_def filter_empty_conv split: sum.splits)
  have f: "snd (finish C clk jid token rows summary s) = s \<and> fst (finish C clk jid token rows summary s) \<noteq> Inr True"
  proof (cases rule: finish_cases [of C clk jid token rows summary s])
    case (finished encoded raw j)
    with select_first_Some [OF finished(4)] assms show ?thesis by auto
  qed simp
  from p f assms show ?thesis by (simp add: advance_mutation_revision_def)
qed

definition advances :: "string \<Rightarrow> diag_op \<Rightarrow> bool" where
  "advances target op = (case op of Advance target' jid token reviewed \<Rightarrow> target' = target | _ \<Rightarrow> False)"

lemma prune_targets [simp]: "diag_targets (prune clk P r s) = diag_targets s"
  by (simp add: prune_def Let_def delete_jobs_def drop_receipts_def)

lemma before_admission_targets [simp]: "diag_targets (before_admission clk P s) = diag_targets s"
  by (simp add: before_admission_def drop_receipts_def)

lemma submit_targets: "diag_targets (snd (submit C clk P free jid q s)) = diag_targets s"
  by (cases rule: submit_cases [of C clk P free jid q s]) (simp_all add: drop_receipts_def after_admission_def)

lemma step_revision: "\<not> advances target op \<Longrightarrow> mutation_revision target (diag_step C P s op) = mutation_revision target s"
proof (cases op)
  case (Cancel clk jid user)
  then show ?thesis
    by (auto simp: diag_step_def cancel_job_def Let_def diag_tx_def bindE_eq_Inr mutation_revision_def only_configs_def
        dest!: scrub_export_Inr split: sum.splits)
next
  case (Release jid token)
  then show ?thesis
    by (auto simp: diag_step_def release_def Let_def diag_tx_def bindE_eq_Inr mutation_revision_def only_configs_def
        dest!: scrub_all_Inr split: sum.splits)
next
  case (Recover clk)
  then show ?thesis
    by (auto simp: diag_step_def recover_def Let_def diag_tx_def bindE_eq_Inr mutation_revision_def only_configs_def
        dest!: scrub_all_Inr split: sum.splits)
next
  case (Cleanup clk)
  then show ?thesis
    by (auto simp: diag_step_def cleanup_def diag_tx_def bindE_eq_Inr mutation_revision_def only_configs_def
        dest!: scrub_all_Inr split: sum.splits)
next
  case (Abort clk jid token st err)
  then show ?thesis
    by (auto simp: diag_step_def abort_def Let_def diag_tx_def bindE_eq_Inr mutation_revision_def split: sum.splits)
next
  case (Finish clk jid token rows summary)
  then show ?thesis
    by (cases rule: finish_cases [of C clk jid token rows summary s]) (simp_all add: diag_step_def mutation_revision_def)
next
  case (Advance target' jid token reviewed)
  assume "\<not> advances target op"
  with Advance show ?thesis
    by (simp add: diag_step_def advances_def advance_mutation_revision_def mutation_revision_def)
qed (simp_all add: diag_step_def mutation_revision_def submit_targets claim_job_def progress_def Let_def split: option.splits sum.splits)

text \<open>
  C16: of two runs that reviewed the same revision of a remote target only one may change it: once
  the first has advanced the revision, the second is refused, whatever other operations ran in
  between, as long as none of them advances that target.
\<close>

theorem reviewed_revision_is_used_once:
  assumes "fst (advance_mutation_revision target a ta reviewed s)" "a \<noteq> b" "reviewed \<noteq> a"
    and "\<forall>op\<in>set ops. \<not> advances target op"
    and "s' = foldl (diag_step C P) (snd (advance_mutation_revision target a ta reviewed s)) ops"
  shows "advance_mutation_revision target b tb reviewed s' = (False, s')"
proof -
  have "mutation_revision target (foldl (diag_step C P) t ops) = mutation_revision target t" for t
    using assms(4) by (induction ops arbitrary: t) (simp_all add: step_revision)
  moreover have "mutation_revision target (snd (advance_mutation_revision target a ta reviewed s)) = a"
    using assms(1) by (auto simp: advance_mutation_revision_def mutation_revision_def [of target "s\<lparr>diag_targets := _\<rparr>"] split: if_splits)
  ultimately have "mutation_revision target s' = a" by (simp only: assms(5))
  with assms(2,3) show ?thesis by (simp add: advance_mutation_revision_def)
qed

section \<open>One run per reviewed preview\<close>

text \<open>Only admission and cleanup drop receipts, when the clock has passed their expiry.\<close>

definition before_expiry :: "real \<Rightarrow> diag_op \<Rightarrow> bool" where
  "before_expiry t op = (case op of Submit clk free jid q \<Rightarrow> \<forall>k. clk k \<le> t | Cleanup clk \<Rightarrow> \<forall>k. clk k \<le> t | _ \<Rightarrow> True)"

definition unique_receipts :: "diag_store \<Rightarrow> bool" where
  "unique_receipts s \<longleftrightarrow> distinct (map rc_key (diag_receipts s))"

lemma prune_receipts: "diag_receipts (prune clk P r s) = delete_rows (\<lambda>r. rc_expires r < clk 0) (diag_receipts s)"
  by (simp add: prune_def Let_def delete_jobs_def drop_receipts_def)

lemma before_admission_receipts:
  "diag_receipts (before_admission clk P s) =
     delete_rows (\<lambda>r. rc_expires r < clk 1) (delete_rows (\<lambda>r. rc_expires r < clk 0) (diag_receipts s))"
  by (simp add: before_admission_def prune_receipts drop_receipts_def)

lemma step_receipts:
  obtains (same) "diag_receipts (diag_step C P s op) = diag_receipts s"
  | (submit) clk free jid q where "op = Submit clk free jid q"
  | (cleanup) clk where "op = Cleanup clk"
      "diag_receipts (diag_step C P s op) = delete_rows (\<lambda>r. rc_expires r < clk 0) (diag_receipts s)"
proof (cases op)
  case (Cancel clk jid user)
  then show ?thesis
    by (intro same) (auto simp: diag_step_def cancel_job_def Let_def diag_tx_def bindE_eq_Inr only_configs_def
        dest!: scrub_export_Inr split: sum.splits)
next
  case (Release jid token)
  then show ?thesis
    by (intro same) (auto simp: diag_step_def release_def Let_def diag_tx_def bindE_eq_Inr only_configs_def
        dest!: scrub_all_Inr split: sum.splits)
next
  case (Recover clk)
  then show ?thesis
    by (intro same) (auto simp: diag_step_def recover_def Let_def diag_tx_def bindE_eq_Inr only_configs_def
        dest!: scrub_all_Inr split: sum.splits)
next
  case (Cleanup clk)
  show ?thesis
  proof (cases "scrub_all C [] (prune clk P False s)")
    case (Inl e)
    with Cleanup show ?thesis by (intro same) (simp add: diag_step_def cleanup_def)
  next
    case (Inr s')
    with scrub_all_Inr [OF Inr] Cleanup show ?thesis
      by (intro cleanup) (simp_all add: diag_step_def cleanup_def only_configs_def prune_receipts)
  qed
next
  case (Abort clk jid token st err)
  then show ?thesis
    by (intro same) (auto simp: diag_step_def abort_def Let_def diag_tx_def bindE_eq_Inr split: sum.splits)
next
  case (Finish clk jid token rows summary)
  then show ?thesis
    by (cases rule: finish_cases [of C clk jid token rows summary s]) (auto intro: same simp: diag_step_def)
next
  case (Submit clk free jid q)
  then show ?thesis by (rule submit)
qed (intro same; simp add: diag_step_def claim_job_def progress_def Let_def advance_mutation_revision_def split: option.splits sum.splits)+

lemma submit_receipts_fresh:
  assumes "unique_receipts s"
  shows "unique_receipts (snd (submit C clk P free jid q s))"
proof (cases rule: submit_cases [of C clk P free jid q s])
  case (admitted sealed)
  let ?old = "diag_receipts (before_admission clk P s)"
  have d: "distinct (map rc_key ?old)"
    using assms unfolding before_admission_receipts unique_receipts_def by (intro distinct_delete_rows)
  have "rc_key r \<noteq> k" if "rq_key (norm_request q) = Some k" "r \<in> set ?old" for k r
    using admitted(1) that by (auto simp: before_admission_receipts drop_receipts_def)
  with d show ?thesis
    by (auto simp: admitted(4) after_admission_def unique_receipts_def split: option.splits)
qed (use assms in \<open>auto simp: unique_receipts_def drop_receipts_def\<close>)

lemma step_unique_receipts: "unique_receipts s \<Longrightarrow> unique_receipts (diag_step C P s op)"
proof (cases rule: step_receipts [of C P s op])
  case (submit clk free jid q)
  assume "unique_receipts s"
  with submit show ?thesis by (simp add: diag_step_def submit_receipts_fresh)
qed (auto simp: unique_receipts_def)

lemma receipt_kept:
  assumes "r \<in> set (diag_receipts s)" "before_expiry (rc_expires r) op"
  shows "r \<in> set (diag_receipts (diag_step C P s op))"
proof (cases rule: step_receipts [of C P s op])
  case (submit clk free jid q)
  then have "\<forall>k. clk k \<le> rc_expires r" using assms(2) by (simp add: before_expiry_def)
  then have late: "\<not> rc_expires r < clk k" for k by (simp add: not_less)
  have "r \<in> set (diag_receipts (snd (submit C clk P free jid q s)))"
    using assms(1) late
    by (cases rule: submit_cases [of C clk P free jid q s])
      (auto simp: drop_receipts_def after_admission_def before_admission_receipts split: option.splits)
  with submit show ?thesis by (simp add: diag_step_def)
next
  case (cleanup clk)
  with assms show ?thesis by (auto simp: before_expiry_def not_less)
qed (use assms in simp)

interpretation diag_receipt_keys: step_system "diag_step C P" unique_receipts
  by unfold_locales (rule step_unique_receipts)

text \<open>
  C17: a reviewed preview starts at most one run.  After a submission with a preview key was
  admitted as \<open>jid\<close>, and until its receipt expires, every further submission with that key,
  by anyone, either returns \<open>jid\<close> again or is refused, and never adds a run, whatever other
  operations ran in between, even if the run itself was pruned.
\<close>

theorem preview_starts_one_run:
  assumes "fst (submit C clk P free jid q (foldl (diag_step C P) empty_diag_store ops0)) = Inr jid"
    and "rq_key q = Some k" "k \<noteq> []"
    and "s = snd (submit C clk P free jid q (foldl (diag_step C P) empty_diag_store ops0))"
    and "\<forall>r\<in>set (diag_receipts s). rc_key r = k \<longrightarrow> (\<forall>op\<in>set ops. before_expiry (rc_expires r) op) \<and> (\<forall>n. clk' n \<le> rc_expires r)"
    and "s' = foldl (diag_step C P) s ops"
    and "rq_key q' = Some k"
  shows "fst (submit C clk' P free' jid' q' s') \<in> {Inr jid} \<union> range Inl \<and>
    diag_jobs (snd (submit C clk' P free' jid' q' s')) = diag_jobs s'"
proof -
  let ?s0 = "foldl (diag_step C P) empty_diag_store ops0"
  have key: "rq_key (norm_request q) = Some k" "rq_key (norm_request q') = Some k"
    using assms(2,3,7) by (simp_all add: norm_request_def)
  have u0: "unique_receipts ?s0"
    by (rule diag_receipt_keys.run_invar) (simp add: unique_receipts_def empty_diag_store_def)
  have u: "unique_receipts s" unfolding assms(4) by (rule submit_receipts_fresh [OF u0])
  have u': "unique_receipts s'" unfolding assms(6) by (rule diag_receipt_keys.run_invar [OF u])
  obtain r where r: "r \<in> set (diag_receipts s)" "rc_key r = k" "rc_job r = jid"
  proof (cases rule: submit_cases [of C clk P free jid q ?s0])
    case (known r)
    with assms(1,4) key that [of r] show thesis by (auto simp: drop_receipts_def)
  next
    case (admitted sealed)
    let ?r = "\<lparr>rc_key = k, rc_user = rq_user (norm_request q), rc_job = jid, rc_expires = clk 4 + receipt_life (rq_tool (norm_request q))\<rparr>"
    have "?r \<in> set (diag_receipts s)" using assms(4) key admitted(4) by (simp add: after_admission_def)
    then show thesis by (rule that) simp_all
  qed (use assms(1) in simp)
  have kept: "r \<in> set (diag_receipts (foldl (diag_step C P) t as))"
    if "r \<in> set (diag_receipts t)" "\<forall>op\<in>set as. before_expiry (rc_expires r) op" for t as
    using that by (induction as arbitrary: t) (simp_all add: receipt_kept)
  have r': "r \<in> set (diag_receipts s')" unfolding assms(6) using kept r assms(5) by blast
  have live: "r \<in> set (diag_receipts (drop_receipts (clk' 0) s'))"
    using r' assms(5) r by (auto simp: drop_receipts_def not_less)
  show ?thesis
  proof (cases rule: submit_cases [of C clk' P free' jid' q' s'])
    case (known x)
    then have "x \<in> set (diag_receipts s')" "rc_key x = rc_key r" using key r by (auto simp: drop_receipts_def)
    then have "x = r" using key_unique [OF u' [unfolded unique_receipts_def] _ r'] by blast
    with known r show ?thesis by (simp add: drop_receipts_def)
  next
    case (admitted sealed)
    with live key r show ?thesis by auto
  qed simp
qed

section \<open>Results read back\<close>

lemma map_result_all: "(\<And>x. x \<in> set xs \<Longrightarrow> f x = Inr (g x)) \<Longrightarrow> map_result f xs = Inr (map g xs)"
  by (induction xs) simp_all

lemma dumps_strict_Inr: "dumps_strict L j = Inr t \<Longrightarrow> t = dumps_at L 0 j"
  by (simp add: dumps_strict_def split: if_splits)

lemma sealed_rows_sorted:
  "map dr_position (sealed_rows C jid rows encoded) = [0..<min (length rows) (length encoded)]"
  by (rule nth_equalityI) (simp_all add: sealed_rows_def)

lemma open_sealed_rows:
  assumes C: "fernet_ok C" and wf: "list_all wf_json rows" and enc: "map_result (dumps_strict compact_layout) rows = Inr encoded"
  shows "map_result (open_row C jid) (sealed_rows C jid rows encoded) = Inr rows"
proof -
  have e: "encoded = map (dumps_at compact_layout 0) rows"
  proof -
    have "projr (dumps_strict compact_layout x) = dumps_at compact_layout 0 x" if "x \<in> set rows" for x
      using map_result_Inr [OF enc] that dumps_strict_Inr by (metis sum.sel(2))
    with map_result_Inr [OF enc] show ?thesis by simp
  qed
  have "map_result (open_row C jid) (sealed_rows C jid rows encoded)
      = Inr (map (\<lambda>r. rows ! dr_position r) (sealed_rows C jid rows encoded))"
  proof (rule map_result_all)
    fix r assume "r \<in> set (sealed_rows C jid rows encoded)"
    then obtain i where i: "i < length rows" "r = \<lparr>dr_job = jid, dr_position = i, dr_open = row_status (rows ! i),
        dr_payload = seal C (dumps_at compact_layout 0 (rows ! i)) (row_context jid i)\<rparr>"
      by (auto simp: sealed_rows_def e set_zip in_set_conv_nth)
    have "wf_json (rows ! i)" using wf i by (simp add: list_all_length)
    then show "open_row C jid r = Inr (rows ! dr_position r)"
      by (simp add: i open_row_def open_seal [OF C] json_loads_def loads_dumps)
  qed
  also have "map (\<lambda>r. rows ! dr_position r) (sealed_rows C jid rows encoded) = map ((!) rows) (map dr_position (sealed_rows C jid rows encoded))"
    by simp
  also have "\<dots> = rows" by (simp only: sealed_rows_sorted) (simp add: e map_nth)
  finally show ?thesis .
qed

text \<open>
  The rows a worker stores when it finishes are exactly the rows its owner reads: after a
  successful \<open>finish\<close> of a run that had no rows, \<open>completed_rows\<close> returns them all, in
  order.
\<close>

theorem finished_rows_read_back:
  assumes "fernet_ok C" "list_all wf_json rows" "\<forall>r\<in>set (diag_rows s). dr_job r \<noteq> jid"
    and "fst (finish C clk jid token rows summary s) = Inr True"
    and "j \<in> set (diag_jobs s)" "dj_id j = jid"
  shows "completed_rows C jid (dj_user j) (dj_tool j) (snd (finish C clk jid token rows summary s)) = Inr (Some rows)"
proof (cases rule: finish_cases [of C clk jid token rows summary s])
  case (finished encoded raw i)
  let ?s = "snd (finish C clk jid token rows summary s)"
  have "\<exists>x\<in>set (diag_jobs ?s). dj_id x = jid \<and> dj_user x = dj_user j \<and> dj_tool x = dj_tool j \<and> dj_state x = DSucceeded"
  proof (rule bexI)
    let ?j = "j\<lparr>dj_state := DSucceeded, dj_summary := seal C raw (summary_context jid), dj_completed := Some (clk 0)\<rparr>"
    show "?j \<in> set (diag_jobs ?s)"
      using update_rows_in [OF assms(5), of "\<lambda>r. dj_id r = jid"
          "\<lambda>r. r\<lparr>dj_state := DSucceeded, dj_summary := seal C raw (summary_context jid), dj_completed := Some (clk 0)\<rparr>"] assms(6)
      by (simp add: finished(7))
  qed (use assms(6) in simp)
  moreover have "job_rows jid ?s = sealed_rows C jid rows encoded"
  proof -
    have "filter (\<lambda>r. dr_job r = jid) (diag_rows s) = []" using assms(3) by (simp add: filter_empty_conv)
    moreover have "filter (\<lambda>r. dr_job r = jid) (sealed_rows C jid rows encoded) = sealed_rows C jid rows encoded"
      by (auto simp: sealed_rows_def filter_id_conv)
    ultimately show ?thesis
      by (simp add: finished(7) job_rows_def sort_key_id_if_sorted sealed_rows_sorted)
  qed
  ultimately show ?thesis
    using open_sealed_rows [OF assms(1,2) finished(2), of jid] by (simp add: completed_rows_def)
qed (use assms(4) in simp)

section \<open>Recovery\<close>







end
