(* ===== verification/Diagnostic_Witnesses.thy ===== *)
theory Diagnostic_Witnesses
  imports Diagnostic_Facts Demo_Cipher
begin

text \<open>Concrete stores on which the hypotheses of the diagnostic queue's properties hold.\<close>

definition demo_policy :: diag_policy where
  "demo_policy = \<lparr>history_limit = 10, queue_limit = 5, user_limit = 2, timeout_seconds = 300, retention_hours = 24,
     artifact_max_mib = 128, export_max_mib = 128, export_input_mib = 16, export_pdf_cells = 50000,
     minimum_free_gib = 2, upload_limit = 1048576, transfer_policy = []\<rparr>"

definition demo_settled :: diag_job where
  "demo_settled = \<lparr>dj_id = ''r0'', dj_user = ''u'', dj_tool = ''dns'', dj_state = DSucceeded, dj_token = [],
     dj_config = ''{}'', dj_summary = ''{}'', dj_error = [], dj_created = 1, dj_started = Some 2, dj_completed = Some 3, dj_timeout = 300\<rparr>"

definition demo_run :: diag_job where
  "demo_run = \<lparr>dj_id = ''r1'', dj_user = ''u'', dj_tool = ''dns'', dj_state = DRunning, dj_token = ''t'',
     dj_config = ''{}'', dj_summary = ''{}'', dj_error = [], dj_created = 4, dj_started = Some 5, dj_completed = None, dj_timeout = 300\<rparr>"

definition demo_diag :: diag_store where
  "demo_diag = \<lparr>diag_jobs = [demo_settled, demo_run], diag_rows = [], diag_receipts = [], diag_targets = []\<rparr>"

lemmas demo_diag_defs = demo_diag_def demo_settled_def demo_run_def



theorem stale_diagnostic_worker_changes_nothing_witness:
  "snd (finish demo_cipher (\<lambda>_. 9) ''r1'' ''old'' [JNull] JNull demo_diag) = demo_diag"
  by (rule stale_diagnostic_worker_changes_nothing [THEN conjunct2, THEN conjunct2, THEN conjunct1])
    (simp add: demo_diag_defs)

theorem reviewed_revision_is_used_once_witness:
  "\<exists>s'. advance_mutation_revision ''fw'' ''r2'' ''t2'' [] s' = (False, s')"
  by (rule exI, rule reviewed_revision_is_used_once [where a = "''r1''" and ta = "''t''" and s = demo_diag and ops = "[]", OF _ _ _ _ refl])
    (simp_all add: advance_mutation_revision_def demo_diag_defs mutation_revision_def)

definition demo_request :: diag_request where
  "demo_request = \<lparr>rq_user = ''u'', rq_config = [], rq_tool = ''dns'', rq_key = Some ''k''\<rparr>"

lemma demo_submit:
  "submit demo_cipher (\<lambda>_. 0) demo_policy 1000000000000 ''r5'' demo_request empty_diag_store =
     (Inr ''r5'', \<lparr>diag_jobs = [new_diag_job ''r5'' demo_request ''{}'' 0 demo_policy], diag_rows = [],
        diag_receipts = [\<lparr>rc_key = ''k'', rc_user = ''u'', rc_job = ''r5'', rc_expires = 901\<rparr>], diag_targets = []\<rparr>)"
  by (simp add: submit_def Let_def norm_request_def demo_request_def diag_tools_def with_limits_def inventory_tools_def
      dumps_strict_def seal_def admit_tx_def before_admission_def prune_def drop_receipts_def delete_jobs_def
      empty_diag_store_def select_first_def admission_error_def count_jobs_def row_count_def reserved_bytes_def
      sum_result_def export_tools_def mib_def demo_policy_def receipt_life_def preview_max_age_def)

theorem preview_starts_one_run_witness:
  "\<exists>s'. fst (submit demo_cipher (\<lambda>_. 5) demo_policy 1000000000000 ''r6'' demo_request s') \<in> {Inr ''r5''} \<union> range Inl"
  using preview_starts_one_run [of demo_cipher "\<lambda>_. 0" demo_policy 1000000000000 "''r5''" demo_request "[]" "''k''"
      _ "[Cleanup (\<lambda>_. 5)]" "\<lambda>_. 5" _ demo_request 1000000000000 "''r6''", OF _ _ _ refl _ refl]
  by (auto simp: demo_submit before_expiry_def demo_request_def [THEN arg_cong [of _ _ rq_key]])

theorem finished_rows_read_back_witness:
  "completed_rows demo_cipher ''r1'' ''u'' ''dns''
     (snd (finish demo_cipher (\<lambda>_. 9) ''r1'' ''t'' [JObj [(''status'', JStr ''open'')], JInt 7] JNull demo_diag))
     = Inr (Some [JObj [(''status'', JStr ''open'')], JInt 7])"
proof -
  have "fst (finish demo_cipher (\<lambda>_. 9) ''r1'' ''t'' [JObj [(''status'', JStr ''open'')], JInt 7] JNull demo_diag) = Inr True"
    by (simp add: finish_def dumps_strict_def max_result_rows_def max_result_bytes_def select_first_def demo_diag_defs
        json_string_def escaped_def json_escape_def compact_layout_def show_int_def show_nat.simps)
  from finished_rows_read_back [OF demo_fernet _ _ this, of demo_run] show ?thesis
    by (simp add: demo_diag_defs)
qed


end
