(* ===== verification/Net_Bytes.thy ===== *)
theory Net_Bytes
  imports Json_Text
begin

unbundle bit_operations_syntax

text \<open>
  What the packet tools share: big-endian fields of a buffer, hexadecimal and dotted-decimal text,
  MAC addresses, and the Internet checksum.  Field readers are used behind the length checks of
  the code; a read past the end is the exception of \<open>struct\<close>.
\<close>

section \<open>Fields of a buffer\<close>

text \<open>\<open>struct.unpack_from('!H', data, off)\<close> and \<open>'!I'\<close>, for an offset inside the data.\<close>

definition u16_at :: "bytes \<Rightarrow> nat \<Rightarrow> nat" where
  "u16_at data i = from_be (slice i (i + 2) data)"

definition u32_at :: "bytes \<Rightarrow> nat \<Rightarrow> nat" where
  "u32_at data i = from_be (slice i (i + 4) data)"

definition byte_at :: "bytes \<Rightarrow> nat \<Rightarrow> nat" where
  "byte_at data i = (if i < length data then unat (data ! i) else 0)"

definition zeros :: "nat \<Rightarrow> bytes" where
  "zeros n = replicate n 0"

lemma length_zeros [simp]: "length (zeros n) = n"
  by (simp add: zeros_def)

lemma slice_append:
  "slice i j (xs @ ys) = slice i j xs @ slice (i - length xs) (j - length xs) ys"
  by (cases "i \<le> length xs") (auto simp: slice_def min_def)

lemma slice_whole [simp]: "length xs \<le> j \<Longrightarrow> slice 0 j xs = xs"
  by (simp add: slice_def)

lemma slice_empty: "j \<le> i \<or> length xs \<le> i \<Longrightarrow> slice i j xs = []"
  by (auto simp: slice_def)

lemma slice_numeral_Cons [simp]:
  "slice 0 (Suc j) (x # xs) = x # slice 0 j xs" "slice (Suc i) (Suc j) (x # xs) = slice i j xs"
  "slice i j [] = []" "slice i 0 xs = []"
  by (simp_all add: slice_def)

lemma slice_drop: "slice i j xs = slice 0 (j - i) (drop i xs)"
  by (simp add: slice_def)

lemma slice_shift: "slice (length xs + i) (length xs + j) (xs @ ys) = slice i j ys"
  by (simp add: slice_def)

lemma u16_shift: "u16_at (xs @ ys) (length xs + i) = u16_at ys i"
  by (simp add: u16_at_def slice_def)

lemma u16_be16: "n < 65536 \<Longrightarrow> u16_at (be16 n @ ys) 0 = n"
  by (simp add: u16_at_def slice_append slice_empty from_be_be16)

section \<open>Text of bytes\<close>

definition hex2 :: "byte \<Rightarrow> string" where
  "hex2 b = [hex_digit (unat b div 16), hex_digit (unat b mod 16)]"

text \<open>\<open>data.hex()\<close> and \<open>data.hex(sep)\<close>.\<close>

definition bytes_hex :: "bytes \<Rightarrow> string" where
  "bytes_hex bs = concat (map hex2 bs)"

definition bytes_hex_sep :: "string \<Rightarrow> bytes \<Rightarrow> string" where
  "bytes_hex_sep sep bs = join_with sep (map hex2 bs)"

definition ip4_text :: "bytes \<Rightarrow> string" where
  "ip4_text bs = join_with ''.'' (map (\<lambda>b. show_nat (unat b)) bs)"

definition is_hex :: "char \<Rightarrow> bool" where
  "is_hex c \<longleftrightarrow> hex_value c \<noteq> None"

text \<open>\<open>re.sub(r'[^0-9A-Fa-f]', '', value)\<close>.\<close>

definition keep_hex :: "string \<Rightarrow> string" where
  "keep_hex s = filter is_hex s"

text \<open>\<open>bytes.fromhex\<close> of a text of hexadecimal digits.\<close>

definition from_hex :: "string \<Rightarrow> bytes option" where
  "from_hex s = map_option (map of_nat) (fromhex s)"

text \<open>The hexadecimal pairs of a text, joined by colons.\<close>

fun pairs :: "string \<Rightarrow> string list" where
  "pairs (a # b # cs) = [a, b] # pairs cs"
| "pairs _ = []"

definition strip_colons :: "string \<Rightarrow> string" where
  "strip_colons s = filter (\<lambda>c. c \<noteq> CHR '':'') s"

lemma hex_digit_facts:
  assumes "n < 16"
  shows "hex_value (hex_digit n) = Some n" "\<not> ascii_space (hex_digit n)" "is_hex (hex_digit n)"
    "hex_digit n \<noteq> CHR '':''" "\<not> py_space (hex_digit n)" "hex_digit n \<noteq> CHR ''|''"
proof -
  show h: "hex_value (hex_digit n) = Some n" using assms by (rule hex_value_digit)
  show "\<not> ascii_space (hex_digit n)" "\<not> py_space (hex_digit n)"
    using assms by (auto simp: hex_digit_def ascii_space_def py_space_def of_char_of Let_def)
  show "is_hex (hex_digit n)" using h by (simp add: is_hex_def)
  show "hex_digit n \<noteq> CHR '':''" "hex_digit n \<noteq> CHR ''|''"
    using h by (auto simp: hex_value_def)
qed

lemma unat_byte_div: "unat (b :: byte) div 16 < 16"
  using unat_byte_less [of b] by (simp add: less_mult_imp_div_less)

lemma fromhex_hex2: "fromhex (hex2 b @ s) = map_option (Cons (unat b)) (fromhex s)"
  using hex_digit_facts [OF unat_byte_div [of b]] hex_digit_facts [of "unat b mod 16"]
  by (simp add: hex2_def)

lemma from_hex_bytes: "from_hex (bytes_hex bs) = Some bs"
proof -
  have "fromhex (bytes_hex bs) = Some (map unat bs)"
    by (induction bs) (simp_all add: bytes_hex_def fromhex_hex2)
  then show ?thesis by (simp add: from_hex_def o_def)
qed

lemma keep_hex_bytes: "keep_hex (bytes_hex bs) = bytes_hex bs"
proof -
  have "list_all is_hex (hex2 b)" for b
    using hex_digit_facts [OF unat_byte_div [of b]] hex_digit_facts [of "unat b mod 16"] by (simp add: hex2_def)
  then show ?thesis by (auto simp: keep_hex_def bytes_hex_def list_all_iff filter_id_conv)
qed

lemma length_bytes_hex [simp]: "length (bytes_hex bs) = 2 * length bs"
  by (induction bs) (simp_all add: bytes_hex_def hex2_def)

section \<open>Comprehensions whose element may raise\<close>

fun collect :: "('a \<Rightarrow> 'b result) \<Rightarrow> 'a list \<Rightarrow> 'b list result" where
  "collect f [] = Inr []"
| "collect f (p # ps) = bindE (f p) (\<lambda>q. bindE (collect f ps) (\<lambda>qs. Inr (q # qs)))"

lemma collect_comp: "collect f (map g xs) = collect (\<lambda>x. f (g x)) xs"
  by (induction xs) simp_all

section \<open>Numbers an operator types\<close>

text \<open>
  \<open>int(text, 10)\<close>: surrounding white space, a sign, digits with single underscores between.
\<close>

definition py_int :: "string \<Rightarrow> int option" where
  "py_int s = (let t = py_strip s;
       negative = (t \<noteq> [] \<and> hd t = CHR ''-'');
       body = (if t \<noteq> [] \<and> (hd t = CHR ''-'' \<or> hd t = CHR ''+'') then tl t else t);
       groups = split_on (CHR ''_'') body
     in if list_all (\<lambda>g. g \<noteq> [] \<and> list_all py_digit g) groups
        then Some ((if negative then - 1 else 1) * int (decimal_value (concat groups))) else None)"

text \<open>Python's \<open>repr\<close> of a text.\<close>

definition py_quote :: "string \<Rightarrow> char" where
  "py_quote s = (if CHR 39 \<in> set s \<and> CHR 34 \<notin> set s then CHR 34 else CHR 39)"

definition repr_char :: "char \<Rightarrow> char \<Rightarrow> string" where
  "repr_char q c = (let n = (of_char c :: nat) in
     if c = q \<or> n = 92 then [CHR 92, c] else if n = 10 then [CHR 92, CHR ''n''] else if n = 13 then [CHR 92, CHR ''r'']
     else if n = 9 then [CHR 92, CHR ''t'']
     else if n < 32 \<or> (127 \<le> n \<and> n \<le> 160) \<or> n = 173 then [CHR 92, CHR ''x'', hex_digit (n div 16), hex_digit (n mod 16)]
     else [c])"

definition repr_string :: "string \<Rightarrow> string" where
  "repr_string s = (let q = py_quote s in q # concat (map (repr_char q) s) @ [q])"

text \<open>\<open>re.split(r'[\s,]+', value)\<close> without the empty parts.\<close>

fun split_by :: "(char \<Rightarrow> bool) \<Rightarrow> string \<Rightarrow> string list" where
  "split_by p [] = [[]]"
| "split_by p (c # cs) = (if p c then [] # split_by p cs
     else (case split_by p cs of [] \<Rightarrow> [[c]] | w # ws \<Rightarrow> (c # w) # ws))"

definition comma_words :: "string \<Rightarrow> string list" where
  "comma_words s = filter (\<lambda>w. w \<noteq> []) (split_by (\<lambda>c. py_space c \<or> c = CHR '','') s)"

section \<open>The Internet checksum\<close>

text \<open>\<open>struct.unpack(f'!{len(data) // 2}H', data)\<close> for data of even length.\<close>

fun words16 :: "bytes \<Rightarrow> nat list" where
  "words16 (a # b # bs) = from_be [a, b] # words16 bs"
| "words16 _ = []"

text \<open>\<open>while total >> 16: total = (total & 0xFFFF) + (total >> 16)\<close>.\<close>

function fold_carries :: "nat \<Rightarrow> nat" where
  "fold_carries n = (if n div 65536 = 0 then n else fold_carries (n mod 65536 + n div 65536))"
  by pat_completeness auto
termination
proof (relation "measure id")
  fix n :: nat
  show "n div 65536 \<noteq> 0 \<Longrightarrow> (n mod 65536 + n div 65536, n) \<in> measure id"
  proof -
    assume "n div 65536 \<noteq> 0"
    then have "0 < n div 65536" by simp
    with mult_div_mod_eq [of 65536 n] have "n mod 65536 + n div 65536 < n" by linarith
    then show ?thesis by simp
  qed
qed simp

declare fold_carries.simps [simp del]

definition internet_checksum :: "bytes \<Rightarrow> nat" where
  "internet_checksum data =
     (let padded = (if odd (length data) then data @ [0] else data)
      in 65535 - fold_carries (sum_list (words16 padded)))"

lemma fold_carries_bound: "fold_carries n < 65536"
proof (induction n rule: fold_carries.induct)
  case (1 n)
  show ?case
  proof (cases "n div 65536 = 0")
    case True
    then show ?thesis by (simp add: fold_carries.simps [of n] div_eq_0_iff)
  next
    case False
    with 1 show ?thesis by (simp add: fold_carries.simps [of n])
  qed
qed

text \<open>End-around carry is arithmetic modulo 65535, with zero only for zero.\<close>

lemma fold_carries_mod: "fold_carries n mod 65535 = n mod 65535 \<and> (fold_carries n = 0 \<longleftrightarrow> n = 0)"
proof (induction n rule: fold_carries.induct)
  case (1 n)
  show ?case
  proof (cases "n div 65536 = 0")
    case True
    then show ?thesis by (simp add: fold_carries.simps [of n])
  next
    case False
    have "n = (n mod 65536 + n div 65536) + 65535 * (n div 65536)"
      using mult_div_mod_eq [of 65536 n] by simp
    then have "n mod 65535 = (n mod 65536 + n div 65536) mod 65535"
      by (metis mod_mult_self2)
    moreover have "n mod 65536 + n div 65536 = 0 \<longleftrightarrow> n = 0"
      using False by auto
    ultimately show ?thesis
      using 1 [OF False] False by (simp add: fold_carries.simps [of n])
  qed
qed

lemma words16_append: "even (length xs) \<Longrightarrow> words16 (xs @ ys) = words16 xs @ words16 ys"
  by (induction xs rule: words16.induct) simp_all

lemma words16_be16: "n < 65536 \<Longrightarrow> words16 (be16 n) = [n]"
  using from_be_be16 [of n] by (simp add: be16_def)

lemma all_ones: "n mod 65535 = 0 \<Longrightarrow> n < 65536 \<Longrightarrow> n \<noteq> 0 \<Longrightarrow> n = (65535 :: nat)"
proof -
  assume a: "n mod 65535 = 0" "n < 65536" "n \<noteq> 0"
  then obtain q where q: "n = 65535 * q" by (auto simp: mod_eq_0_iff_dvd dvd_def)
  with a have "0 < q" "q < 2" by linarith+
  then have "q = 1" by simp
  with q show ?thesis by simp
qed

lemma carries_complement: "fold_carries (t + (65535 - fold_carries t)) = 65535"
proof -
  define f where "f = fold_carries t"
  have f: "f \<le> 65535" "f mod 65535 = t mod 65535" "f = 0 \<longleftrightarrow> t = 0"
    using fold_carries_bound [of t] fold_carries_mod [of t] by (simp_all add: f_def)
  have "(t + (65535 - f)) mod 65535 = (f + (65535 - f)) mod 65535"
    using f(2) by (metis mod_add_left_eq)
  also have "f + (65535 - f) = 65535" using f(1) by simp
  finally have "fold_carries (t + (65535 - f)) mod 65535 = 0"
    using fold_carries_mod [of "t + (65535 - f)"] by simp
  moreover have "t + (65535 - f) \<noteq> 0" using f by linarith
  then have "fold_carries (t + (65535 - f)) \<noteq> 0" using fold_carries_mod [of "t + (65535 - f)"] by metis
  ultimately show ?thesis using all_ones [OF _ fold_carries_bound] by (simp add: f_def)
qed

text \<open>A header whose checksum field, zero before, holds its checksum sums to all ones.\<close>

lemma checksum_verifies:
  assumes "even (length xs)" "even (length ys)"
  shows "internet_checksum (xs @ be16 (internet_checksum (xs @ [0, 0] @ ys)) @ ys) = 0"
proof -
  let ?t = "sum_list (words16 xs) + sum_list (words16 ys)"
  let ?c = "internet_checksum (xs @ [0, 0] @ ys)"
  have c: "?c = 65535 - fold_carries ?t"
    using assms by (simp add: internet_checksum_def words16_append from_be_def)
  have "?c < 65536" using c by linarith
  then have w: "words16 (be16 ?c) = [?c]" by (rule words16_be16)
  have s: "sum_list (words16 (xs @ be16 ?c @ ys)) = ?t + ?c"
    using assms w by (simp add: words16_append)
  have "fold_carries (?t + ?c) = 65535" unfolding c by (rule carries_complement)
  then show ?thesis unfolding internet_checksum_def [of "xs @ be16 _ @ ys"] using assms s by simp
qed

end
