(* ===== verification/Dhcp.thy ===== *)
theory Dhcp
  imports Net_Bytes
begin

text \<open>
  \<open>twn_toolkit/dhcp_tools.py\<close>: the DHCPDISCOVER the probe sends, the frame it is sent in on
  macOS, and everything it reads back: frames, offers, options, domain search lists and classless
  routes.  \<open>ToolInputError\<close> is a \<open>ValueError\<close>.  Sockets, \<open>sysfs\<close> and Scapy are not
  modelled; \<open>raw.decode('utf-8', errors='replace')\<close> is the argument \<open>utf8\<close>.
\<close>

section \<open>Tables\<close>

definition magic_cookie :: bytes where
  "magic_cookie = [0x63, 0x82, 0x53, 0x63]"

definition dhcp_client_port :: nat where "dhcp_client_port = 68"

definition dhcp_server_port :: nat where "dhcp_server_port = 67"

definition vlan_ethertypes :: "nat list" where
  "vlan_ethertypes = [0x8100, 0x88A8, 0x9100]"

definition dhcp_options :: "(nat \<times> string) list" where
  "dhcp_options = [(1, ''Subnet Mask''), (2, ''Time Offset''), (3, ''Router''), (4, ''Time Server''),
     (6, ''Domain Name Server''), (12, ''Host Name''), (15, ''Domain Name''), (26, ''Interface MTU''),
     (28, ''Broadcast Address''), (42, ''NTP Servers''), (43, ''Vendor Specific Information''),
     (44, ''NetBIOS Name Server''), (46, ''NetBIOS Node Type''), (47, ''NetBIOS Scope''),
     (51, ''IP Address Lease Time''), (53, ''DHCP Message Type''), (54, ''Server Identifier''),
     (58, ''Renewal Time''), (59, ''Rebinding Time''), (60, ''Vendor Class Identifier''),
     (66, ''TFTP Server Name''), (67, ''Bootfile Name''), (81, ''Client FQDN''), (119, ''Domain Search''),
     (121, ''Classless Static Route''), (125, ''Vendor-Identifying Vendor Options''),
     (138, ''CAPWAP Access Controller IPv4 Address''), (150, ''TFTP Server Address''), (252, ''WPAD'')]"

text \<open>\<open>re.sub(r'[^a-z0-9]', '', name.lower())\<close>.\<close>

definition name_key :: "string \<Rightarrow> string" where
  "name_key s = filter (\<lambda>c. py_digit c \<or> (let n = (of_char c :: nat) in 97 \<le> n \<and> n \<le> 122)) (py_lower s)"

text \<open>A later entry of the comprehension replaces an earlier one with the same key.\<close>

definition normalized_names :: "(string \<times> nat) list" where
  "normalized_names = map (\<lambda>(code, name). (name_key name, code)) (rev dhcp_options)"

definition ip_list_options :: "nat list" where
  "ip_list_options = [3, 4, 6, 28, 42, 44, 54, 138, 150]"

definition seconds_options :: "nat list" where
  "seconds_options = [51, 58, 59]"

definition text_options :: "nat list" where
  "text_options = [12, 15, 60, 66, 67, 252]"

section \<open>What the operator types\<close>

definition hex_pair :: "string \<Rightarrow> nat" where
  "hex_pair s = foldl (\<lambda>n c. 16 * n + the (hex_value c)) 0 s"

definition normalize_mac :: "string \<Rightarrow> string result" where
  "normalize_mac v = (let compact = keep_hex v; octets = pairs (py_lower compact) in
     if length compact \<noteq> 12 then Inl (ValueError ''Enter a client MAC address as six hexadecimal octets.'')
     else if odd (hex_pair (hd octets)) then Inl (ValueError ''The client MAC address must be a unicast address.'')
     else Inr (join_with '':'' octets))"

text \<open>
  \<open>str.isdigit\<close> also holds for the superscripts one, two and three, which \<open>int\<close> refuses.
\<close>

definition py_isdigit :: "string \<Rightarrow> bool" where
  "py_isdigit s \<longleftrightarrow> s \<noteq> [] \<and> list_all (\<lambda>c. py_digit c \<or> of_char c \<in> {178, 179, 185 :: nat}) s"

definition option_code :: "string \<Rightarrow> int result" where
  "option_code token =
     (if py_isdigit token
      then (if list_all py_digit token then Inr (int (decimal_value token))
        else Inl (ValueError ''invalid literal for int() with base 10''))
      else Inr (case map_of normalized_names (name_key token) of None \<Rightarrow> - 1 | Some code \<Rightarrow> int code))"

fun collect_codes :: "string list \<Rightarrow> nat list \<Rightarrow> nat list result" where
  "collect_codes [] acc = Inr acc"
| "collect_codes (t # ts) acc = bindE (option_code t) (\<lambda>code.
     if \<not> (1 \<le> code \<and> code \<le> 254)
     then Inl (ValueError (''Unknown DHCP option '' @ t @ ''; use a name shown below or 1-254.''))
     else collect_codes ts (if nat code \<in> set acc then acc else acc @ [nat code]))"

definition parse_parameter_request_list :: "string \<Rightarrow> nat list result" where
  "parse_parameter_request_list v =
     (let tokens = filter (\<lambda>t. t \<noteq> []) (map py_strip (split_by (\<lambda>c. c = CHR '','' \<or> c = CHR 0x0A) v)) in
      if tokens = [] then Inl (ValueError ''Request at least one DHCP option.'')
      else bindE (collect_codes tokens []) (\<lambda>codes.
        if 64 < length codes then Inl (ValueError ''Request no more than 64 DHCP options.'') else Inr codes))"

definition format_parameter_request_list :: "nat list \<Rightarrow> string" where
  "format_parameter_request_list codes = join_with '', '' (map show_nat codes)"

section \<open>The request\<close>

definition append_option :: "nat \<Rightarrow> bytes \<Rightarrow> bytes \<Rightarrow> bytes result" where
  "append_option code v options =
     (if 255 < length v then Inl (ValueError (''DHCP option '' @ show_nat code @ '' is too long.''))
      else Inr (options @ [of_nat code, of_nat (length v)] @ v))"

definition ascii_option :: "string \<Rightarrow> string \<Rightarrow> bytes result" where
  "ascii_option v label =
     (if \<not> list_all (\<lambda>c. of_char c < (128 :: nat)) v then Inl (ValueError (label @ '' must contain ASCII characters only.''))
      else if v = [] \<or> 255 < length v then Inl (ValueError (label @ '' must be between 1 and 255 characters.''))
      else Inr (map (\<lambda>c. of_nat (of_char c)) v))"

text \<open>The fixed part, from the op code to the boot file name.\<close>

definition bootp_header :: "nat \<Rightarrow> bytes \<Rightarrow> bytes" where
  "bootp_header xid mac = [1, 1, 6, 0] @ be32 xid @ be16 0 @ be16 0x8000 @ zeros 16 @ (mac @ zeros 10) @ zeros 64 @ zeros 128"

definition optional_text :: "nat \<Rightarrow> string \<Rightarrow> string \<Rightarrow> bytes \<Rightarrow> bytes result" where
  "optional_text code v label options =
     (if v = [] then Inr options else bindE (ascii_option v label) (\<lambda>raw. append_option code raw options))"

text \<open>
  \<open>struct.pack\<close> refuses a transaction id of more than 32 bits and \<open>bytes\<close> a code above 255.
\<close>

definition build_discover :: "nat \<Rightarrow> string \<Rightarrow> nat list \<Rightarrow> string \<Rightarrow> string \<Rightarrow> bytes result" where
  "build_discover xid mac codes hostname vendor =
     bindE (normalize_mac mac) (\<lambda>m.
     let mac_bytes = the (from_hex (strip_colons m)) in
     if 4294967296 \<le> xid then Inl (RuntimeError ''struct.error'')
     else bindE (append_option 53 [1] magic_cookie) (\<lambda>o1.
     bindE (append_option 61 (1 # mac_bytes) o1) (\<lambda>o2.
     if \<not> list_all (\<lambda>c. c < 256) codes then Inl (ValueError ''bytes must be in range(0, 256)'')
     else bindE (append_option 55 (map of_nat codes) o2) (\<lambda>o3.
     bindE (optional_text 12 hostname ''Host name'' o3) (\<lambda>o4.
     bindE (optional_text 60 vendor ''Vendor class'' o4) (\<lambda>o5.
     Inr (bootp_header xid mac_bytes @ o5 @ [255])))))))"

section \<open>Options of a reply\<close>

definition add_value :: "nat \<Rightarrow> bytes \<Rightarrow> (nat \<times> bytes list) list \<Rightarrow> (nat \<times> bytes list) list" where
  "add_value code v opts = assoc_put code ((case map_of opts code of None \<Rightarrow> [] | Some vs \<Rightarrow> vs) @ [v]) opts"

text \<open>The loop of \<open>_parse_options\<close> over the bytes that are left.\<close>

function option_loop :: "bytes \<Rightarrow> (nat \<times> bytes list) list \<Rightarrow> (nat \<times> bytes list) list" where
  "option_loop data acc =
     (case data of [] \<Rightarrow> acc
      | code # rest \<Rightarrow>
          if code = 0 then option_loop rest acc
          else if code = 255 then acc
          else (case rest of [] \<Rightarrow> acc
            | len # body \<Rightarrow>
                if length body < unat len then acc
                else option_loop (drop (unat len) body) (add_value (unat code) (take (unat len) body) acc)))"
  by pat_completeness auto
termination by (relation "measure (\<lambda>(data, acc). length data)") auto

declare option_loop.simps [simp del]

definition parse_options :: "bytes \<Rightarrow> (nat \<times> bytes list) list" where
  "parse_options data = option_loop data []"

text \<open>One name of a domain search list; \<open>visited\<close> stops a pointer that leads back.\<close>

definition ascii_text :: "bytes \<Rightarrow> string option" where
  "ascii_text bs = (if list_all (\<lambda>b. unat b < 128) bs then Some (map (\<lambda>b. char_of (unat b)) bs) else None)"

lemma unvisited_left: "(c :: nat) < n \<Longrightarrow> c \<notin> V \<Longrightarrow> card ({..<n} - V) - Suc 0 < card ({..<n} - V)"
proof -
  assume "c < n" "c \<notin> V"
  then have "0 < card ({..<n} - V)" by (auto simp: card_gt_0_iff)
  then show ?thesis by simp
qed

function read_labels :: "bytes \<Rightarrow> nat \<Rightarrow> nat \<Rightarrow> bool \<Rightarrow> nat list \<Rightarrow> string list \<Rightarrow> (string list \<times> nat) option" where
  "read_labels raw cursor offset jumped visited labels =
     (if length raw \<le> cursor \<or> cursor \<in> set visited then None
      else let len = byte_at raw cursor in
        if len = 0 then Some (labels, if jumped then offset else cursor + 1)
        else if len div 64 = 3 then
          (if length raw \<le> cursor + 1 then None
           else read_labels raw ((len mod 64) * 256 + byte_at raw (cursor + 1))
             (if jumped then offset else cursor + 2) True (cursor # visited) labels)
        else if 63 < len \<or> length raw < cursor + 1 + len then None
        else (case ascii_text (slice (cursor + 1) (cursor + 1 + len) raw) of
            None \<Rightarrow> None
          | Some label \<Rightarrow> read_labels raw (cursor + len + 1) (if jumped then offset else cursor + len + 1)
              jumped (cursor # visited) (labels @ [label])))"
  by pat_completeness auto
termination
  by (relation "measure (\<lambda>(raw, cursor, offset, jumped, visited, labels). card ({..<length raw} - set visited))")
    (auto intro: unvisited_left [rotated])

declare read_labels.simps [simp del]

lemma read_labels_progress:
  "read_labels raw cursor offset jumped visited labels = Some (ls, off) \<Longrightarrow>
     (if jumped then off = offset else cursor < off)"
proof (induction raw cursor offset jumped visited labels rule: read_labels.induct)
  case (1 raw cursor offset jumped visited labels)
  let ?len = "byte_at raw cursor"
  from 1(3) have in_range: "\<not> (length raw \<le> cursor \<or> cursor \<in> set visited)"
    by (auto simp: read_labels.simps [of raw cursor] split: if_splits)
  consider "?len = 0" | "?len \<noteq> 0" "?len div 64 = 3" | "?len \<noteq> 0" "?len div 64 \<noteq> 3" by blast
  then show ?case
  proof cases
    case 1
    with \<open>read_labels _ _ _ _ _ _ = _\<close> in_range show ?thesis
      by (simp add: read_labels.simps [of raw cursor] split: if_splits)
  next
    case 2
    with 1(3) in_range have "\<not> length raw \<le> cursor + 1"
      by (auto simp: read_labels.simps [of raw cursor] Let_def split: if_splits)
    with 2 1(1) [OF in_range refl] 1(3) in_range show ?thesis
      by (auto simp: read_labels.simps [of raw cursor] Let_def split: if_splits)
  next
    case 3
    with 1(3) in_range have fits: "\<not> (63 < ?len \<or> length raw < cursor + 1 + ?len)"
      by (auto simp: read_labels.simps [of raw cursor] Let_def split: if_splits)
    with 3 1(3) in_range obtain label where "ascii_text (slice (cursor + 1) (cursor + 1 + ?len) raw) = Some label"
      by (auto simp: read_labels.simps [of raw cursor] Let_def split: if_splits option.splits)
    with 3 fits 1(2) [OF in_range refl _ _ fits] 1(3) in_range show ?thesis
      by (auto simp: read_labels.simps [of raw cursor] Let_def split: if_splits)
  qed
qed

text \<open>The outer loop: every name moves the offset forward.\<close>

function domain_names :: "bytes \<Rightarrow> nat \<Rightarrow> string list option" where
  "domain_names raw offset =
     (if length raw \<le> offset then Some []
      else (case read_labels raw offset offset False [] [] of
          None \<Rightarrow> None
        | Some (labels, off) \<Rightarrow> map_option (Cons (join_with ''.'' labels)) (domain_names raw off)))"
  by pat_completeness auto
termination
  by (relation "measure (\<lambda>(raw, offset). length raw - offset)") (auto dest: read_labels_progress)

declare domain_names.simps [simp del]

definition decode_domain_search :: "bytes \<Rightarrow> string list" where
  "decode_domain_search raw = (case domain_names raw 0 of None \<Rightarrow> [] | Some names \<Rightarrow> names)"

text \<open>\<open>str(ipaddress.ip_network((destination, prefix), strict=False))\<close>.\<close>

definition network_text :: "bytes \<Rightarrow> nat \<Rightarrow> string" where
  "network_text addr prefix = (let size = 2 ^ (32 - prefix) in
     ip4_text (be32 (from_be addr div size * size)) @ ''/'' @ show_nat prefix)"

function route_loop :: "bytes \<Rightarrow> string list option" where
  "route_loop data =
     (case data of [] \<Rightarrow> Some []
      | p # rest \<Rightarrow>
          let prefix = unat p; n = (prefix + 7) div 8 in
          if 32 < prefix \<or> length rest < n + 4 then None
          else map_option (Cons (network_text (take n rest @ zeros (4 - n)) prefix @ '' via '' @ ip4_text (slice n (n + 4) rest)))
            (route_loop (drop (n + 4) rest)))"
  by pat_completeness auto
termination by (relation "measure length") auto

declare route_loop.simps [simp del]

definition decode_classless_routes :: "bytes \<Rightarrow> string list" where
  "decode_classless_routes raw = (case route_loop raw of None \<Rightarrow> [] | Some routes \<Rightarrow> routes)"

fun chunks4 :: "bytes \<Rightarrow> bytes list" where
  "chunks4 (a # b # c # d # bs) = [a, b, c, d] # chunks4 bs"
| "chunks4 _ = []"

definition message_type :: "nat \<Rightarrow> string" where
  "message_type n = (if n = 1 then ''Discover'' else if n = 2 then ''Offer'' else if n = 3 then ''Request''
     else if n = 5 then ''ACK'' else if n = 6 then ''NAK'' else show_nat n)"

definition decode_option :: "(bytes \<Rightarrow> string) \<Rightarrow> nat \<Rightarrow> bytes \<Rightarrow> string" where
  "decode_option utf8 code raw =
     (if code = 53 \<and> raw \<noteq> [] then message_type (unat (hd raw))
      else if code \<in> set ip_list_options \<and> raw \<noteq> [] \<and> length raw mod 4 = 0
        then join_with '', '' (map ip4_text (chunks4 raw))
      else if code = 1 \<and> length raw = 4 then ip4_text raw
      else if code \<in> set seconds_options \<and> length raw = 4 then show_nat (from_be raw) @ '' seconds''
      else if code = 26 \<and> length raw = 2 then show_nat (from_be raw)
      else if code = 119 then (let names = decode_domain_search raw in
        if names \<noteq> [] then join_with '', '' names else bytes_hex_sep '' '' raw)
      else if code = 121 then (let routes = decode_classless_routes raw in
        if routes \<noteq> [] then join_with ''; '' routes else bytes_hex_sep '' '' raw)
      else if code \<in> set text_options then utf8 raw
      else bytes_hex_sep '' '' raw)"

record offered_option =
  oo_code :: nat
  oo_name :: string
  oo_value :: string
  oo_hex :: string

record offer =
  of_address :: string
  of_server :: string
  of_source :: string
  of_relay :: string
  of_next_server :: string
  of_options :: "offered_option list"

definition option_name :: "nat \<Rightarrow> string" where
  "option_name code = (case map_of dhcp_options code of None \<Rightarrow> ''Option '' @ show_nat code | Some n \<Rightarrow> n)"

definition decoded_options :: "(bytes \<Rightarrow> string) \<Rightarrow> (nat \<times> bytes list) list \<Rightarrow> offered_option list" where
  "decoded_options utf8 opts = concat (map (\<lambda>(code, values). map (\<lambda>raw.
     \<lparr>oo_code = code, oo_name = option_name code, oo_value = decode_option utf8 code raw, oo_hex = bytes_hex_sep '' '' raw\<rparr>)
     values) opts)"

definition parse_offer :: "(bytes \<Rightarrow> string) \<Rightarrow> bytes \<Rightarrow> nat \<Rightarrow> string \<times> nat \<Rightarrow> offer option" where
  "parse_offer utf8 packet xid source =
     (if length packet < 240 \<or> byte_at packet 0 \<noteq> 2 then None
      else if u32_at packet 4 \<noteq> xid \<or> slice 236 240 packet \<noteq> magic_cookie then None
      else let opts = parse_options (drop 240 packet) in
        if hd (case map_of opts 53 of None \<Rightarrow> [[]] | Some vs \<Rightarrow> vs) \<noteq> [2] then None
        else let server = ip4_text (slice 20 24 packet);
                 decoded = decoded_options utf8 opts in
          Some \<lparr>of_address = ip4_text (slice 16 20 packet),
            of_server = (case List.find (\<lambda>opt. oo_code opt = 54) decoded of None \<Rightarrow> fst source | Some opt \<Rightarrow> oo_value opt),
            of_source = fst source, of_relay = ip4_text (slice 24 28 packet),
            of_next_server = (if server = ''0.0.0.0'' then [] else server), of_options = decoded\<rparr>)"

text \<open>
  The receive loops keep the first offer of each server and address; \<open>responses\<close> are the
  datagrams in the order they arrived before the deadline.
\<close>

definition keep_offer :: "(bytes \<Rightarrow> string) \<Rightarrow> nat \<Rightarrow> offer list \<Rightarrow> bytes \<times> string \<times> nat \<Rightarrow> offer list" where
  "keep_offer utf8 xid offers r = (case parse_offer utf8 (fst r) xid (snd r) of
     None \<Rightarrow> offers
   | Some x \<Rightarrow> if (of_server x, of_address x) \<in> (\<lambda>y. (of_server y, of_address y)) ` set offers then offers else offers @ [x])"

definition discover_offers :: "(bytes \<Rightarrow> string) \<Rightarrow> nat \<Rightarrow> (bytes \<times> string \<times> nat) list \<Rightarrow> offer list" where
  "discover_offers utf8 xid responses = foldl (keep_offer utf8 xid) [] responses"

section \<open>Ethernet frames\<close>

text \<open>\<open>socket.inet_aton\<close> of a dotted quad; its abbreviated forms are not modelled.\<close>

definition inet_aton :: "string \<Rightarrow> bytes result" where
  "inet_aton s = (let parts = split_on CHR ''.'' s in
     if length parts = 4 \<and> list_all (\<lambda>p. p \<noteq> [] \<and> list_all py_digit p \<and> decimal_value p < 256) parts
     then Inr (map (\<lambda>p. of_nat (decimal_value p)) parts) else Inl (OSError ''illegal IP address string''))"

definition ip_header :: "nat \<Rightarrow> nat \<Rightarrow> bytes \<Rightarrow> bytes \<Rightarrow> bytes \<Rightarrow> bytes" where
  "ip_header len ident checksum src dst =
     ([0x45, 0] @ be16 len @ be16 (ident mod 65536) @ be16 0 @ [64, 17]) @ checksum @ (src @ dst)"

definition ipv4_header :: "nat \<Rightarrow> nat \<Rightarrow> bytes \<Rightarrow> bytes \<Rightarrow> bytes" where
  "ipv4_header len ident src dst =
     ip_header len ident (be16 (internet_checksum (ip_header len ident [0, 0] src dst))) src dst"

record frame_addresses =
  fa_source_mac :: string
  fa_destination_mac :: string
  fa_source :: string
  fa_destination :: string
  fa_source_port :: nat
  fa_destination_port :: nat

definition build_ipv4_udp_frame :: "bytes \<Rightarrow> frame_addresses \<Rightarrow> nat \<Rightarrow> bytes result" where
  "build_ipv4_udp_frame payload fa packet_id =
     bindE (normalize_mac (fa_source_mac fa)) (\<lambda>m.
     let src_mac = the (from_hex (strip_colons m)); compact = keep_hex (fa_destination_mac fa) in
     if length compact \<noteq> 12 then Inl (ValueError ''Destination MAC address must contain six hexadecimal octets.'')
     else bindE (inet_aton (fa_source fa)) (\<lambda>src. bindE (inet_aton (fa_destination fa)) (\<lambda>dst.
       let udp_length = 8 + length payload; ip_length = 20 + udp_length in
       if 65535 < ip_length then Inl (ValueError ''DHCP packet is too large for IPv4.'')
       else if 65536 \<le> fa_source_port fa \<or> 65536 \<le> fa_destination_port fa then Inl (RuntimeError ''struct.error'')
       else Inr ((the (from_hex compact) @ src_mac @ be16 0x0800) @ ipv4_header ip_length packet_id src dst @
         (be16 (fa_source_port fa) @ be16 (fa_destination_port fa) @ be16 udp_length @ be16 0) @ payload))))"

text \<open>\<open>_build_dhcp_discover_frame\<close>.\<close>

definition build_discover_frame :: "bytes \<Rightarrow> string \<Rightarrow> bytes result" where
  "build_discover_frame packet source_mac = build_ipv4_udp_frame packet
     \<lparr>fa_source_mac = source_mac, fa_destination_mac = ''ff:ff:ff:ff:ff:ff'', fa_source = ''0.0.0.0'',
      fa_destination = ''255.255.255.255'', fa_source_port = dhcp_client_port, fa_destination_port = dhcp_server_port\<rparr>
     (u32_at packet 4 mod 65536)"

function skip_vlans :: "bytes \<Rightarrow> nat \<Rightarrow> nat \<Rightarrow> (nat \<times> nat) option" where
  "skip_vlans frame ethertype off =
     (if ethertype \<in> set vlan_ethertypes then
        (if length frame < off + 4 then None else skip_vlans frame (u16_at frame (off + 2)) (off + 4))
      else Some (ethertype, off))"
  by pat_completeness auto
termination by (relation "measure (\<lambda>(frame, ethertype, off). length frame - off)") auto

declare skip_vlans.simps [simp del]

definition extract_dhcp_udp_payload :: "bytes \<Rightarrow> (bytes \<times> string \<times> nat) option" where
  "extract_dhcp_udp_payload frame =
     (if length frame < 14 then None
      else (case skip_vlans frame (u16_at frame 12) 14 of None \<Rightarrow> None
      | Some (ethertype, ip) \<Rightarrow>
          if ethertype \<noteq> 0x0800 \<or> length frame < ip + 20 then None
          else let version_ihl = byte_at frame ip; header = (version_ihl mod 16) * 4 in
          if version_ihl div 16 \<noteq> 4 then None
          else if header < 20 \<or> length frame < ip + header + 8 then None
          else if byte_at frame (ip + 9) \<noteq> 17 then None
          else if u16_at frame (ip + 6) mod 16384 \<noteq> 0 then None
          else if u16_at frame (ip + 2) < header + 8 then None
          else let udp = ip + header; ip_len = u16_at frame (ip + 2) in
          if u16_at frame udp \<noteq> dhcp_server_port \<or> u16_at frame (udp + 2) \<noteq> dhcp_client_port \<or> u16_at frame (udp + 4) < 8 then None
          else let stop = min (min (ip + ip_len) (udp + u16_at frame (udp + 4))) (length frame) in
          if stop < udp + 8 then None
          else Some (slice (udp + 8) stop frame, ip4_text (slice (ip + 12) (ip + 16) frame), u16_at frame udp)))"

end
