(* ===== verification/Dhcp_Facts.thy ===== *)
theory Dhcp_Facts
  imports Dhcp
begin

text \<open>
  The probe understands itself: the options it writes are the options it reads, a frame it builds
  for a reply is read back with its payload, the header checksum is right, and a domain search
  list is decoded name by name.
\<close>

section \<open>Options\<close>

definition option_bytes :: "nat \<times> bytes \<Rightarrow> bytes" where
  "option_bytes kv = [of_nat (fst kv), of_nat (length (snd kv))] @ snd kv"

definition option_ok :: "nat \<times> bytes \<Rightarrow> bool" where
  "option_ok kv \<longleftrightarrow> 1 \<le> fst kv \<and> fst kv \<le> 254 \<and> length (snd kv) \<le> 255"

definition next_option :: "bytes \<Rightarrow> ((nat \<times> bytes) \<times> bytes) option" where
  "next_option data = (case data of
     code # len # body \<Rightarrow> if code = 0 \<or> code = 255 \<or> length body < unat len then None
       else Some ((unat code, take (unat len) body), drop (unat len) body)
   | _ \<Rightarrow> None)"

lemma unat_small [simp]: "n < 256 \<Longrightarrow> unat (of_nat n :: byte) = n"
  by (simp add: unat_of_nat)

lemma byte_code_neq:
  assumes "1 \<le> n" "n \<le> 254"
  shows "(of_nat n :: byte) \<noteq> 0" "(of_nat n :: byte) \<noteq> 255"
proof -
  have "unat (of_nat n :: byte) = n" using assms by (intro unat_small) simp
  with assms show "(of_nat n :: byte) \<noteq> 0" "(of_nat n :: byte) \<noteq> 255"
    using unsigned_0 [where 'b = 8 and 'a = nat] unsigned_numeral [of "num.Bit1 (num.Bit1 (num.Bit1 (num.Bit1 (num.Bit1 (num.Bit1 (num.Bit1 num.One))))))", where 'b = 8 and 'a = nat]
    by (auto dest: arg_cong [of _ _ unat])
qed

interpretation dhcp_option: prefix_codec option_bytes next_option option_ok
proof
  fix x :: "nat \<times> bytes" and rest
  assume "option_ok x"
  then show "next_option (option_bytes x @ rest) = Some (x, rest)"
    by (cases x) (simp add: option_ok_def option_bytes_def next_option_def byte_code_neq)
  show "option_bytes x \<noteq> []" by (simp add: option_bytes_def)
qed

lemma option_loop_step:
  "next_option data = Some ((code, v), rest) \<Longrightarrow> option_loop data acc = option_loop rest (add_value code v acc)"
  by (subst option_loop.simps) (auto simp: next_option_def split: list.splits if_splits)

lemma option_loop_all:
  "list_all option_ok opts \<Longrightarrow>
     option_loop (concat (map option_bytes opts) @ rest) acc = option_loop rest (foldl (\<lambda>a (c, v). add_value c v a) acc opts)"
proof (induction opts arbitrary: acc)
  case (Cons x opts)
  then have "next_option (option_bytes x @ concat (map option_bytes opts) @ rest) = Some (x, concat (map option_bytes opts) @ rest)"
    by (intro dhcp_option.dec_enc) simp
  from option_loop_step [of _ "fst x" "snd x"] this Cons show ?case by (cases x) simp
qed simp

lemma option_loop_end [simp]: "option_loop (255 # rest) acc = acc" "option_loop [] acc = acc"
  by (simp_all add: option_loop.simps)

lemma append_option_Inr:
  "append_option code v options = Inr options' \<Longrightarrow> options' = options @ option_bytes (code, v) \<and> length v \<le> 255"
  by (auto simp: append_option_def option_bytes_def split: if_splits)

lemma ascii_option_Inr: "ascii_option v label = Inr raw \<Longrightarrow> raw = map (\<lambda>c. of_nat (of_char c)) v"
  by (auto simp: ascii_option_def split: if_splits)

definition text_option :: "nat \<Rightarrow> string \<Rightarrow> (nat \<times> bytes) list" where
  "text_option code v = (if v = [] then [] else [(code, map (\<lambda>c. of_nat (of_char c)) v)])"

lemma optional_text_Inr:
  "optional_text code v label options = Inr options' \<Longrightarrow>
     options' = options @ concat (map option_bytes (text_option code v)) \<and> (v \<noteq> [] \<longrightarrow> length v \<le> 255)"
  by (auto simp: optional_text_def text_option_def bindE_eq_Inr dest!: append_option_Inr ascii_option_Inr split: if_splits)

text \<open>A normalized MAC address is six pairs of hexadecimal digits.\<close>

lemma pairs_append: "even (length xs) \<Longrightarrow> pairs (xs @ ys) = pairs xs @ pairs ys"
  by (induction xs rule: pairs.induct) simp_all

lemma concat_pairs: "even (length xs) \<Longrightarrow> concat (pairs xs) = xs"
  by (induction xs rule: pairs.induct) simp_all

lemma py_lower_hex: "is_hex c \<Longrightarrow> is_hex (py_lower_char c) \<and> py_lower_char c \<noteq> CHR '':''"
proof -
  assume "is_hex c"
  then consider "48 \<le> (of_char c :: nat) \<and> (of_char c :: nat) \<le> 57" | "97 \<le> (of_char c :: nat) \<and> (of_char c :: nat) \<le> 102"
    | "65 \<le> (of_char c :: nat) \<and> (of_char c :: nat) \<le> 70"
    by (auto simp: is_hex_def hex_value_def Let_def split: if_splits)
  then show ?thesis
    by cases (auto simp: py_lower_char_def is_hex_def hex_value_def Let_def of_char_of dest: of_char_eqD simp flip: of_char_eq_iff [where 'a = nat])
qed

lemma strip_join_colons:
  "list_all (\<lambda>w. list_all (\<lambda>c. c \<noteq> CHR '':'') w) ws \<Longrightarrow> strip_colons (join_with '':'' ws) = concat ws"
proof (induction ws)
  case (Cons w ws)
  then show ?case by (cases ws) (simp_all add: strip_colons_def list_all_iff filter_id_conv)
qed (simp add: strip_colons_def)

lemma fromhex_hex:
  "list_all is_hex s \<Longrightarrow> even (length s) \<Longrightarrow> \<exists>bs. fromhex s = Some bs \<and> length bs = length s div 2"
proof (induction s rule: fromhex.induct)
  case (3 c d cs)
  have "\<not> ascii_space c" using 3(3) by (auto simp: is_hex_def hex_value_def ascii_space_def Let_def split: if_splits)
  moreover from 3 obtain y z where "hex_value c = Some y" "hex_value d = Some z" by (auto simp: is_hex_def)
  moreover from this 3 calculation(1) obtain bs where "fromhex cs = Some bs" "length bs = length cs div 2" by auto
  ultimately show ?case by simp
qed simp_all

lemma normalize_mac_Inr:
  assumes "normalize_mac v = Inr m"
  obtains bs where "from_hex (strip_colons m) = Some bs" "length bs = 6"
proof -
  let ?c = "py_lower (keep_hex v)"
  from assms have len: "length ?c = 12" and m: "m = join_with '':'' (pairs ?c)"
    by (auto simp: normalize_mac_def Let_def py_lower_def split: if_splits)
  have hex: "list_all (\<lambda>c. is_hex c \<and> c \<noteq> CHR '':'') ?c"
    by (auto simp: py_lower_def keep_hex_def list_all_iff py_lower_hex)
  have "concat (pairs ?c) = ?c" using len by (intro concat_pairs) simp
  moreover from this hex have "list_all (\<lambda>w. list_all (\<lambda>c. c \<noteq> CHR '':'') w) (pairs ?c)"
    by (metis (no_types, lifting) concat.simps list_all_iff UN_I set_concat)
  ultimately have "strip_colons m = ?c" by (simp add: m strip_join_colons)
  moreover have "list_all is_hex ?c" using hex by (simp add: list_all_iff)
  ultimately show thesis using fromhex_hex [of ?c] len that by (auto simp: from_hex_def)
qed

lemma length_bootp [simp]: "length mac = 6 \<Longrightarrow> length (bootp_header xid mac) = 236"
  by (simp add: bootp_header_def)

text \<open>
  C19: a DISCOVER that the probe builds is read back by its own option parser, behind the fixed
  part and the cookie, as exactly the message type, the client identifier, the requested codes in
  their order, and the host name and vendor class when they were given.
\<close>

theorem discover_options_read_back:
  assumes "build_discover xid mac codes hostname vendor = Inr packet"
  shows "\<exists>mac_bytes. length mac_bytes = 6 \<and> take 236 packet = bootp_header xid mac_bytes \<and>
    slice 236 240 packet = magic_cookie \<and>
    parse_options (drop 240 packet) =
      map (\<lambda>(c, v). (c, [v])) ([(53, [1]), (61, 1 # mac_bytes), (55, map of_nat codes)] @ text_option 12 hostname @ text_option 60 vendor)"
proof -
  from assms obtain m o1 o2 o3 o4 o5 where s: "normalize_mac mac = Inr m"
    "append_option 53 [1] magic_cookie = Inr o1" "append_option 61 (1 # the (from_hex (strip_colons m))) o1 = Inr o2"
    "append_option 55 (map of_nat codes) o2 = Inr o3" "optional_text 12 hostname ''Host name'' o3 = Inr o4"
    "optional_text 60 vendor ''Vendor class'' o4 = Inr o5"
    "packet = bootp_header xid (the (from_hex (strip_colons m))) @ o5 @ [255]"
    by (auto simp: build_discover_def Let_def bindE_eq_Inr split: if_splits)
  obtain bs where bs: "from_hex (strip_colons m) = Some bs" "length bs = 6" using normalize_mac_Inr [OF s(1)] .
  let ?opts = "[(53, [1]), (61, 1 # bs), (55, map of_nat codes)] @ text_option 12 hostname @ text_option 60 vendor"
  note i = append_option_Inr [OF s(2)] append_option_Inr [OF s(3)] append_option_Inr [OF s(4)]
    optional_text_Inr [OF s(5)] optional_text_Inr [OF s(6)]
  have o5: "o5 = magic_cookie @ concat (map option_bytes ?opts)" using i bs by simp
  have ok: "list_all option_ok ?opts" using i bs by (auto simp: option_ok_def text_option_def)
  have "parse_options (concat (map option_bytes ?opts) @ [255]) = foldl (\<lambda>a (c, v). add_value c v a) [] ?opts"
    using option_loop_all [OF ok] by (simp add: parse_options_def)
  also have "\<dots> = map (\<lambda>(c, v). (c, [v])) ?opts"
    by (simp add: text_option_def add_value_def assoc_put_def)
  finally show ?thesis
    using bs o5 s(7) by (intro exI [of _ bs]) (simp add: slice_def magic_cookie_def)
qed

section \<open>Frames\<close>

lemma byte_at_append: "byte_at (xs @ ys) i = (if i < length xs then byte_at xs i else byte_at ys (i - length xs))"
  by (auto simp: byte_at_def nth_append)

lemma u16_at_append_right: "length xs \<le> i \<Longrightarrow> u16_at (xs @ ys) i = u16_at ys (i - length xs)"
  using u16_shift [of xs ys "i - length xs"] by simp

lemma u16_at_append_left: "i + 2 \<le> length xs \<Longrightarrow> u16_at (xs @ ys) i = u16_at xs i"
  by (simp add: u16_at_def slice_append_left)

lemma u16_at_be16: "n < 65536 \<Longrightarrow> u16_at (be16 n) 0 = n"
  using u16_be16 [of n "[]"] by simp

lemmas u16_simps = u16_at_append_right u16_at_append_left u16_at_be16 u16_be16

lemma inet_aton_Inr: "inet_aton s = Inr a \<Longrightarrow> length a = 4"
  by (auto simp: inet_aton_def Let_def split: if_splits)

lemma keep_hex_all: "list_all is_hex (keep_hex s)"
  by (simp add: keep_hex_def list_all_iff)

lemma length_ip_header: "length src = 4 \<Longrightarrow> length dst = 4 \<Longrightarrow> length c = 2 \<Longrightarrow> length (ip_header len ident c src dst) = 20"
  by (simp add: ip_header_def)

lemma ipv4_header_checksum:
  "length src = 4 \<Longrightarrow> length dst = 4 \<Longrightarrow> internet_checksum (ipv4_header len ident src dst) = 0"
  unfolding ipv4_header_def ip_header_def by (rule checksum_verifies) simp_all

lemma ip_header_fields:
  assumes "length src = 4" "length dst = 4" "length c = 2" "len < 65536"
  shows "byte_at (ip_header len ident c src dst) 0 = 0x45" "byte_at (ip_header len ident c src dst) 9 = 17"
    "u16_at (ip_header len ident c src dst) 6 = 0" "u16_at (ip_header len ident c src dst) 2 = len"
    "slice 12 16 (ip_header len ident c src dst) = src"
proof -
  have "byte_at [0x45, 0] 0 = 0x45" "byte_at [64, 17] 1 = 17" by (simp_all add: byte_at_def)
  with assms show "byte_at (ip_header len ident c src dst) 0 = 0x45" "byte_at (ip_header len ident c src dst) 9 = 17"
    "u16_at (ip_header len ident c src dst) 6 = 0" "u16_at (ip_header len ident c src dst) 2 = len"
    "slice 12 16 (ip_header len ident c src dst) = src"
    by (simp_all add: ip_header_def byte_at_append u16_at_append_right u16_at_append_left u16_at_be16 u16_be16 slice_append slice_empty
        del: append_Cons)
qed

lemma udp_header_fields:
  assumes "a < 65536" "b < 65536" "c < 65536"
  shows "u16_at (be16 a @ be16 b @ be16 c @ be16 d) 0 = a" "u16_at (be16 a @ be16 b @ be16 c @ be16 d) 2 = b"
    "u16_at (be16 a @ be16 b @ be16 c @ be16 d) 4 = c"
  using assms by (simp_all add: u16_at_append_right u16_be16)

lemma build_frame_parts:
  assumes "build_ipv4_udp_frame payload fa ident = Inr frame"
  obtains dst_mac src_mac src dst where "length dst_mac = 6" "length src_mac = 6"
    "inet_aton (fa_source fa) = Inr src" "inet_aton (fa_destination fa) = Inr dst" "28 + length payload < 65536"
    "fa_source_port fa < 65536" "fa_destination_port fa < 65536"
    "frame = (dst_mac @ src_mac @ be16 0x0800) @ ipv4_header (28 + length payload) ident src dst @
      (be16 (fa_source_port fa) @ be16 (fa_destination_port fa) @ be16 (8 + length payload) @ be16 0) @ payload"
proof -
  from assms obtain m src dst where s: "normalize_mac (fa_source_mac fa) = Inr m"
    "length (keep_hex (fa_destination_mac fa)) = 12"
    "inet_aton (fa_source fa) = Inr src" "inet_aton (fa_destination fa) = Inr dst" "28 + length payload \<le> 65535"
    "fa_source_port fa < 65536" "fa_destination_port fa < 65536"
    "frame = (the (from_hex (keep_hex (fa_destination_mac fa))) @ the (from_hex (strip_colons m)) @ be16 0x0800) @
      ipv4_header (28 + length payload) ident src dst @
      (be16 (fa_source_port fa) @ be16 (fa_destination_port fa) @ be16 (8 + length payload) @ be16 0) @ payload"
    by (auto simp: build_ipv4_udp_frame_def Let_def bindE_eq_Inr split: if_splits)
  obtain bs where bs: "from_hex (strip_colons m) = Some bs" "length bs = 6" using normalize_mac_Inr [OF s(1)] .
  obtain ds where ds: "from_hex (keep_hex (fa_destination_mac fa)) = Some ds" "length ds = 6"
    using fromhex_hex [OF keep_hex_all, of "fa_destination_mac fa"] s(2) by (auto simp: from_hex_def)
  show thesis by (rule that [of ds bs src dst]) (use s bs ds in simp_all)
qed

text \<open>
  A frame built for a server's reply, from port 67 to port 68, is taken apart again into
  exactly the payload and the source it was built from, and its IPv4 header checksum verifies.
\<close>

theorem built_frame_is_extracted:
  assumes "build_ipv4_udp_frame payload fa ident = Inr frame"
    and "fa_source_port fa = dhcp_server_port" "fa_destination_port fa = dhcp_client_port"
  shows "\<exists>src. inet_aton (fa_source fa) = Inr src \<and>
    extract_dhcp_udp_payload frame = Some (payload, ip4_text src, dhcp_server_port) \<and>
    internet_checksum (slice 14 34 frame) = 0"
proof -
  obtain dm sm src dst where p: "length dm = 6" "length sm = 6"
    "inet_aton (fa_source fa) = Inr src" "inet_aton (fa_destination fa) = Inr dst" "28 + length payload < 65536"
      "fa_source_port fa < 65536" "fa_destination_port fa < 65536"
    and frame0: "frame = (dm @ sm @ be16 0x0800) @ ipv4_header (28 + length payload) ident src dst @
      (be16 (fa_source_port fa) @ be16 (fa_destination_port fa) @ be16 (8 + length payload) @ be16 0) @ payload"
    using build_frame_parts [OF assms(1)] .
  note frame = frame0 [unfolded assms(2,3) dhcp_server_port_def dhcp_client_port_def]
  define eth where "eth = dm @ sm @ be16 0x0800"
  define ip where "ip = ipv4_header (28 + length payload) ident src dst"
  define udp where "udp = be16 67 @ be16 68 @ be16 (8 + length payload) @ be16 0"
  have src: "length src = 4" "length dst = 4" using p inet_aton_Inr by auto
  have len: "length eth = 14" "length ip = 20" "length udp = 8"
    using p src by (simp_all add: eth_def ip_def udp_def ipv4_header_def length_ip_header)
  have f: "frame = eth @ ip @ udp @ payload" by (simp add: frame eth_def ip_def udp_def)
  have e: "u16_at frame 12 = 0x0800"
    unfolding f using len p by (simp add: u16_at_append_left) (simp add: eth_def u16_at_append_right u16_at_be16)
  have h: "byte_at ip 0 = 0x45" "byte_at ip 9 = 17" "u16_at ip 6 = 0" "u16_at ip 2 = 28 + length payload" "slice 12 16 ip = src"
    using ip_header_fields [OF src, of _ "28 + length payload"] p(5) by (simp_all add: ip_def ipv4_header_def)
  have u: "u16_at udp 0 = 67" "u16_at udp 2 = 68" "u16_at udp 4 = 8 + length payload"
    using udp_header_fields [of 67 68 "8 + length payload" 0] p(5) by (simp_all add: udp_def)
  have fields: "byte_at frame 14 = 0x45" "byte_at frame 23 = 17" "u16_at frame 20 = 0" "u16_at frame 16 = 28 + length payload"
    "slice 26 30 frame = src" "u16_at frame 34 = 67" "u16_at frame 36 = 68" "u16_at frame 38 = 8 + length payload"
    "slice 42 (length frame) frame = payload" "slice 14 34 frame = ip"
    using h u len by (simp_all add: f byte_at_append u16_at_append_right u16_at_append_left slice_append slice_empty)
  have skip: "skip_vlans frame 0x0800 14 = Some (0x0800, 14)"
    by (subst skip_vlans.simps) (simp add: vlan_ethertypes_def)
  have n: "length frame = 42 + length payload" using len by (simp add: f)
  have "extract_dhcp_udp_payload frame = Some (payload, ip4_text src, 67)"
    using fields e by (simp add: extract_dhcp_udp_payload_def skip n Let_def dhcp_server_port_def dhcp_client_port_def)
  moreover have "internet_checksum (slice 14 34 frame) = 0"
    using ipv4_header_checksum [OF src] fields by (simp add: ip_def)
  ultimately show ?thesis using p by (simp add: dhcp_server_port_def)
qed

section \<open>Domain search lists\<close>

text \<open>A name on the wire: every label behind its length, then a zero.\<close>

definition wire_label :: "string \<Rightarrow> bytes" where
  "wire_label l = of_nat (length l) # map (\<lambda>c. of_nat (of_char c)) l"

definition wire_name :: "string list \<Rightarrow> bytes" where
  "wire_name ls = concat (map wire_label ls) @ [0]"

definition label_ok :: "string \<Rightarrow> bool" where
  "label_ok l \<longleftrightarrow> l \<noteq> [] \<and> length l \<le> 63 \<and> list_all (\<lambda>c. of_char c < (128 :: nat)) l"

lemma ascii_text_bytes: "list_all (\<lambda>c. of_char c < (128 :: nat)) l \<Longrightarrow> ascii_text (map (\<lambda>c. of_nat (of_char c)) l) = Some l"
  by (induction l) (auto simp: ascii_text_def unat_of_nat list_all_iff)

lemma read_wire_labels:
  assumes "list_all label_ok ls" "\<forall>v\<in>set visited. v < length pre"
  shows "read_labels (pre @ concat (map wire_label ls) @ 0 # post) (length pre) offset False visited labels =
    Some (labels @ ls, length pre + length (wire_name ls))"
  using assms
proof (induction ls arbitrary: pre visited offset labels)
  case Nil
  have "byte_at (pre @ 0 # post) (length pre) = 0" by (simp add: byte_at_def)
  moreover have "length pre \<notin> set visited" using Nil by blast
  ultimately show ?case by (simp add: read_labels.simps [of _ "length pre"] wire_name_def)
next
  case (Cons l ls)
  let ?raw = "pre @ concat (map wire_label (l # ls)) @ 0 # post"
  have l: "l \<noteq> []" "length l \<le> 63" "list_all (\<lambda>c. of_char c < (128 :: nat)) l" using Cons.prems by (simp_all add: label_ok_def)
  have b: "byte_at ?raw (length pre) = length l" using l by (simp add: byte_at_def wire_label_def unat_of_nat)
  have s: "slice (length pre + 1) (length pre + 1 + length l) ?raw = map (\<lambda>c. of_nat (of_char c)) l"
    by (simp add: slice_def wire_label_def)
  have fresh: "length pre \<notin> set visited" using Cons.prems by blast
  have "read_labels ?raw (length pre) offset False visited labels =
      read_labels ?raw (length pre + length l + 1) (length pre + length l + 1) False (length pre # visited) (labels @ [l])"
    using fresh l b s ascii_text_bytes [OF l(3)]
    by (subst read_labels.simps) (simp add: Let_def wire_label_def)
  also have "?raw = (pre @ wire_label l) @ concat (map wire_label ls) @ 0 # post" by simp
  also have "length pre + length l + 1 = length (pre @ wire_label l)" by (simp add: wire_label_def)
  also have "read_labels ((pre @ wire_label l) @ concat (map wire_label ls) @ 0 # post) (length (pre @ wire_label l))
      (length (pre @ wire_label l)) False (length pre # visited) (labels @ [l])
    = Some ((labels @ [l]) @ ls, length (pre @ wire_label l) + length (wire_name ls))"
    using Cons.prems by (intro Cons.IH) (auto simp: wire_label_def)
  finally show ?case by (simp add: wire_name_def)
qed

text \<open>
  A domain search list written name by name is decoded into exactly its names, however many
  there are and whatever their labels, as long as these are ASCII of at most 63 characters.
\<close>

theorem domain_search_reads_back:
  assumes "list_all (list_all label_ok) names"
  shows "decode_domain_search (concat (map wire_name names)) = map (join_with ''.'') names"
proof -
  have "domain_names (pre @ concat (map wire_name names)) (length pre) = Some (map (join_with ''.'') names)" for pre
    using assms
  proof (induction names arbitrary: pre)
    case Nil
    then show ?case by (simp add: domain_names.simps)
  next
    case (Cons ls names)
    let ?raw = "pre @ concat (map wire_name (ls # names))"
    have "read_labels ?raw (length pre) (length pre) False [] [] = Some (ls, length pre + length (wire_name ls))"
      using read_wire_labels [of ls "[]" pre "concat (map wire_name names)" "length pre" "[]"] Cons.prems
      by (simp add: wire_name_def)
    moreover have "domain_names ?raw (length pre + length (wire_name ls)) = Some (map (join_with ''.'') names)"
      using Cons.IH [of "pre @ wire_name ls"] Cons.prems by simp
    moreover have "\<not> length ?raw \<le> length pre" by (simp add: wire_name_def)
    ultimately show ?case by (subst domain_names.simps) simp
  qed
  from this [of "[]"] show ?thesis by (simp add: decode_domain_search_def)
qed

section \<open>Witnesses\<close>

lemma demo_mac: "normalize_mac ''02-00-5E-10-00-0a'' = Inr ''02:00:5e:10:00:0a''"
  by code_simp

theorem discover_options_read_back_witness:
  "\<exists>packet mac_bytes. build_discover 7 ''02-00-5E-10-00-0a'' [1, 3, 6] ''h'' [] = Inr packet \<and>
     parse_options (drop 240 packet) =
       map (\<lambda>(c, v). (c, [v])) ([(53, [1]), (61, 1 # mac_bytes), (55, [1, 3, 6])] @ [(12, [0x68])])"
proof -
  obtain packet where b: "build_discover 7 ''02-00-5E-10-00-0a'' [1, 3, 6] ''h'' [] = Inr packet"
  proof -
    obtain bs where "from_hex (strip_colons ''02:00:5e:10:00:0a'') = Some bs" "length bs = 6"
      using normalize_mac_Inr [OF demo_mac] .
    then show thesis
      using that by (simp add: build_discover_def demo_mac append_option_def optional_text_def ascii_option_def)
  qed
  from discover_options_read_back [OF b] b show ?thesis by (auto simp: text_option_def)
qed

definition demo_addresses :: frame_addresses where
  "demo_addresses = \<lparr>fa_source_mac = ''02-00-5E-10-00-0a'', fa_destination_mac = ''ffffffffffff'', fa_source = ''10.0.0.1'',
     fa_destination = ''255.255.255.255'', fa_source_port = 67, fa_destination_port = 68\<rparr>"

lemma demo_inet: "inet_aton ''10.0.0.1'' = Inr [10, 0, 0, 1]" "inet_aton ''255.255.255.255'' = Inr [255, 255, 255, 255]"
  by code_simp+

lemma demo_hex: "length (keep_hex ''ffffffffffff'') = 12"
  by code_simp

theorem built_frame_is_extracted_witness:
  "\<exists>frame. build_ipv4_udp_frame [1, 2, 3] demo_addresses 9 = Inr frame \<and>
     extract_dhcp_udp_payload frame = Some ([1, 2, 3], ip4_text [10, 0, 0, 1], 67)"
proof -
  obtain frame where b: "build_ipv4_udp_frame [1, 2, 3] demo_addresses 9 = Inr frame"
    by (simp add: build_ipv4_udp_frame_def demo_addresses_def demo_mac demo_inet demo_hex)
  from built_frame_is_extracted [OF b] b show ?thesis
    by (auto simp: demo_addresses_def demo_inet dhcp_server_port_def dhcp_client_port_def)
qed

theorem domain_search_reads_back_witness:
  "decode_domain_search (concat (map wire_name [[''ab'', ''c''], [''d'']])) = [''ab.c'', ''d'']"
proof -
  have "list_all (list_all label_ok) [[''ab'', ''c''], [''d'']]" by (simp add: label_ok_def)
  from domain_search_reads_back [OF this] show ?thesis by simp
qed

end
