(* ===== verification/Packet_Replay.thy ===== *)
theory Packet_Replay
  imports Net_Bytes
begin

text \<open>
  \<open>twn_toolkit/packet_replay_tools.py\<close>: reading packets from hexadecimal text and classic
  captures, the replay plan (MAC rewriting, VLAN handling, repetition and its limits) and the
  summary shown before a replay.  Sending is socket I/O and is not modelled; \<open>darwin\<close> is the
  platform test of the notes.
\<close>

definition max_packet_bytes :: nat where "max_packet_bytes = 9216"

definition max_upload_bytes :: nat where "max_upload_bytes = 256 * 1024"

definition max_replay_frames :: nat where "max_replay_frames = 10000"

definition max_replay_duration :: real where "max_replay_duration = 300"

definition min_interval :: real where "min_interval = 0.1"

definition max_interval :: real where "max_interval = 60"

definition replay_vlan_ethertypes :: "nat list" where
  "replay_vlan_ethertypes = [0x8100, 0x88A8, 0x9100]"

section \<open>Reading packets\<close>

definition validate_frame_size :: "bytes \<Rightarrow> bytes result" where
  "validate_frame_size packet =
     (if length packet < 14 then Inl (ValueError ''Packet must include a complete Ethernet header.'')
      else if max_packet_bytes < length packet
        then Inl (ValueError ''Packet is too large. Maximum supported size is 9216 bytes.'')
      else Inr packet)"

definition parse_hex_packet :: "string \<Rightarrow> bytes result" where
  "parse_hex_packet v = (let cleaned = keep_hex v in
     if cleaned = [] then Inl (ValueError ''Paste packet hex or choose a packet capture.'')
     else if odd (length cleaned) then Inl (ValueError ''Packet hex must contain an even number of hex digits.'')
     else (case from_hex cleaned of
         None \<Rightarrow> Inl (ValueError ''Packet hex contains invalid characters.'')
       | Some packet \<Rightarrow> validate_frame_size packet))"

text \<open>\<open>struct.unpack_from(f'{endian}I', data, off)\<close>.\<close>

definition u32_endian :: "bool \<Rightarrow> bytes \<Rightarrow> nat \<Rightarrow> nat" where
  "u32_endian little data i = (if little then from_le (slice i (i + 4) data) else from_be (slice i (i + 4) data))"

text \<open>The records after the global header; only zeros may follow the last one.\<close>

function capture_records :: "bool \<Rightarrow> bytes \<Rightarrow> bytes list result" where
  "capture_records little data =
     (if list_all (\<lambda>b. b = 0) data then Inr []
      else if length data < 16 then Inl (ValueError ''The PCAP packet record is incomplete.'')
      else let included = u32_endian little data 8 in
        if included \<noteq> u32_endian little data 12
        then Inl (ValueError ''A packet in the PCAP is truncated. Export full packets.'')
        else if length data < 16 + included then Inl (ValueError ''The PCAP packet record is incomplete.'')
        else bindE (validate_frame_size (slice 16 (16 + included) data)) (\<lambda>p.
          bindE (capture_records little (drop (16 + included) data)) (\<lambda>ps. Inr (p # ps))))"
  by pat_completeness auto
termination by (relation "measure (\<lambda>(little, data). length data)") auto

declare capture_records.simps [simp del]

definition capture_endian :: "bytes \<Rightarrow> bool option" where
  "capture_endian magic =
     (if magic = [0xd4, 0xc3, 0xb2, 0xa1] \<or> magic = [0x4d, 0x3c, 0xb2, 0xa1] then Some True
      else if magic = [0xa1, 0xb2, 0xc3, 0xd4] \<or> magic = [0xa1, 0xb2, 0x3c, 0x4d] then Some False else None)"

definition parse_packet_capture :: "bytes \<Rightarrow> nat \<Rightarrow> bytes list result" where
  "parse_packet_capture data limit =
     (if limit < length data then Inl (ValueError (if limit = max_upload_bytes
        then ''Packet replay captures may not exceed 256 KiB.''
        else ''The packet capture exceeds the allowed upload size.''))
      else if length data < 24 then Inl (ValueError ''Choose a classic PCAP or paste raw packet hex.'')
      else (case capture_endian (take 4 data) of
          None \<Rightarrow> Inl (ValueError ''Only classic PCAP captures are supported right now.'')
        | Some little \<Rightarrow>
            if u32_endian little data 20 \<noteq> 1 then Inl (ValueError ''Packet replay PCAPs must use Ethernet link type.'')
            else if length data < 40 then Inl (ValueError ''The PCAP does not contain a packet record.'')
            else bindE (capture_records little (drop 24 data)) (\<lambda>packets.
              if packets = [] then Inl (ValueError ''The PCAP does not contain a packet record.'') else Inr packets)))"

definition parse_single_packet_capture :: "bytes \<Rightarrow> bytes result" where
  "parse_single_packet_capture data = bindE (parse_packet_capture data max_upload_bytes) (\<lambda>packets.
     if length packets \<noteq> 1 then Inl (ValueError ''Choose a PCAP containing exactly one packet.'') else Inr (hd packets))"

definition encode_prepared_packets :: "bytes list \<Rightarrow> string" where
  "encode_prepared_packets packets = join_with ''|'' (map bytes_hex packets)"

definition parse_prepared_packets :: "string \<Rightarrow> bytes list result" where
  "parse_prepared_packets v = bindE (collect parse_hex_packet (filter (\<lambda>h. py_strip h \<noteq> []) (split_on (CHR ''|'') v))) (\<lambda>packets.
     if packets = [] then Inl (ValueError ''Paste packet hex or choose a packet capture.'') else Inr packets)"

section \<open>VLAN targets\<close>

definition vlan_number_error :: py_error where
  "vlan_number_error = ValueError ''VLAN targets must be numbers, ranges like 10-20, or the word untagged.''"

definition validate_vlan_id :: "int \<Rightarrow> unit result" where
  "validate_vlan_id v = (if 0 \<le> v \<and> v \<le> 4094 then Inr ()
     else Inl (ValueError ''VLAN IDs must be numbers from 0 through 4094.''))"

definition int_or :: "py_error \<Rightarrow> string \<Rightarrow> int result" where
  "int_or e s = (case py_int s of None \<Rightarrow> Inl e | Some i \<Rightarrow> Inr i)"

definition expand_vlan_token :: "string \<Rightarrow> int list result" where
  "expand_vlan_token v =
     (if CHR ''-'' \<in> set v then
        (let start_text = takeWhile (\<lambda>c. c \<noteq> CHR ''-'') v; end_text = tl (dropWhile (\<lambda>c. c \<noteq> CHR ''-'') v) in
         bindE (int_or vlan_number_error start_text) (\<lambda>first. bindE (int_or vlan_number_error end_text) (\<lambda>last.
           if last < first then Inl (ValueError ''VLAN ranges must start at the lower VLAN ID.'')
           else bindE (validate_vlan_id first) (\<lambda>_. bindE (validate_vlan_id last) (\<lambda>_. Inr [first..last])))))
      else bindE (int_or vlan_number_error v) (\<lambda>i. bindE (validate_vlan_id i) (\<lambda>_. Inr [i])))"

text \<open>\<open>None\<close> is the untagged target.\<close>

definition add_target :: "int option list \<Rightarrow> int option \<Rightarrow> int option list" where
  "add_target vs v = (if v \<in> set vs then vs else vs @ [v])"

fun vlan_targets :: "string list \<Rightarrow> int option list \<Rightarrow> int option list result" where
  "vlan_targets [] vs = Inr vs"
| "vlan_targets (p # ps) vs =
     (if py_lower p \<in> {''untagged'', ''none'', ''native''} then vlan_targets ps (add_target vs None)
      else bindE (expand_vlan_token p) (\<lambda>ids. vlan_targets ps (foldl add_target vs (map Some ids))))"

definition parse_vlan_targets :: "string \<Rightarrow> int option list result" where
  "parse_vlan_targets v = vlan_targets (comma_words v) []"

definition format_vlan_target :: "int option \<Rightarrow> string" where
  "format_vlan_target v = (case v of None \<Rightarrow> ''untagged''
     | Some i \<Rightarrow> if i = 0 then ''0 (priority tag)'' else show_int i)"

section \<open>Rewriting frames\<close>

definition normalize_mac_optional :: "string \<Rightarrow> string result" where
  "normalize_mac_optional v = (if py_strip v = [] then Inr []
     else let cleaned = keep_hex (py_strip v) in
       if length cleaned \<noteq> 12 then Inl (ValueError ''MAC addresses must contain 12 hex digits.'')
       else Inr (py_lower (join_with '':'' (pairs cleaned))))"

definition mac_bytes :: "string \<Rightarrow> bytes" where
  "mac_bytes m = the (from_hex (strip_colons m))"

definition rewrite_macs :: "bytes \<Rightarrow> string \<Rightarrow> string \<Rightarrow> bytes" where
  "rewrite_macs packet source destination =
     (let f1 = (if destination = [] then packet else mac_bytes destination @ drop 6 packet)
      in if source = [] then f1 else take 6 f1 @ mac_bytes source @ drop 12 f1)"

text \<open>The offset of the first EtherType that is not a VLAN tag.\<close>

function untagged_offset :: "bytes \<Rightarrow> nat \<Rightarrow> nat result" where
  "untagged_offset packet off =
     (if u16_at packet off \<in> set replay_vlan_ethertypes then
        (if length packet < off + 6 then Inl (ValueError ''The Ethernet frame has an incomplete VLAN stack.'')
         else untagged_offset packet (off + 4))
      else Inr off)"
  by pat_completeness auto
termination by (relation "measure (\<lambda>(packet, off). length packet - off)") auto

declare untagged_offset.simps [simp del]

definition remove_vlan_tags :: "bytes \<Rightarrow> bytes result" where
  "remove_vlan_tags packet = bindE (untagged_offset packet 12) (\<lambda>off. Inr (take 12 packet @ drop off packet))"

definition apply_vlan :: "string \<Rightarrow> bytes \<Rightarrow> int option \<Rightarrow> bytes result" where
  "apply_vlan action packet vlan =
     bindE (if action = ''replace'' \<or> action = ''remove'' then remove_vlan_tags packet else Inr packet) (\<lambda>untagged.
       if action = ''remove'' then Inr untagged
       else (case vlan of None \<Rightarrow> Inr untagged
         | Some v \<Rightarrow> Inr (take 12 untagged @ [0x81, 0x00] @ be16 (nat (v mod 4096)) @ slice 12 14 untagged @ drop 14 untagged)))"

section \<open>The summary of a frame\<close>

record vlan_tag =
  vt_ethertype :: nat
  vt_id :: nat
  vt_pcp :: nat
  vt_dei :: nat

record frame_summary =
  fs_destination :: string
  fs_source :: string
  fs_ethertype :: nat
  fs_vlans :: "vlan_tag list"
  fs_length :: nat
  fs_broadcast :: bool
  fs_multicast :: bool
  fs_protocol :: string
  fs_details :: "(string \<times> string) list"

definition format_mac :: "bytes \<Rightarrow> string" where
  "format_mac bs = join_with '':'' (map hex2 bs)"

definition ether_type_name :: "nat \<Rightarrow> string" where
  "ether_type_name v = (if v = 0x0800 then ''IPv4'' else if v = 0x0806 then ''ARP'' else if v = 0x86DD then ''IPv6'' else ''Ethernet'')"

definition ip_protocol_name :: "nat \<Rightarrow> string" where
  "ip_protocol_name v = (if v = 1 then ''ICMP'' else if v = 6 then ''TCP'' else if v = 17 then ''UDP''
     else if v = 58 then ''ICMPv6'' else ''IP protocol '' @ show_nat v)"

definition decode_ports :: "bytes \<Rightarrow> nat \<Rightarrow> (string \<times> string) list" where
  "decode_ports payload proto = (if (proto \<noteq> 6 \<and> proto \<noteq> 17) \<or> length payload < 4 then []
     else [(''Source port'', show_nat (u16_at payload 0)), (''Destination port'', show_nat (u16_at payload 2))])"

definition decode_ipv4 :: "bytes \<Rightarrow> frame_summary \<Rightarrow> frame_summary" where
  "decode_ipv4 payload s = (let ihl = (byte_at payload 0 mod 16) * 4; proto = byte_at payload 9 in
     if length payload < ihl \<or> ihl < 20 then s
     else s\<lparr>fs_protocol := ''IPv4 / '' @ ip_protocol_name proto,
       fs_details := fs_details s @ [(''Source IP'', ip4_text (slice 12 16 payload)), (''Destination IP'', ip4_text (slice 16 20 payload)),
         (''TTL'', show_nat (byte_at payload 8))] @ decode_ports (drop ihl payload) proto\<rparr>)"

fun hex_nat :: "nat \<Rightarrow> string" where
  "hex_nat n = (if n < 16 then [hex_digit n] else hex_nat (n div 16) @ [hex_digit (n mod 16)])"

declare hex_nat.simps [simp del]

definition format_ipv6 :: "bytes \<Rightarrow> string" where
  "format_ipv6 bs = join_with '':'' (map hex_nat (words16 bs))"

definition decode_ipv6 :: "bytes \<Rightarrow> frame_summary \<Rightarrow> frame_summary" where
  "decode_ipv6 payload s = (let proto = byte_at payload 6 in
     s\<lparr>fs_protocol := ''IPv6 / '' @ ip_protocol_name proto,
       fs_details := fs_details s @ [(''Source IP'', format_ipv6 (slice 8 24 payload)), (''Destination IP'', format_ipv6 (slice 24 40 payload)),
         (''Hop limit'', show_nat (byte_at payload 7))] @ decode_ports (drop 40 payload) proto\<rparr>)"

function read_tags :: "bytes \<Rightarrow> nat \<Rightarrow> nat \<Rightarrow> (vlan_tag list \<times> nat \<times> nat) result" where
  "read_tags frame ethertype off =
     (if ethertype \<in> set replay_vlan_ethertypes then
        (if length frame < off + 4 then Inl (ValueError ''The Ethernet frame has an incomplete VLAN header.'')
         else let tag = u16_at frame (off + 2) in
           if length frame < off + 6 then Inl (ValueError ''The Ethernet frame ends before the inner EtherType.'')
           else bindE (read_tags frame (u16_at frame (off + 4)) (off + 4)) (\<lambda>(tags, e, off').
             Inr (\<lparr>vt_ethertype = ethertype, vt_id = tag mod 4096, vt_pcp = tag div 8192 mod 8, vt_dei = tag div 4096 mod 2\<rparr> # tags, e, off')))
      else Inr ([], ethertype, off))"
  by pat_completeness auto
termination by (relation "measure (\<lambda>(frame, ethertype, off). length frame - off)") auto

declare read_tags.simps [simp del]

definition decode_frame :: "bytes \<Rightarrow> frame_summary result" where
  "decode_frame frame = bindE (validate_frame_size frame) (\<lambda>_.
     bindE (read_tags frame (u16_at frame 12) 12) (\<lambda>(tags, ethertype, off).
       let payload = off + 2; destination = format_mac (slice 0 6 frame);
           s = \<lparr>fs_destination = destination, fs_source = format_mac (slice 6 12 frame), fs_ethertype = ethertype,
             fs_vlans = tags, fs_length = length frame, fs_broadcast = (destination = ''ff:ff:ff:ff:ff:ff''),
             fs_multicast = (starts_with destination ''01:00:5e'' \<or> starts_with destination ''33:33''),
             fs_protocol = ether_type_name ethertype, fs_details = []\<rparr>
       in Inr (if ethertype = 0x0800 \<and> payload + 20 \<le> length frame then decode_ipv4 (drop payload frame) s
         else if ethertype = 0x86DD \<and> payload + 40 \<le> length frame then decode_ipv6 (drop payload frame) s else s)))"

section \<open>The plan\<close>

record replay_request =
  rr_source_mac :: string
  rr_destination_mac :: string
  rr_vlan_action :: string
  rr_vlan_ids :: string
  rr_repeat :: int
  rr_interval :: real

record replay_plan =
  rp_originals :: "bytes list"
  rp_frames :: "bytes list"
  rp_summary :: frame_summary
  rp_targets :: "int option list"
  rp_target_labels :: "string list"
  rp_bytes_per_frame :: nat
  rp_total_bytes :: nat
  rp_header_hex :: string
  rp_notes :: "string list"
  rp_warnings :: "string list"

definition validate_repeat_count :: "int \<Rightarrow> nat result" where
  "validate_repeat_count n = (if n < 1 then Inl (ValueError ''Repeat count must be at least 1.'') else Inr (nat n))"

definition validate_interval :: "real \<Rightarrow> real result" where
  "validate_interval x = (if min_interval \<le> x \<and> x \<le> max_interval then Inr x
     else Inl (ValueError ''Interval must be between 0.1 and 60 seconds.''))"

definition replay_warnings :: "frame_summary \<Rightarrow> string list" where
  "replay_warnings s = (if fs_broadcast s then [''Destination MAC is broadcast.'']
     else if fs_multicast s then [''Destination MAC is multicast.''] else [])"

definition replay_notes :: "bool \<Rightarrow> frame_summary \<Rightarrow> nat \<Rightarrow> nat \<Rightarrow> bool \<Rightarrow> string list" where
  "replay_notes darwin s repeat vlan_count tagged =
     (if 10 < repeat then [''Repeat count is above 10.''] else []) @
     (if 1 < vlan_count then [''VLAN fanout will send one copy on each of '' @ show_nat vlan_count @ '' targets per repeat.''] else []) @
     (if darwin \<and> (fs_vlans s \<noteq> [] \<or> tagged)
      then [''macOS VLAN replay uses Scapy's BPF raw-device path. If tcpdump or Wireshark does not show the frame, verify with a VLAN-aware capture filter such as 'vlan' or 'vlan and port 514'.'']
      else [])"

text \<open>\<open>for base in base_frames for vlan_id in vlan_targets\<close>.\<close>

definition one_pass_frames :: "string \<Rightarrow> bytes list \<Rightarrow> int option list \<Rightarrow> bytes list result" where
  "one_pass_frames action bases targets =
     bindE (collect (\<lambda>b. collect (apply_vlan action b) targets) bases) (\<lambda>rows. Inr (concat rows))"

definition normalized_macs :: "replay_request \<Rightarrow> (string \<times> string) result" where
  "normalized_macs r = bindE (normalize_mac_optional (rr_source_mac r)) (\<lambda>source.
     bindE (normalize_mac_optional (rr_destination_mac r)) (\<lambda>destination. Inr (source, destination)))"

definition requested_targets :: "replay_request \<Rightarrow> int option list result" where
  "requested_targets r =
     (if rr_vlan_action r \<notin> {''keep'', ''replace'', ''remove''} then Inl (ValueError ''Choose a valid VLAN handling option.'')
      else if rr_vlan_action r = ''keep'' then Inr [] else parse_vlan_targets (rr_vlan_ids r))"

definition check_schedule :: "nat \<Rightarrow> real \<Rightarrow> unit result" where
  "check_schedule frame_count interval =
     (if max_replay_frames < frame_count then Inl (ValueError ''Replay plans may contain at most 10,000 total frames.'')
      else if max_replay_duration < real (frame_count - 1) * interval
        then Inl (ValueError ''Replay timing may span at most 5 minutes. Reduce the repeat count, VLAN fanout, source packet count, or interval.'')
      else Inr ())"

definition prepare_replay_plan :: "bool \<Rightarrow> bytes list \<Rightarrow> replay_request \<Rightarrow> replay_plan result" where
  "prepare_replay_plan darwin packets r =
     (if packets = [] then Inl (ValueError ''There are no packets to replay.'')
      else bindE (collect validate_frame_size packets) (\<lambda>originals.
        bindE (validate_repeat_count (rr_repeat r)) (\<lambda>repeat.
        bindE (validate_interval (rr_interval r)) (\<lambda>interval.
        bindE (requested_targets r) (\<lambda>vlan_values.
        bindE (normalized_macs r) (\<lambda>(source, destination).
        let base_frames = map (\<lambda>p. rewrite_macs p source destination) originals;
            vlan_targets = (if vlan_values = [] then [None] else vlan_values) in
        bindE (one_pass_frames (rr_vlan_action r) base_frames vlan_targets) (\<lambda>one_pass.
        bindE (check_schedule (length one_pass * repeat) interval) (\<lambda>_.
        let frames = concat (replicate repeat one_pass) in
        bindE (decode_frame (hd one_pass)) (\<lambda>summary. Inr
          \<lparr>rp_originals = originals, rp_frames = frames, rp_summary = summary, rp_targets = vlan_values,
           rp_target_labels = map format_vlan_target vlan_values, rp_bytes_per_frame = length (hd one_pass),
           rp_total_bytes = sum_list (map length frames), rp_header_hex = bytes_hex_sep '' '' (take 22 (hd one_pass)),
           rp_notes = replay_notes darwin summary repeat (length vlan_targets) (list_ex (\<lambda>v. v \<noteq> None) vlan_targets),
           rp_warnings = replay_warnings summary\<rparr>)))))))))"

section \<open>Sending\<close>

text \<open>
  What the loop of \<open>_send_replay_frames_linux_socket\<close> does to the outside: it binds the socket,
  then sends the frames in order with a pause between two of them.  A call of the socket answers
  how many bytes it took, or raises.
\<close>

datatype replay_event = Bind string | Send bytes | Pause real

datatype socket_answer = Took nat | No_permission | Os_failed string

definition socket_error :: "string \<Rightarrow> socket_answer \<Rightarrow> py_error" where
  "socket_error interface a = (case a of
       Os_failed e \<Rightarrow> ValueError (''Packet replay failed on interface '' @ interface @ '': '' @ e)
     | _ \<Rightarrow> ValueError ''Packet replay needs Linux CAP_NET_RAW or root privileges for raw Ethernet sockets. Start the toolkit with suitable privileges on a dedicated diagnostic host, or grant CAP_NET_RAW to the Python interpreter used by the toolkit.'')"

fun send_each :: "(nat \<Rightarrow> bytes \<Rightarrow> socket_answer) \<Rightarrow> string \<Rightarrow> real \<Rightarrow> nat \<Rightarrow> bytes list
    \<Rightarrow> replay_event list \<times> unit result" where
  "send_each socket interface interval i [] = ([], Inr ())"
| "send_each socket interface interval i (f # fs) = (case socket i f of
       Took sent \<Rightarrow>
         if sent \<noteq> length f then ([Send f], Inl (ValueError (''Packet replay sent only '' @ show_nat sent @ '' of '' @
           show_nat (length f) @ '' bytes on '' @ interface @ ''.'')))
         else (case send_each socket interface interval (Suc i) fs of
             (tr, r) \<Rightarrow> (Send f # (if fs = [] then [] else [Pause interval]) @ tr, r))
     | a \<Rightarrow> ([Send f], Inl (socket_error interface a)))"

record replay_outcome =
  ro_sent :: nat
  ro_attempted :: nat
  ro_interface :: string
  ro_method :: string

text \<open>The first parameter answers the bind, the second one the sends.\<close>

definition send_replay_frames_linux ::
    "socket_answer option \<Rightarrow> (nat \<Rightarrow> bytes \<Rightarrow> socket_answer) \<Rightarrow> bytes list \<Rightarrow> string \<Rightarrow> real
     \<Rightarrow> replay_event list \<times> replay_outcome result" where
  "send_replay_frames_linux bind socket frames interface interval = (case bind of
       Some a \<Rightarrow> ([Bind interface], Inl (socket_error interface a))
     | None \<Rightarrow> (case send_each socket interface interval 0 frames of
         (tr, r) \<Rightarrow> (Bind interface # tr, bindE r (\<lambda>_. Inr
            \<lparr>ro_sent = length frames, ro_attempted = length frames, ro_interface = interface, ro_method = ''linux raw socket''\<rparr>))))"

definition send_replay_frames ::
    "socket_answer option \<Rightarrow> (nat \<Rightarrow> bytes \<Rightarrow> socket_answer) \<Rightarrow> bytes list \<Rightarrow> string \<Rightarrow> real
     \<Rightarrow> replay_event list \<times> replay_outcome result" where
  "send_replay_frames bind socket frames interface interval_seconds =
     (if interface = [] then ([], Inl (ValueError ''Choose a network interface.''))
      else if frames = [] then ([], Inl (ValueError ''There are no frames to send.''))
      else (case validate_interval interval_seconds of
          Inl e \<Rightarrow> ([], Inl e)
        | Inr interval \<Rightarrow> send_replay_frames_linux bind socket frames interface interval))"

end
