(* ===== verification/Replay_Facts.thy ===== *)
theory Replay_Facts
  imports Packet_Replay
begin

text \<open>
  Facts of the replay model: prepared packets survive the form field that carries them, and a plan
  that is accepted consists exactly of the frames the request describes, within the limits.
\<close>

section \<open>Prepared packets\<close>

lemma parse_hex_bytes:
  assumes "14 \<le> length p" "length p \<le> max_packet_bytes"
  shows "parse_hex_packet (bytes_hex p) = Inr p"
proof -
  have "bytes_hex p \<noteq> []" using assms length_bytes_hex [of p] by fastforce
  with assms show ?thesis by (simp add: parse_hex_packet_def keep_hex_bytes from_hex_bytes validate_frame_size_def)
qed

lemma bytes_hex_chars:
  assumes "c \<in> set (bytes_hex p)"
  shows "c \<noteq> CHR ''|'' \<and> \<not> py_space c"
proof -
  from assms obtain b where "c \<in> set (hex2 b)" by (auto simp: bytes_hex_def)
  then consider "c = hex_digit (unat b div 16)" | "c = hex_digit (unat b mod 16)"
    by (auto simp: hex2_def)
  then show ?thesis
    using hex_digit_facts [OF unat_byte_div [of b]] hex_digit_facts [of "unat b mod 16"] by cases simp_all
qed

lemma collect_read_back:
  "list_all (\<lambda>x. f (g x) = Inr x) xs \<Longrightarrow> collect f (map g xs) = Inr xs"
  by (induction xs) simp_all

lemma collect_ok: "collect f xs = Inr ys \<Longrightarrow> list_all2 (\<lambda>x y. f x = Inr y) xs ys"
  by (induction xs arbitrary: ys) (auto split: sum.splits simp: bindE_def)

lemma collect_validate:
  "collect validate_frame_size ps = Inr qs \<Longrightarrow> qs = ps \<and> list_all (\<lambda>p. 14 \<le> length p \<and> length p \<le> max_packet_bytes) ps"
  by (induction ps arbitrary: qs) (auto simp: bindE_eq_Inr validate_frame_size_def split: if_splits)

text \<open>
  Packets of 14 to 9216 bytes written into the form field \<open>packet_hex|packet_hex|...\<close> by
  \<open>encode_prepared_packets\<close> are exactly what \<open>parse_prepared_packets\<close> reads from it.
\<close>

theorem prepared_packets_read_back:
  assumes "ps \<noteq> []" "list_all (\<lambda>p. 14 \<le> length p \<and> length p \<le> max_packet_bytes) ps"
  shows "parse_prepared_packets (encode_prepared_packets ps) = Inr ps"
proof -
  have "list_all (\<lambda>w. CHR ''|'' \<notin> set w) (map bytes_hex ps)"
    by (auto simp: list_all_iff dest: bytes_hex_chars)
  with assms(1) have parts: "split_on (CHR ''|'') (encode_prepared_packets ps) = map bytes_hex ps"
    by (simp add: encode_prepared_packets_def split_on_join)
  have "bytes_hex p \<noteq> []" if "p \<in> set ps" for p
    using that assms(2) length_bytes_hex [of p] by (fastforce simp: list_all_iff)
  moreover have "py_strip (bytes_hex p) = bytes_hex p" for p
    by (rule py_strip_no_space) (auto simp: list_all_iff dest: bytes_hex_chars)
  ultimately have kept: "filter (\<lambda>h. py_strip h \<noteq> []) (map bytes_hex ps) = map bytes_hex ps"
    by (simp add: filter_id_conv)
  have "list_all (\<lambda>p. parse_hex_packet (bytes_hex p) = Inr p) ps"
    using assms(2) by (auto simp: list_all_iff parse_hex_bytes)
  then show ?thesis
    using assms(1) by (simp add: parse_prepared_packets_def parts kept collect_read_back)
qed

section \<open>The frames of a plan\<close>

text \<open>A typed address keeps its digits; only separators and case change.\<close>

lemma strip_colons_pairs:
  "even (length s) \<Longrightarrow> CHR '':'' \<notin> set s \<Longrightarrow> strip_colons (join_with '':'' (pairs s)) = s"
proof (induction s rule: pairs.induct)
  case (1 a b cs)
  then have ih: "strip_colons (join_with '':'' (pairs cs)) = cs" by simp
  show ?case
  proof (cases "pairs cs")
    case Nil
    with ih 1 show ?thesis by (auto simp: strip_colons_def)
  next
    case (Cons w ws)
    with ih 1 show ?thesis by (auto simp: strip_colons_def)
  qed
qed (simp_all add: strip_colons_def)

lemma lower_colon: "py_lower_char c = CHR '':'' \<longleftrightarrow> c = CHR '':''"
proof -
  have "of_char (py_lower_char c) = (58 :: nat) \<longleftrightarrow> of_char c = (58 :: nat)"
    by (auto simp: py_lower_char_def Let_def of_char_of)
  moreover have "d = CHR '':'' \<longleftrightarrow> of_char d = (58 :: nat)" for d
    using of_char_eq_iff [of d "CHR '':''", where ?'a = nat] by simp
  ultimately show ?thesis by simp
qed

lemma strip_colons_lower: "strip_colons (py_lower s) = py_lower (strip_colons s)"
  by (simp add: strip_colons_def py_lower_def filter_map o_def lower_colon)

lemma hex_facts:
  assumes "is_hex c"
  shows "hex_value (py_lower_char c) = hex_value c" "\<not> ascii_space c" "\<not> ascii_space (py_lower_char c)"
    "hex_value c \<noteq> None" "c \<noteq> CHR '':''"
  using assms by (auto simp: is_hex_def hex_value_def py_lower_char_def ascii_space_def Let_def of_char_of split: if_splits)

lemma fromhex_lower:
  "list_all is_hex s \<Longrightarrow> even (length s) \<Longrightarrow>
     \<exists>ns. fromhex s = Some ns \<and> fromhex (py_lower s) = Some ns \<and> 2 * length ns = length s"
proof (induction s rule: pairs.induct)
  case (1 a b cs)
  then obtain ns where "fromhex cs = Some ns \<and> fromhex (py_lower cs) = Some ns \<and> 2 * length ns = length cs" by auto
  moreover from 1 have "is_hex a" "is_hex b" by auto
  moreover from hex_facts(4) [OF this(1)] hex_facts(4) [OF this(2)] obtain h l
    where "hex_value a = Some h" "hex_value b = Some l" by auto
  ultimately show ?case by (auto simp: py_lower_def hex_facts)
qed (simp_all add: py_lower_def)

lemma normalized_mac:
  assumes "normalize_mac_optional v = Inr m"
  shows "m = [] \<longleftrightarrow> py_strip v = []"
    "m \<noteq> [] \<Longrightarrow> from_hex (keep_hex (py_strip v)) = Some (mac_bytes m) \<and> length (mac_bytes m) = 6"
proof -
  let ?c = "keep_hex (py_strip v)"
  have hex: "list_all is_hex ?c" by (simp add: keep_hex_def list_all_iff)
  then have colon: "CHR '':'' \<notin> set ?c" using hex_facts(5) by (auto simp: list_all_iff)
  have six: "\<exists>ns. fromhex ?c = Some ns \<and> fromhex (py_lower ?c) = Some ns \<and> 2 * length ns = 12"
    if "length ?c = 12" using fromhex_lower [OF hex] that by simp
  have m: "m = py_lower (join_with '':'' (pairs ?c))" "length ?c = 12" if "py_strip v \<noteq> []"
    using assms that by (simp_all add: normalize_mac_optional_def Let_def split: if_splits)
  have strip: "strip_colons m = py_lower ?c" if "py_strip v \<noteq> []"
    using m [OF that] colon by (simp add: strip_colons_lower strip_colons_pairs)
  show blank: "m = [] \<longleftrightarrow> py_strip v = []"
  proof (cases "py_strip v = []")
    case True
    with assms show ?thesis by (simp add: normalize_mac_optional_def)
  next
    case False
    have "strip_colons m \<noteq> []" using strip [OF False] m [OF False] by (auto simp: py_lower_def)
    with False show ?thesis by (auto simp: strip_colons_def)
  qed
  show "from_hex ?c = Some (mac_bytes m) \<and> length (mac_bytes m) = 6" if "m \<noteq> []"
  proof -
    have nb: "py_strip v \<noteq> []" using that blank by simp
    with six m(2) obtain ns where ns: "fromhex ?c = Some ns" "fromhex (py_lower ?c) = Some ns" "2 * length ns = 12" by auto
    then show ?thesis by (simp add: mac_bytes_def strip [OF nb] from_hex_def)
  qed
qed

section \<open>The frames of a plan\<close>

text \<open>The specification: the payload without its tags, and the frame a request asks for.\<close>

fun peel_tags :: "bytes \<Rightarrow> bytes" where
  "peel_tags (a # b # c # d # rest) =
     (if from_be [a, b] \<in> set replay_vlan_ethertypes then peel_tags rest else a # b # c # d # rest)"
| "peel_tags rest = rest"

definition asked_mac :: "string \<Rightarrow> bytes \<Rightarrow> bytes" where
  "asked_mac v old = (if py_strip v = [] then old else the (from_hex (keep_hex (py_strip v))))"

definition asked_frame :: "replay_request \<Rightarrow> bytes \<Rightarrow> int option \<Rightarrow> bytes" where
  "asked_frame r p v = asked_mac (rr_destination_mac r) (take 6 p) @ asked_mac (rr_source_mac r) (slice 6 12 p) @
     (if rr_vlan_action r = ''keep'' then drop 12 p
      else if rr_vlan_action r = ''remove'' then peel_tags (drop 12 p)
      else (case v of None \<Rightarrow> [] | Some i \<Rightarrow> [0x81, 0x00] @ be16 (nat i)) @ peel_tags (drop 12 p))"

lemma untagged_offset_peels:
  "untagged_offset p off = Inr off' \<Longrightarrow> off + 2 \<le> length p \<Longrightarrow>
     drop off' p = peel_tags (drop off p) \<and> off \<le> off' \<and> off' + 2 \<le> length p"
proof (induction p off arbitrary: off' rule: untagged_offset.induct)
  case (1 p off)
  note ih = 1(1) and run = 1(2) and room = 1(3)
  show ?case
  proof (cases "u16_at p off \<in> set replay_vlan_ethertypes")
    case True
    with run have long: "off + 6 \<le> length p" and rec: "untagged_offset p (off + 4) = Inr off'"
      by (simp_all add: untagged_offset.simps [of p off] split: if_splits)
    have IH: "drop off' p = peel_tags (drop (off + 4) p) \<and> off + 4 \<le> off' \<and> off' + 2 \<le> length p"
      using ih [OF True _ rec] long by simp
    have "4 \<le> length (drop off p)" using long by simp
    then obtain a b c d rest where d: "drop off p = a # b # c # d # rest"
      by (cases "drop off p" rule: peel_tags.cases) simp_all
    have "drop (off + 4) p = drop 4 (drop off p)" by (simp add: add.commute)
    then have "drop (off + 4) p = rest" unfolding d by simp
    with IH True d show ?thesis by (simp add: u16_at_def slice_def)
  next
    case False
    with run have "off' = off" by (simp add: untagged_offset.simps [of p off])
    moreover have "peel_tags (drop off p) = drop off p"
      using False by (cases "drop off p" rule: peel_tags.cases) (simp_all add: u16_at_def slice_def)
    ultimately show ?thesis using room by simp
  qed
qed

text \<open>Rewriting the addresses leaves everything behind them in place.\<close>

lemma rewrite_macs_shape:
  assumes "12 \<le> length p" "normalize_mac_optional sv = Inr sm" "normalize_mac_optional dv = Inr dm"
  shows "rewrite_macs p sm dm = asked_mac dv (take 6 p) @ asked_mac sv (slice 6 12 p) @ drop 12 p"
    "length (asked_mac dv (take 6 p)) = 6" "length (asked_mac sv (slice 6 12 p)) = 6"
proof -
  have p: "p = take 6 p @ slice 6 12 p @ drop 12 p"
  proof -
    have "drop 12 p = drop 6 (drop 6 p)" by simp
    then show ?thesis by (simp add: slice_def del: drop_drop)
  qed
  have dst: "asked_mac dv (take 6 p) = (if dm = [] then take 6 p else mac_bytes dm)"
    and src: "asked_mac sv (slice 6 12 p) = (if sm = [] then slice 6 12 p else mac_bytes sm)"
    using normalized_mac [OF assms(2)] normalized_mac [OF assms(3)] by (auto simp: asked_mac_def)
  have ls: "sm \<noteq> [] \<Longrightarrow> length (mac_bytes sm) = 6" and ld: "dm \<noteq> [] \<Longrightarrow> length (mac_bytes dm) = 6"
    using normalized_mac [OF assms(2)] normalized_mac [OF assms(3)] by auto
  show lens: "length (asked_mac dv (take 6 p)) = 6" "length (asked_mac sv (slice 6 12 p)) = 6"
    using assms(1) ls ld by (auto simp: dst src)
  define x y z where "x = take 6 p" and "y = slice 6 12 p" and "z = drop 12 p"
  have lx: "length x = 6" "length y = 6" and pe: "p = x @ y @ z"
    using assms(1) p by (simp_all add: x_def y_def z_def)
  show "rewrite_macs p sm dm = asked_mac dv (take 6 p) @ asked_mac sv (slice 6 12 p) @ drop 12 p"
    unfolding dst src unfolding x_def [symmetric] y_def [symmetric] z_def [symmetric] rewrite_macs_def
    using ls ld lx by (auto simp: pe Let_def)
qed

lemma untagged_offset_prefix:
  "drop 12 p = drop 12 q \<Longrightarrow> length p = length q \<Longrightarrow> 12 \<le> off \<Longrightarrow> untagged_offset p off = untagged_offset q off"
proof (induction p off rule: untagged_offset.induct)
  case (1 p off)
  have "drop off p = drop off q" using 1(2,4) by (metis drop_drop le_add_diff_inverse2)
  then have u: "u16_at p off = u16_at q off" by (simp add: u16_at_def slice_def)
  show ?case using 1 by (simp add: untagged_offset.simps [of p off] untagged_offset.simps [of q off] u)
qed

text \<open>Targets are VLAN identifiers, and what a plan does with one is what was asked.\<close>

definition target_ok :: "int option \<Rightarrow> bool" where
  "target_ok v = (case v of None \<Rightarrow> True | Some i \<Rightarrow> 0 \<le> i \<and> i \<le> 4094)"

lemma target_ok_none: "target_ok None" by (simp add: target_ok_def)

lemma expand_vlan_ok: "expand_vlan_token w = Inr ids \<Longrightarrow> list_all (\<lambda>i. target_ok (Some i)) ids"
  by (auto simp: expand_vlan_token_def bindE_eq_Inr validate_vlan_id_def target_ok_def list_all_iff
      split: if_splits)

lemma set_add_target: "set (foldl add_target vs ts) = set vs \<union> set ts"
  by (induction ts arbitrary: vs) (auto simp: add_target_def)

lemma vlan_targets_ok:
  "vlan_targets ps vs = Inr ts \<Longrightarrow> list_all target_ok vs \<Longrightarrow> list_all target_ok ts"
proof (induction ps vs arbitrary: ts rule: vlan_targets.induct)
  case (2 p ps vs)
  show ?case
  proof (cases "py_lower p \<in> {''untagged'', ''none'', ''native''}")
    case True
    have "list_all target_ok (add_target vs None)"
      using 2(4) by (simp add: add_target_def target_ok_none)
    with 2(1) [OF True] 2(3) True show ?thesis by simp
  next
    case False
    with 2(3) obtain ids where ids: "expand_vlan_token p = Inr ids"
      and rest: "vlan_targets ps (foldl add_target vs (map Some ids)) = Inr ts" by (auto simp: bindE_eq_Inr)
    have "list_all target_ok (foldl add_target vs (map Some ids))"
      using expand_vlan_ok [OF ids] 2(4) by (auto simp: list_all_iff set_add_target)
    with 2(2) [OF False rest] show ?thesis .
  qed
qed simp

lemma requested_targets_ok: "requested_targets r = Inr ts \<Longrightarrow> list_all target_ok ts"
  by (auto simp: requested_targets_def parse_vlan_targets_def intro: vlan_targets_ok split: if_splits)

lemma applied_frame:
  assumes len: "14 \<le> length p" and macs: "normalized_macs r = Inr (sm, dm)" and action: "requested_targets r = Inr ts"
    and v: "v \<in> set (if ts = [] then [None] else ts)"
    and run: "apply_vlan (rr_vlan_action r) (rewrite_macs p sm dm) v = Inr f"
  shows "f = asked_frame r p v"
proof -
  let ?a = "asked_mac (rr_destination_mac r) (take 6 p)" and ?b = "asked_mac (rr_source_mac r) (slice 6 12 p)"
  from macs have norm: "normalize_mac_optional (rr_source_mac r) = Inr sm" "normalize_mac_optional (rr_destination_mac r) = Inr dm"
    by (auto simp: normalized_macs_def bindE_eq_Inr)
  note shape = rewrite_macs_shape [OF _ norm, of p]
  have base: "rewrite_macs p sm dm = ?a @ ?b @ drop 12 p" and six: "length ?a = 6" "length ?b = 6" using shape len by simp_all
  define q where "q = rewrite_macs p sm dm"
  have q12: "take 12 q = ?a @ ?b" "drop 12 q = drop 12 p" "length q = length p" using base six len by (simp_all add: q_def)
  have act: "rr_vlan_action r \<in> {''keep'', ''replace'', ''remove''}"
    using action by (auto simp: requested_targets_def split: if_splits)
  have ok: "target_ok v" using requested_targets_ok [OF action] v by (auto simp: target_ok_def list_all_iff split: if_splits)
  show ?thesis
  proof (cases "rr_vlan_action r = ''keep''")
    case True
    then have "v = None" using action v by (auto simp: requested_targets_def)
    with True run base show ?thesis by (simp add: apply_vlan_def asked_frame_def)
  next
    case False
    then have ract: "rr_vlan_action r = ''replace'' \<or> rr_vlan_action r = ''remove''" using act by auto
    with run obtain u where u: "remove_vlan_tags q = Inr u"
      and f: "f = (if rr_vlan_action r = ''remove'' then u else (case v of None \<Rightarrow> u
        | Some i \<Rightarrow> take 12 u @ [0x81, 0x00] @ be16 (nat (i mod 4096)) @ slice 12 14 u @ drop 14 u))"
      by (auto simp: apply_vlan_def q_def bindE_eq_Inr split: option.splits if_splits)
    from u obtain off where off: "untagged_offset q 12 = Inr off" and uq: "u = take 12 q @ drop off q"
      by (auto simp: remove_vlan_tags_def bindE_eq_Inr)
    have peel: "drop off q = peel_tags (drop 12 p)"
      using untagged_offset_peels [OF off] q12 len by simp
    have u12: "take 12 u = ?a @ ?b" "drop 12 u = peel_tags (drop 12 p)"
      using uq q12 six peel by simp_all
    have "slice 12 14 u @ drop 14 u = drop 12 u"
      using append_take_drop_id [of 2 "drop 12 u"] by (simp add: slice_def)
    then show ?thesis
      using f u12 uq q12 peel False act ok
      by (auto simp: asked_frame_def target_ok_def split: option.splits if_splits)
  qed
qed

lemma collect_map:
  assumes "collect f xs = Inr ys" "\<And>x y. x \<in> set xs \<Longrightarrow> f x = Inr y \<Longrightarrow> y = g x"
  shows "ys = map g xs"
  using assms by (induction xs arbitrary: ys) (auto simp: bindE_eq_Inr)

text \<open>
  C20: A replay plan that is accepted consists of exactly the frames the request describes, every
  VLAN target of every packet in order and the whole pass once per repetition: each frame carries
  the requested addresses, and under \<open>replace\<close> and \<open>remove\<close> the payload of its packet without its
  old tags behind the single requested tag, if any.  The plan has at most 10,000 frames and its
  pauses span at most 300 seconds.
\<close>

theorem replay_plan_as_requested:
  assumes "prepare_replay_plan darwin ps r = Inr plan"
  shows "requested_targets r = Inr (rp_targets plan) \<and>
    rp_frames plan = concat (replicate (nat (rr_repeat r)) (concat (map (\<lambda>p.
      map (asked_frame r p) (if rp_targets plan = [] then [None] else rp_targets plan)) ps))) \<and>
    length (rp_frames plan) \<le> 10000 \<and> real (length (rp_frames plan) - 1) * rr_interval r \<le> 300"
proof -
  from assms obtain os n iv ts sm dm one sumry where
    os: "collect validate_frame_size ps = Inr os" and n: "validate_repeat_count (rr_repeat r) = Inr n"
    and iv: "validate_interval (rr_interval r) = Inr iv" and ts: "requested_targets r = Inr ts"
    and macs: "normalized_macs r = Inr (sm, dm)"
    and one: "one_pass_frames (rr_vlan_action r) (map (\<lambda>p. rewrite_macs p sm dm) os) (if ts = [] then [None] else ts) = Inr one"
    and sched: "check_schedule (length one * n) iv = Inr ()"
    and plan: "rp_targets plan = ts" "rp_frames plan = concat (replicate n one)"
    by (auto simp: prepare_replay_plan_def bindE_eq_Inr Let_def split: if_splits)
  have osp: "os = ps" and lens: "p \<in> set ps \<Longrightarrow> 14 \<le> length p" for p
    using collect_validate [OF os] by (auto simp: list_all_iff)
  let ?vs = "if ts = [] then [None] else ts"
  from one osp obtain rows where one': "one = concat rows"
    and rows: "collect (\<lambda>b. collect (apply_vlan (rr_vlan_action r) b) ?vs) (map (\<lambda>p. rewrite_macs p sm dm) ps) = Inr rows"
    by (auto simp: one_pass_frames_def bindE_eq_Inr)
  have "collect (\<lambda>p. collect (apply_vlan (rr_vlan_action r) (rewrite_macs p sm dm)) ?vs) ps = Inr rows"
    using rows by (simp only: collect_comp)
  then have "rows = map (\<lambda>p. map (asked_frame r p) ?vs) ps"
    by (rule collect_map) (rule collect_map, assumption, rule applied_frame [OF lens macs ts])
  moreover have "n = nat (rr_repeat r)" "iv = rr_interval r"
    using n iv by (auto simp: validate_repeat_count_def validate_interval_def split: if_splits)
  moreover have "length (concat (replicate n one)) = length one * n"
    by (simp add: length_concat map_replicate sum_list_replicate mult.commute)
  ultimately show ?thesis
    using ts plan one' sched
    by (simp add: check_schedule_def max_replay_frames_def max_replay_duration_def not_less split: if_splits)
qed

section \<open>Concrete inputs\<close>

theorem prepared_packets_read_back_witness:
  "parse_prepared_packets (encode_prepared_packets [zeros 14, zeros 60]) = Inr [zeros 14, zeros 60]"
  by (rule prepared_packets_read_back) (simp_all add: max_packet_bytes_def)

definition sample_request :: replay_request where
  "sample_request = \<lparr>rr_source_mac = [], rr_destination_mac = ''02-00-00-00-00-0A'', rr_vlan_action = ''replace'',
     rr_vlan_ids = ''10'', rr_repeat = 2, rr_interval = 1\<rparr>"

definition sample_packet :: bytes where
  "sample_packet = [0, 0, 0, 0, 0, 0, 0, 0, 0, 0, 0, 0, 0x81, 0x00, 0x00, 0x05, 0x12, 0x34, 0x01]"

definition sample_frame :: bytes where
  "sample_frame = [2, 0, 0, 0, 0, 10, 0, 0, 0, 0, 0, 0, 0x81, 0x00, 0x00, 0x0A, 0x12, 0x34, 0x01]"

lemma sample_steps:
  "requested_targets sample_request = Inr [Some 10]"
  "normalized_macs sample_request = Inr ([], ''02:00:00:00:00:0a'')"
  "one_pass_frames ''replace'' [rewrite_macs sample_packet [] ''02:00:00:00:00:0a''] [Some 10] = Inr [sample_frame]"
  "asked_frame sample_request sample_packet (Some 10) = sample_frame"
  "\<not> isl (decode_frame sample_frame)"
proof -
  show "requested_targets sample_request = Inr [Some 10]" by code_simp
  show "normalized_macs sample_request = Inr ([], ''02:00:00:00:00:0a'')" by code_simp
  have r: "rewrite_macs sample_packet [] ''02:00:00:00:00:0a''
    = [2, 0, 0, 0, 0, 10, 0, 0, 0, 0, 0, 0, 0x81, 0x00, 0x00, 0x05, 0x12, 0x34, 0x01]" by code_simp
  note ev = u16_at_def slice_def from_be_def replay_vlan_ethertypes_def be16_def
  show "one_pass_frames ''replace'' [rewrite_macs sample_packet [] ''02:00:00:00:00:0a''] [Some 10] = Inr [sample_frame]"
    unfolding r by (simp add: one_pass_frames_def apply_vlan_def remove_vlan_tags_def untagged_offset.simps ev sample_frame_def)
  have macs: "asked_mac (rr_destination_mac sample_request) old = [2, 0, 0, 0, 0, 10]"
    "asked_mac (rr_source_mac sample_request) old = old" for old by code_simp+
  show "asked_frame sample_request sample_packet (Some 10) = sample_frame"
    unfolding asked_frame_def macs by (simp add: sample_request_def sample_packet_def sample_frame_def ev)
  show "\<not> isl (decode_frame sample_frame)"
    by (simp add: decode_frame_def validate_frame_size_def max_packet_bytes_def read_tags.simps ev sample_frame_def Let_def)
qed

theorem replay_plan_as_requested_witness:
  "\<exists>plan. prepare_replay_plan False [sample_packet] sample_request = Inr plan \<and>
     rp_frames plan = [sample_frame, sample_frame]"
proof -
  have sizes: "collect validate_frame_size [sample_packet] = Inr [sample_packet]"
    by (simp add: validate_frame_size_def sample_packet_def max_packet_bytes_def)
  have fields: "rr_repeat sample_request = 2" "rr_interval sample_request = 1" "rr_vlan_action sample_request = ''replace''"
    by (simp_all add: sample_request_def)
  from sample_steps(5) obtain s where s: "decode_frame sample_frame = Inr s" by (cases "decode_frame sample_frame") auto
  have "\<exists>plan. prepare_replay_plan False [sample_packet] sample_request = Inr plan \<and> rp_targets plan = [Some 10]"
    by (simp add: prepare_replay_plan_def Let_def sizes fields sample_steps(1-3) s validate_repeat_count_def
        validate_interval_def min_interval_def max_interval_def check_schedule_def max_replay_frames_def
        max_replay_duration_def del: collect.simps)
  then obtain plan where plan: "prepare_replay_plan False [sample_packet] sample_request = Inr plan"
    "rp_targets plan = [Some 10]" by blast
  with replay_plan_as_requested [OF plan(1)] show ?thesis
    by (simp add: fields sample_steps(4) numeral_2_eq_2)
qed

end
