(* ===== verification/Automation_Store.thy ===== *)
theory Automation_Store
  imports Net_Bytes "HOL-Library.List_Lexorder" "HOL-Library.Char_ord" "HOL-Library.Product_Lexorder"
begin

text \<open>
  \<open>twn_toolkit/automation.py\<close>, \<open>AutomationStore\<close>: the tables, the stages of a pipeline, the
  reusable condition and action definitions, and the saved automations.

  A column that holds JSON text is modelled by the value the code writes into it.  The encrypted
  columns hold a value of type \<open>'c\<close>, made and read by the parameters of \<open>sealer\<close> (Fernet over
  JSON).  Identifiers from \<open>secrets.token_hex\<close> are arguments; a clash is the integrity error of
  the primary key.  Every transaction that raises is rolled back, so it leaves the state as it was.
\<close>

section \<open>Results of conditions and actions\<close>

text \<open>The evidence of a result is a dictionary; the keys the engine itself adds are fields here.\<close>

record envelope =
  en_kind :: string
  en_type :: string
  en_observed :: real

record prior_item =
  pi_id :: string
  pi_name :: string
  pi_type :: string
  pi_stage_id :: string
  pi_stage_name :: string
  pi_status :: string
  pi_summary :: string
  pi_output :: "(string \<times> json) list"

record prior_context =
  pc_results :: "prior_item list"
  pc_successful :: "string list"
  pc_partial :: "string list"
  pc_failed :: "string list"

record execution_ref =
  ex_job :: string
  ex_attempt :: nat
  ex_scheduled :: real
  ex_queued :: real

record evidence =
  ev_fields :: "(string \<times> json) list"
  ev_evaluation :: "envelope option"
  ev_execution :: "execution_ref option"
  ev_actions :: "prior_context option"

record condition_result =
  cr_met :: bool
  cr_status :: string
  cr_summary :: string
  cr_evidence :: evidence

record action_result =
  ar_status :: string
  ar_summary :: string
  ar_output :: "(string \<times> json) list"

definition plain_evidence :: "(string \<times> json) list \<Rightarrow> evidence" where
  "plain_evidence kvs = \<lparr>ev_fields = kvs, ev_evaluation = None, ev_execution = None, ev_actions = None\<rparr>"

definition evaluation_result :: "condition_result \<Rightarrow> string \<Rightarrow> string \<Rightarrow> real \<Rightarrow> condition_result" where
  "evaluation_result r kind type_id observed_at =
     r\<lparr>cr_evidence := (cr_evidence r)\<lparr>ev_evaluation :=
        Some \<lparr>en_kind = kind, en_type = type_id, en_observed = observed_at\<rparr>\<rparr>\<rparr>"

section \<open>Stages\<close>

definition automation_max_stage_delay :: int where
  "automation_max_stage_delay = 86400"

definition stage_policies :: "string list" where
  "stage_policies = [''all_completed'', ''success_or_partial'', ''all_success'', ''any_failed'', ''all_failed'']"

definition stage_should_continue :: "string \<Rightarrow> string list \<Rightarrow> bool" where
  "stage_should_continue policy statuses =
     (let failure_flags = map (\<lambda>s. s \<noteq> ''success'' \<and> s \<noteq> ''partial'') statuses in
        policy = ''all_completed''
      \<or> (policy = ''success_or_partial'' \<and> \<not> list_ex id failure_flags)
      \<or> (policy = ''all_success'' \<and> list_all (\<lambda>s. s = ''success'') statuses)
      \<or> (policy = ''any_failed'' \<and> list_ex id failure_flags)
      \<or> (policy = ''all_failed'' \<and> failure_flags \<noteq> [] \<and> list_all id failure_flags))"

record stage =
  st_id :: string
  st_name :: string
  st_policy :: string
  st_delay :: int
  st_actions :: "string list"

text \<open>A stage as the caller gives it; an absent delay is 0, one that is not a number is \<open>None\<close>.\<close>

record raw_stage =
  rs_id :: string
  rs_name :: string
  rs_policy :: string
  rs_delay :: "int option"
  rs_actions :: "string list"

text \<open>\<open>' '.join(text.strip().split())\<close>.\<close>

definition squeeze :: "string \<Rightarrow> string" where
  "squeeze s = join_with '' '' (split_words (py_strip s))"

definition clean_ids :: "string list \<Rightarrow> string list" where
  "clean_ids vs = filter (\<lambda>v. v \<noteq> []) (map py_strip vs)"

definition normalize_stage :: "nat \<Rightarrow> string list \<Rightarrow> raw_stage \<Rightarrow> stage result" where
  "normalize_stage index seen raw =
     (let stage_id = (if py_strip (rs_id raw) = [] then ''stage-'' @ show_nat index else py_strip (rs_id raw));
          name = (if squeeze (rs_name raw) = [] then ''Stage '' @ show_nat index else squeeze (rs_name raw)) in
      if stage_id \<in> set seen \<or> 80 < length stage_id
        then Inl (ValueError ''Every automation stage must have a unique stable ID.'')
      else if 100 < length name then Inl (ValueError ''Stage names must be 100 characters or fewer.'')
      else if rs_policy raw \<notin> set stage_policies then Inl (ValueError ''Select a valid stage continuation policy.'')
      else (case rs_delay raw of None \<Rightarrow> Inl (ValueError ''Stage delays must be whole seconds.'')
        | Some delay \<Rightarrow>
            if \<not> (0 \<le> delay \<and> delay \<le> automation_max_stage_delay)
              then Inl (ValueError ''Stage delays must be between 0 seconds and 24 hours.'')
            else if clean_ids (rs_actions raw) = []
              then Inl (ValueError (name @ '' must contain at least one action.''))
            else Inr \<lparr>st_id = stage_id, st_name = name, st_policy = rs_policy raw,
              st_delay = (if index = 1 then 0 else delay), st_actions = clean_ids (rs_actions raw)\<rparr>))"

fun normalize_each :: "nat \<Rightarrow> string list \<Rightarrow> raw_stage list \<Rightarrow> stage list result" where
  "normalize_each index seen [] = Inr []"
| "normalize_each index seen (raw # raws) = bindE (normalize_stage index seen raw) (\<lambda>s.
     bindE (normalize_each (Suc index) (st_id s # seen) raws) (\<lambda>ss. Inr (s # ss)))"

text \<open>The repair of a route that an older form put on the last card.\<close>

fun move_last_route :: "stage list \<Rightarrow> stage list" where
  "move_last_route (a # b # []) =
     (if st_policy b \<noteq> ''all_completed'' \<and> st_policy a = ''all_completed''
      then [a\<lparr>st_policy := st_policy b\<rparr>, b\<lparr>st_policy := ''all_completed''\<rparr>] else [a, b])"
| "move_last_route (a # b # c # ss) = a # move_last_route (b # c # ss)"
| "move_last_route ss = ss"

definition legacy_stage :: "string list \<Rightarrow> raw_stage" where
  "legacy_stage ids = \<lparr>rs_id = ''stage-1'', rs_name = ''Stage 1'', rs_policy = ''all_completed'',
     rs_delay = Some 0, rs_actions = ids\<rparr>"

definition normalize_action_stages :: "raw_stage list \<Rightarrow> string list \<Rightarrow> stage list result" where
  "normalize_action_stages stages legacy_ids =
     bindE (normalize_each 1 [] (if stages = [] then [legacy_stage legacy_ids] else stages)) (\<lambda>normalized.
       Inr (move_last_route normalized))"

text \<open>A stored stage read back as the input of \<open>_normalize_action_stages\<close>.\<close>

definition raw_of_stage :: "stage \<Rightarrow> raw_stage" where
  "raw_of_stage s = \<lparr>rs_id = st_id s, rs_name = st_name s, rs_policy = st_policy s,
     rs_delay = Some (st_delay s), rs_actions = st_actions s\<rparr>"

section \<open>Tables\<close>

datatype auto_state = ADisabled | AHealthy | ASuspect | ATriggered | ARecovering | AScheduled
  | ACompleted | AArmed | AError

record automation =
  au_id :: string
  au_name :: string
  au_enabled :: bool
  au_interval :: int
  au_trigger_after :: nat
  au_recover_after :: nat
  au_cooldown :: nat
  au_condition_type :: string
  au_condition_config :: "(string \<times> json) list"
  au_condition_id :: string
  au_condition_ids :: "string list"
  au_operator :: string
  au_action_ids :: "string list"
  au_stages :: "stage list"
  au_state :: auto_state
  au_met :: nat
  au_clear :: nat
  au_next :: "real option"
  au_pending :: "real option"
  au_last_check :: "real option"
  au_last_triggered :: "real option"
  au_last_summary :: string
  au_last_error :: "string option"
  au_created_by :: string
  au_created :: real
  au_updated :: real

record condition_def =
  cd_id :: string
  cd_name :: string
  cd_type :: string
  cd_config :: "(string \<times> json) list"
  cd_created :: real
  cd_updated :: real

record 'c action_def =
  ad_id :: string
  ad_name :: string
  ad_type :: string
  ad_config :: 'c
  ad_created :: real
  ad_updated :: real

record check =
  ck_automation :: string
  ck_at :: real
  ck_met :: bool
  ck_status :: string
  ck_summary :: string
  ck_evidence :: evidence

record auto_run =
  rn_id :: string
  rn_automation :: string
  rn_started :: real
  rn_finished :: real
  rn_status :: string
  rn_summary :: string
  rn_results :: "action_result list"

datatype job_status = Queued | Waiting | Running | Completed | Failed

record 'c auto_job =
  aj_id :: string
  aj_automation :: string
  aj_status :: job_status
  aj_scheduled :: real
  aj_queued :: real
  aj_claimed :: "real option"
  aj_started :: "real option"
  aj_finished :: "real option"
  aj_lease :: "real option"
  aj_next :: "real option"
  aj_attempts :: nat
  aj_trigger :: condition_result
  aj_plan :: 'c
  aj_progress :: "'c option"
  aj_run :: "string option"
  aj_error :: "string option"

record event_state =
  es_automation :: string
  es_source :: string
  es_key :: string
  es_occurred :: real
  es_updated :: real

text \<open>The settings table: the retention in days, and when history was last pruned.\<close>

record retention =
  rt_check_days :: int
  rt_run_days :: int
  rt_last_pruned :: real

definition default_retention :: retention where
  "default_retention = \<lparr>rt_check_days = 7, rt_run_days = 0, rt_last_pruned = 0\<rparr>"

record 'c auto_store =
  as_automations :: "automation list"
  as_conditions :: "condition_def list"
  as_actions :: "'c action_def list"
  as_checks :: "check list"
  as_runs :: "auto_run list"
  as_jobs :: "'c auto_job list"
  as_events :: "event_state list"
  as_retention :: retention

definition empty_auto_store :: "'c auto_store" where
  "empty_auto_store = \<lparr>as_automations = [], as_conditions = [], as_actions = [], as_checks = [],
     as_runs = [], as_jobs = [], as_events = [], as_retention = default_retention\<rparr>"

text \<open>\<open>SELECT ... WHERE id = ?\<close>.\<close>

definition find_automation :: "'c auto_store \<Rightarrow> string \<Rightarrow> automation option" where
  "find_automation s i = select_first (\<lambda>a. au_id a = i) (as_automations s)"

definition get_condition_definition :: "'c auto_store \<Rightarrow> string \<Rightarrow> condition_def option" where
  "get_condition_definition s i = select_first (\<lambda>c. cd_id c = i) (as_conditions s)"

definition get_action_definition :: "'c auto_store \<Rightarrow> string \<Rightarrow> 'c action_def option" where
  "get_action_definition s i = select_first (\<lambda>a. ad_id a = i) (as_actions s)"

text \<open>\<open>COALESCE(automation_conditions.type, automations.condition_type)\<close> over the left join.\<close>

definition effective_type :: "'c auto_store \<Rightarrow> automation \<Rightarrow> string" where
  "effective_type s a = (case get_condition_definition s (au_condition_id a) of
     Some c \<Rightarrow> cd_type c | None \<Rightarrow> au_condition_type a)"

definition set_automations :: "(automation \<Rightarrow> bool) \<Rightarrow> (automation \<Rightarrow> automation) \<Rightarrow> 'c auto_store \<Rightarrow> 'c auto_store" where
  "set_automations p f s = s\<lparr>as_automations := update_rows p f (as_automations s)\<rparr>"

end
