(* ===== verification/Automation_Definitions.thy ===== *)
theory Automation_Definitions
  imports Automation_Store
begin

text \<open>
  \<open>AutomationStore\<close>: saving, deleting and pausing automations and the reusable conditions and
  actions they name.  A method that runs several transactions keeps those that have committed
  when a later one raises, so it returns the state beside its result.
\<close>

section \<open>Secrets and sequencing\<close>

record plan_action =
  pa_id :: string
  pa_name :: string
  pa_type :: string
  pa_config :: "(string \<times> json) list"

record plan_stage =
  ps_stage :: stage
  ps_actions :: "plan_action list"

record plan =
  pl_id :: string
  pl_name :: string
  pl_stages :: "plan_stage list"

record stage_progress =
  pg_next :: int
  pg_delay_done :: string
  pg_results :: "action_result list"
  pg_context :: prior_context

record 'c sealer =
  seal_config :: "(string \<times> json) list \<Rightarrow> 'c"
  open_config :: "'c \<Rightarrow> (string \<times> json) list option"
  seal_plan :: "plan \<Rightarrow> 'c"
  open_plan :: "'c \<Rightarrow> plan option"
  seal_progress :: "stage_progress \<Rightarrow> 'c"
  open_progress :: "'c \<Rightarrow> stage_progress option"

definition sealer_ok :: "'c sealer \<Rightarrow> bool" where
  "sealer_ok E \<longleftrightarrow> (\<forall>c. open_config E (seal_config E c) = Some c) \<and>
     (\<forall>p. open_plan E (seal_plan E p) = Some p) \<and> (\<forall>p. open_progress E (seal_progress E p) = Some p)"

definition decrypted :: "'a option \<Rightarrow> 'a result" where
  "decrypted v = (case v of None \<Rightarrow> Inl (RuntimeError ''Could not decrypt saved automation actions.'') | Some x \<Rightarrow> Inr x)"

definition bindS :: "'s \<times> 'a result \<Rightarrow> ('s \<Rightarrow> 'a \<Rightarrow> 's \<times> 'b result) \<Rightarrow> 's \<times> 'b result" where
  "bindS r f = (case r of (s, Inl e) \<Rightarrow> (s, Inl e) | (s, Inr x) \<Rightarrow> f s x)"

definition raiseS :: "'s \<Rightarrow> py_error \<Rightarrow> 's \<times> 'a result" where
  "raiseS s e = (s, Inl e)"

text \<open>SQLite's \<open>lower\<close> and \<open>COLLATE NOCASE\<close> fold the ASCII letters only.\<close>

definition nocase :: "string \<Rightarrow> string" where
  "nocase s = map (\<lambda>c. let n = (of_char c :: nat) in if 65 \<le> n \<and> n \<le> 90 then char_of (n + 32) else c) s"

definition validate_definition_name :: "string \<Rightarrow> string \<Rightarrow> string result" where
  "validate_definition_name name label = (let n = squeeze name in
     if 2 \<le> length n \<and> length n \<le> 100 then Inr n
     else Inl (ValueError (label @ '' name must be 2-100 characters.'')))"

text \<open>\<open>list(dict.fromkeys(values))\<close>.\<close>

definition dedupe :: "string list \<Rightarrow> string list" where
  "dedupe vs = rev (remdups (rev vs))"

section \<open>Pausing\<close>

text \<open>\<open>enabled = 0, state = 'disabled', ...\<close>, shared by every pause and by saving.\<close>

definition paused :: "real \<Rightarrow> automation \<Rightarrow> automation" where
  "paused now a = a\<lparr>au_enabled := False, au_state := ADisabled, au_met := 0, au_clear := 0,
     au_next := None, au_pending := None, au_updated := now\<rparr>"

text \<open>\<open>json.loads(condition_definition_ids or '[]') or [condition_definition_id]\<close>.\<close>

definition used_conditions :: "automation \<Rightarrow> string list" where
  "used_conditions a = (if au_condition_ids a = [] then [au_condition_id a] else au_condition_ids a)"

definition pause_automations_for_condition :: "string \<Rightarrow> real \<Rightarrow> 'c auto_store \<Rightarrow> 'c auto_store" where
  "pause_automations_for_condition d now = set_automations (\<lambda>a. d \<in> set (used_conditions a)) (paused now)"

definition pause_automations_for_action :: "string \<Rightarrow> real \<Rightarrow> 'c auto_store \<Rightarrow> 'c auto_store" where
  "pause_automations_for_action d now = set_automations (\<lambda>a. d \<in> set (au_action_ids a)) (paused now)"

section \<open>Definitions\<close>

text \<open>\<open>fresh\<close> is the identifier \<open>secrets.token_hex(12)\<close> returns.\<close>

definition save_condition_definition ::
    "real \<Rightarrow> string \<Rightarrow> string \<Rightarrow> string \<Rightarrow> (string \<times> json) list \<Rightarrow> string \<Rightarrow> 'c auto_store \<Rightarrow> 'c auto_store \<times> string result" where
  "save_condition_definition now fresh name type_id config definition_id s =
     (case validate_definition_name name ''Condition'' of Inl e \<Rightarrow> (s, Inl e) | Inr n \<Rightarrow>
      if \<exists>c\<in>set (as_conditions s). nocase (cd_name c) = nocase n \<and> cd_id c \<noteq> definition_id
        then raiseS s (ValueError ''A condition with that name already exists.'')
      else if definition_id \<noteq> [] then
        (if get_condition_definition s definition_id = None then raiseS s (ValueError ''Condition definition not found.'')
         else (pause_automations_for_condition definition_id now (s\<lparr>as_conditions := update_rows (\<lambda>c. cd_id c = definition_id)
           (\<lambda>c. c\<lparr>cd_name := n, cd_type := type_id, cd_config := config, cd_updated := now\<rparr>) (as_conditions s)\<rparr>), Inr definition_id))
      else if get_condition_definition s fresh \<noteq> None then raiseS s IntegrityError
      else (s\<lparr>as_conditions := as_conditions s @ [\<lparr>cd_id = fresh, cd_name = n, cd_type = type_id, cd_config = config,
             cd_created = now, cd_updated = now\<rparr>]\<rparr>, Inr fresh))"

definition save_action_definition ::
    "'c sealer \<Rightarrow> real \<Rightarrow> string \<Rightarrow> string \<Rightarrow> string \<Rightarrow> (string \<times> json) list \<Rightarrow> string \<Rightarrow> 'c auto_store \<Rightarrow> 'c auto_store \<times> string result" where
  "save_action_definition E now fresh name type_id config definition_id s =
     (case validate_definition_name name ''Action'' of Inl e \<Rightarrow> (s, Inl e) | Inr n \<Rightarrow>
      if \<exists>a\<in>set (as_actions s). nocase (ad_name a) = nocase n \<and> ad_id a \<noteq> definition_id
        then raiseS s (ValueError ''An action with that name already exists.'')
      else if definition_id \<noteq> [] then
        (if get_action_definition s definition_id = None then raiseS s (ValueError ''Action definition not found.'')
         else (pause_automations_for_action definition_id now (s\<lparr>as_actions := update_rows (\<lambda>a. ad_id a = definition_id)
           (\<lambda>a. a\<lparr>ad_name := n, ad_type := type_id, ad_config := seal_config E config, ad_updated := now\<rparr>) (as_actions s)\<rparr>), Inr definition_id))
      else if get_action_definition s fresh \<noteq> None then raiseS s IntegrityError
      else (s\<lparr>as_actions := as_actions s @ [\<lparr>ad_id = fresh, ad_name = n, ad_type = type_id, ad_config = seal_config E config,
             ad_created = now, ad_updated = now\<rparr>]\<rparr>, Inr fresh))"

definition delete_condition_definition :: "string \<Rightarrow> 'c auto_store \<Rightarrow> 'c auto_store \<times> unit result" where
  "delete_condition_definition d s =
     (if \<exists>a\<in>set (as_automations s). d \<in> set (used_conditions a)
        then raiseS s (ValueError ''That condition is still used by an automation.'')
      else if row_count (\<lambda>c. cd_id c = d) (as_conditions s) = 0 then raiseS s (ValueError ''Condition definition not found.'')
      else (s\<lparr>as_conditions := delete_rows (\<lambda>c. cd_id c = d) (as_conditions s)\<rparr>, Inr ()))"

definition delete_action_definition :: "string \<Rightarrow> 'c auto_store \<Rightarrow> 'c auto_store \<times> unit result" where
  "delete_action_definition d s =
     (if \<exists>a\<in>set (as_automations s). d \<in> set (au_action_ids a)
        then raiseS s (ValueError ''That action is still used by an automation.'')
      else if row_count (\<lambda>a. ad_id a = d) (as_actions s) = 0 then raiseS s (ValueError ''Action definition not found.'')
      else (s\<lparr>as_actions := delete_rows (\<lambda>a. ad_id a = d) (as_actions s)\<rparr>, Inr ()))"

section \<open>The definitions events need\<close>

text \<open>\<open>_unique_definition_name\<close>: the first of \<open>requested\<close>, \<open>requested 2\<close>, ... that is not taken.\<close>

definition numbered_name :: "string \<Rightarrow> nat \<Rightarrow> string" where
  "numbered_name requested number = requested @ '' '' @ show_nat number"

lemma nocase_append: "nocase (a @ b) = nocase a @ nocase b"
  by (simp add: nocase_def)

lemma nocase_digits: "list_all py_digit s \<Longrightarrow> nocase s = s"
  by (auto simp: nocase_def list_all_iff py_digit_def Let_def intro!: map_idI)

lemma numbered_name_inj:
  assumes "nocase (numbered_name r a) = nocase (numbered_name r b)"
  shows "a = b"
proof -
  from assms have "nocase (show_nat a) = nocase (show_nat b)"
    by (simp add: numbered_name_def nocase_append nocase_def)
  then have "show_nat a = show_nat b" by (simp add: nocase_digits [OF show_nat_digits])
  then show ?thesis using decimal_value_show by metis
qed

text \<open>The taken names the loop may still meet.\<close>

definition names_ahead :: "string list \<Rightarrow> string \<Rightarrow> nat \<Rightarrow> string set" where
  "names_ahead taken requested number = {n \<in> set taken. \<exists>k\<ge>number. n = nocase (numbered_name requested k)}"

lemma names_ahead_mono: "names_ahead taken r (Suc n) \<subseteq> names_ahead taken r n"
proof
  fix x
  assume "x \<in> names_ahead taken r (Suc n)"
  then obtain k where "Suc n \<le> k" "x \<in> set taken" "x = nocase (numbered_name r k)" by (auto simp: names_ahead_def)
  then show "x \<in> names_ahead taken r n" by (auto simp: names_ahead_def intro!: exI [of _ k])
qed

lemma names_ahead_less:
  assumes "nocase (numbered_name r n) \<in> set taken"
  shows "card (names_ahead taken r (Suc n)) < card (names_ahead taken r n)"
proof (rule psubset_card_mono)
  show "finite (names_ahead taken r n)" by (simp add: names_ahead_def)
  have "nocase (numbered_name r n) \<in> names_ahead taken r n" using assms by (auto simp: names_ahead_def)
  moreover have "nocase (numbered_name r n) \<notin> names_ahead taken r (Suc n)"
    by (auto simp: names_ahead_def dest: numbered_name_inj)
  ultimately show "names_ahead taken r (Suc n) \<subset> names_ahead taken r n"
    using names_ahead_mono by blast
qed

lemma names_ahead_le: "card (names_ahead taken r (Suc n)) \<le> card (names_ahead taken r n)"
  by (rule card_mono [OF _ names_ahead_mono]) (simp add: names_ahead_def)

text \<open>\<open>taken\<close> holds the folded names of the table, \<open>number\<close> is the next suffix.\<close>

function unique_name_from :: "string list \<Rightarrow> string \<Rightarrow> nat \<Rightarrow> string \<Rightarrow> string" where
  "unique_name_from taken requested number candidate =
     (if nocase candidate \<in> set taken
      then unique_name_from taken requested (Suc number) (numbered_name requested number) else candidate)"
  by pat_completeness auto
termination
proof (relation "measure (\<lambda>(taken, requested, number, candidate).
    card (names_ahead taken requested number) + (if nocase candidate \<in> set taken then 1 else 0))")
  fix taken requested number candidate
  assume c: "nocase candidate \<in> set taken"
  show "((taken, requested, Suc number, numbered_name requested number), taken, requested, number, candidate)
      \<in> measure (\<lambda>(taken, requested, number, candidate).
        card (names_ahead taken requested number) + (if nocase candidate \<in> set taken then 1 else 0))"
    using c names_ahead_less [of requested number taken] names_ahead_le [of taken requested number] by auto
qed simp

declare unique_name_from.simps [simp del]

definition unique_definition_name :: "condition_def list \<Rightarrow> string \<Rightarrow> string" where
  "unique_definition_name cs requested = unique_name_from (map (\<lambda>c. nocase (cd_name c)) cs) requested 2 requested"

definition insert_condition :: "real \<Rightarrow> string \<Rightarrow> string \<Rightarrow> string \<Rightarrow> (string \<times> json) list \<Rightarrow> 'c auto_store \<Rightarrow> 'c auto_store \<times> string result" where
  "insert_condition now fresh name type_id config s =
     (if get_condition_definition s fresh \<noteq> None then raiseS s IntegrityError
      else (s\<lparr>as_conditions := as_conditions s @ [\<lparr>cd_id = fresh, cd_name = name, cd_type = type_id, cd_config = config,
             cd_created = now, cd_updated = now\<rparr>]\<rparr>, Inr fresh))"

text \<open>\<open>ORDER BY created_at, id\<close>.\<close>

definition definitions_of_type :: "string \<Rightarrow> 'c auto_store \<Rightarrow> condition_def list" where
  "definitions_of_type t s = sort_key (\<lambda>c. (cd_created c, cd_id c)) (filter (\<lambda>c. cd_type c = t) (as_conditions s))"

definition ensure_manual_trigger_definition :: "real \<Rightarrow> string \<Rightarrow> 'c auto_store \<Rightarrow> 'c auto_store \<times> string result" where
  "ensure_manual_trigger_definition now fresh s = (case definitions_of_type ''manual.trigger'' s of
       c # _ \<Rightarrow> (s, Inr (cd_id c))
     | [] \<Rightarrow> insert_condition now fresh (unique_definition_name (as_conditions s) ''Manual run'') ''manual.trigger'' [] s)"

text \<open>
  \<open>int(value)\<close> of a JSON value.  The text of a float is cut at its point; one with an exponent is
  below one or at least ten to the sixteenth, which every range check here treats alike.
\<close>

definition float_int :: "string \<Rightarrow> int option" where
  "float_int t = (if CHR ''e'' \<in> set t
     then Some (if CHR ''-'' \<in> set (dropWhile (\<lambda>c. c \<noteq> CHR ''e'') t) then 0
       else if hd t = CHR ''-'' then - (10 ^ 16) else 10 ^ 16)
     else py_int (takeWhile (\<lambda>c. c \<noteq> CHR ''.'') t))"

definition json_int :: "json \<Rightarrow> int option" where
  "json_int j = (case j of JInt i \<Rightarrow> Some i | JBool b \<Rightarrow> Some (if b then 1 else 0) | JStr t \<Rightarrow> py_int t
     | JFloat t \<Rightarrow> float_int t | _ \<Rightarrow> None)"

record startup_config =
  sc_mode :: string
  sc_wait :: int

definition validate_startup :: "(string \<times> json) list \<Rightarrow> startup_config result" where
  "validate_startup config =
     (let mode = (case map_of config ''mode'' of None \<Rightarrow> ''host_boot'' | Some (JStr m) \<Rightarrow> m | Some _ \<Rightarrow> []) in
      if mode \<noteq> ''host_boot'' \<and> mode \<noteq> ''toolkit_start'' then Inl (ValueError ''Select a valid startup event.'')
      else (case json_int (case map_of config ''network_wait_seconds'' of None \<Rightarrow> JInt 120 | Some j \<Rightarrow> j) of
          None \<Rightarrow> Inl (ValueError ''Startup network wait must be a whole number.'')
        | Some w \<Rightarrow> if \<not> (0 \<le> w \<and> w \<le> 600) then Inl (ValueError ''Startup network wait must be between 0 and 600 seconds.'')
            else Inr \<lparr>sc_mode = mode, sc_wait = w\<rparr>))"

definition startup_json :: "startup_config \<Rightarrow> (string \<times> json) list" where
  "startup_json c = [(''mode'', JStr (sc_mode c)), (''network_wait_seconds'', JInt (sc_wait c))]"

fun find_startup :: "startup_config \<Rightarrow> condition_def list \<Rightarrow> condition_def option result" where
  "find_startup config [] = Inr None"
| "find_startup config (c # cs) = bindE (validate_startup (cd_config c)) (\<lambda>existing.
     if existing = config then Inr (Some c) else find_startup config cs)"

definition ensure_startup_trigger_definition :: "real \<Rightarrow> string \<Rightarrow> (string \<times> json) list \<Rightarrow> 'c auto_store \<Rightarrow> 'c auto_store \<times> string result" where
  "ensure_startup_trigger_definition now fresh config s =
     (case validate_startup config of Inl e \<Rightarrow> (s, Inl e) | Inr normalized \<Rightarrow>
      (case find_startup normalized (definitions_of_type ''system.startup'' s) of
        Inl e \<Rightarrow> (s, Inl e)
      | Inr (Some c) \<Rightarrow> (s, Inr (cd_id c))
      | Inr None \<Rightarrow> insert_condition now fresh (unique_definition_name (as_conditions s)
          (if sc_mode normalized = ''host_boot'' then ''Host startup'' else ''Toolkit startup''))
          ''system.startup'' (startup_json normalized) s))"

section \<open>Saving an automation\<close>

record save_request =
  sr_name :: string
  sr_interval :: int
  sr_trigger_after :: int
  sr_recover_after :: int
  sr_cooldown :: int
  sr_condition :: "(string \<times> (string \<times> json) list) option"
  sr_actions :: "(string \<times> (string \<times> json) list) list"
  sr_condition_id :: string
  sr_condition_ids :: "string list"
  sr_operator :: string
  sr_action_ids :: "string list"
  sr_stages :: "raw_stage list"
  sr_created_by :: string
  sr_automation_id :: string

definition check_save :: "save_request \<Rightarrow> string result" where
  "check_save r = (let n = squeeze (sr_name r) in
     if \<not> (2 \<le> length n \<and> length n \<le> 100) then Inl (ValueError ''Automation name must be 2-100 characters.'')
     else if \<not> (1 \<le> sr_interval r \<and> sr_interval r \<le> 86400)
       then Inl (ValueError ''Check interval must be between 1 second and 24 hours.'')
     else if \<not> (1 \<le> sr_trigger_after r \<and> sr_trigger_after r \<le> 100)
       then Inl (ValueError ''Trigger threshold must be between 1 and 100 checks.'')
     else if \<not> (1 \<le> sr_recover_after r \<and> sr_recover_after r \<le> 100)
       then Inl (ValueError ''Recovery threshold must be between 1 and 100 checks.'')
     else if \<not> (0 \<le> sr_cooldown r \<and> sr_cooldown r \<le> 604800)
       then Inl (ValueError ''Cooldown must be between 0 seconds and 7 days.'')
     else Inr n)"

definition trigger_types :: "string list" where
  "trigger_types = [''schedule.calendar'', ''manual.trigger'', ''system.startup'', ''network.interface_change'']"

text \<open>The k-th identifier and the k-th clock reading of the call.\<close>

definition selected_condition_ids ::
    "clock \<Rightarrow> (nat \<Rightarrow> string) \<Rightarrow> string \<Rightarrow> save_request \<Rightarrow> 'c auto_store \<Rightarrow> 'c auto_store \<times> string list result" where
  "selected_condition_ids clk fresh name r s =
     (let given = clean_ids (sr_condition_ids r);
          ids = (if given = [] \<and> sr_condition_id r \<noteq> [] then [sr_condition_id r] else given) in
      if ids \<noteq> [] then (s, Inr ids)
      else (case sr_condition r of None \<Rightarrow> raiseS s (ValueError ''Select an automation condition.'')
        | Some (type_id, config) \<Rightarrow> bindS (save_condition_definition (clk 0) (fresh 0) (name @ '' condition'') type_id config [] s)
            (\<lambda>s' i. (s', Inr [i]))))"

fun save_actions ::
    "'c sealer \<Rightarrow> clock \<Rightarrow> (nat \<Rightarrow> string) \<Rightarrow> (nat \<Rightarrow> string) \<Rightarrow> nat \<Rightarrow> (string \<times> (string \<times> json) list) list
     \<Rightarrow> 'c auto_store \<Rightarrow> 'c auto_store \<times> string list result" where
  "save_actions E clk fresh name_of i [] s = (s, Inr [])"
| "save_actions E clk fresh name_of i ((type_id, config) # as) s =
     bindS (save_action_definition E (clk i) (fresh i) (name_of i) type_id config [] s) (\<lambda>s1 d.
     bindS (save_actions E clk fresh name_of (Suc i) as s1) (\<lambda>s2 ds. (s2, Inr (d # ds))))"

definition selected_action_ids ::
    "'c sealer \<Rightarrow> clock \<Rightarrow> (nat \<Rightarrow> string) \<Rightarrow> string \<Rightarrow> save_request \<Rightarrow> 'c auto_store \<Rightarrow> 'c auto_store \<times> string list result" where
  "selected_action_ids E clk fresh name r s =
     (if sr_action_ids r \<noteq> [] \<or> sr_stages r \<noteq> [] then (s, Inr (sr_action_ids r))
      else if sr_actions r = [] then raiseS s (ValueError ''Select at least one automation action.'')
      else save_actions E clk fresh (\<lambda>i. if length (sr_actions r) = 1 then name @ '' action'' else name @ '' action '' @ show_nat i)
        1 (sr_actions r) s)"

definition selected_conditions :: "string list \<Rightarrow> string \<Rightarrow> 'c auto_store \<Rightarrow> condition_def list result" where
  "selected_conditions ids operator s =
     (let found = map (get_condition_definition s) ids in
      if 10 < length ids then Inl (ValueError ''An automation may use at most 10 conditions.'')
      else if operator \<noteq> ''all'' \<and> operator \<noteq> ''any'' then Inl (ValueError ''Select whether all or any conditions must be met.'')
      else if None \<in> set found then Inl (ValueError ''One or more selected condition definitions were not found.'')
      else let selected = map the found in
        if list_ex (\<lambda>c. cd_type c \<in> set trigger_types) selected \<and> length selected \<noteq> 1
        then Inl (ValueError ''Schedules, startup events, and manual mode cannot be combined with conditions.'')
        else Inr selected)"

text \<open>\<open>get_action_definition(_, include_secrets=True)\<close> decrypts the configuration it returns.\<close>

definition check_actions :: "'c sealer \<Rightarrow> string list \<Rightarrow> 'c auto_store \<Rightarrow> unit result" where
  "check_actions E ids s =
     bindE (collect (\<lambda>i. case get_action_definition s i of None \<Rightarrow> Inr None
         | Some a \<Rightarrow> bindE (decrypted (open_config E (ad_config a))) (\<lambda>c. Inr (Some c))) ids) (\<lambda>found.
       if found = [] \<or> None \<in> set found
       then Inl (ValueError ''One or more selected action definitions were not found.'') else Inr ())"

definition write_automation ::
    "real \<Rightarrow> string \<Rightarrow> string \<Rightarrow> save_request \<Rightarrow> string list \<Rightarrow> condition_def \<Rightarrow> stage list \<Rightarrow> 'c auto_store \<Rightarrow> 'c auto_store \<times> string result" where
  "write_automation now fresh name r condition_ids condition stages s =
     (let action_ids = concat (map st_actions stages); i = sr_automation_id r in
      if \<exists>a\<in>set (as_automations s). nocase (au_name a) = nocase name \<and> au_id a \<noteq> i
        then raiseS s (ValueError ''An automation with that name already exists.'')
      else if i \<noteq> [] then
        (if find_automation s i = None then raiseS s (ValueError ''Automation not found.'')
         else ((set_automations (\<lambda>a. au_id a = i) (\<lambda>a. (paused now a)\<lparr>au_name := name, au_interval := sr_interval r,
             au_trigger_after := nat (sr_trigger_after r), au_recover_after := nat (sr_recover_after r),
             au_cooldown := nat (sr_cooldown r), au_condition_type := cd_type condition,
             au_condition_config := cd_config condition, au_condition_id := hd condition_ids,
             au_condition_ids := condition_ids, au_operator := sr_operator r, au_action_ids := action_ids, au_stages := stages\<rparr>) s)
           \<lparr>as_events := delete_rows (\<lambda>e. es_automation e = i) (as_events s)\<rparr>, Inr i))
      else if find_automation s fresh \<noteq> None then raiseS s IntegrityError
      else (s\<lparr>as_automations := as_automations s @ [\<lparr>au_id = fresh, au_name = name, au_enabled = False, au_interval = sr_interval r,
             au_trigger_after = nat (sr_trigger_after r), au_recover_after = nat (sr_recover_after r),
             au_cooldown = nat (sr_cooldown r), au_condition_type = cd_type condition,
             au_condition_config = cd_config condition, au_condition_id = hd condition_ids,
             au_condition_ids = condition_ids, au_operator = sr_operator r, au_action_ids = action_ids, au_stages = stages,
             au_state = ADisabled, au_met = 0, au_clear = 0, au_next = None, au_pending = None, au_last_check = None,
             au_last_triggered = None, au_last_summary = [], au_last_error = None, au_created_by = sr_created_by r,
             au_created = now, au_updated = now\<rparr>]\<rparr>, Inr fresh))"

definition lift_result :: "'s \<Rightarrow> 'a result \<Rightarrow> 's \<times> 'a result" where
  "lift_result s r = (s, r)"

definition save_automation ::
    "'c sealer \<Rightarrow> clock \<Rightarrow> (nat \<Rightarrow> string) \<Rightarrow> save_request \<Rightarrow> 'c auto_store \<Rightarrow> 'c auto_store \<times> string result" where
  "save_automation E clk fresh r s =
     bindS (lift_result s (check_save r)) (\<lambda>s name.
     bindS (selected_condition_ids clk fresh name r s) (\<lambda>s given.
     bindS (lift_result s (selected_conditions (dedupe given) (sr_operator r) s)) (\<lambda>s conditions.
     bindS (selected_action_ids E clk fresh name r s) (\<lambda>s legacy_ids.
     bindS (lift_result s (normalize_action_stages (sr_stages r) legacy_ids)) (\<lambda>s stages.
     bindS (lift_result s (check_actions E (concat (map st_actions stages)) s)) (\<lambda>s _.
     write_automation (clk (length (sr_actions r) + 1)) (fresh (length (sr_actions r) + 1)) name r (dedupe given)
       (hd conditions) stages s))))))"

section \<open>Deleting an automation\<close>

definition active_job :: "'c auto_job \<Rightarrow> bool" where
  "active_job j \<longleftrightarrow> aj_status j = Queued \<or> aj_status j = Waiting \<or> aj_status j = Running"

text \<open>The children of a deleted automation go with it (\<open>ON DELETE CASCADE\<close>).\<close>

definition cascade :: "(string \<Rightarrow> bool) \<Rightarrow> 'c auto_store \<Rightarrow> 'c auto_store" where
  "cascade p s = s\<lparr>as_automations := delete_rows (\<lambda>a. p (au_id a)) (as_automations s),
     as_checks := delete_rows (\<lambda>k. p (ck_automation k)) (as_checks s),
     as_runs := delete_rows (\<lambda>r. p (rn_automation r)) (as_runs s),
     as_jobs := delete_rows (\<lambda>j. p (aj_automation j)) (as_jobs s),
     as_events := delete_rows (\<lambda>e. p (es_automation e)) (as_events s)\<rparr>"

definition delete_automation :: "string \<Rightarrow> 'c auto_store \<Rightarrow> 'c auto_store \<times> unit result" where
  "delete_automation i s =
     (if \<exists>j\<in>set (as_jobs s). aj_automation j = i \<and> active_job j
        then raiseS s (ValueError ''That automation still has queued, waiting, or running action work.'')
      else if row_count (\<lambda>a. au_id a = i) (as_automations s) = 0 then raiseS s (ValueError ''Automation not found.'')
      else (cascade (\<lambda>k. k = i) s, Inr ()))"

definition clear_automations :: "'c auto_store \<Rightarrow> 'c auto_store" where
  "clear_automations s = (cascade (\<lambda>k. \<exists>a\<in>set (as_automations s). au_id a = k) s)\<lparr>as_conditions := [], as_actions := []\<rparr>"

end
