(* ===== verification/Stage_Facts.thy ===== *)
theory Stage_Facts
  imports Automation_Definitions
begin

text \<open>
  Facts of the saved stages: what \<open>_normalize_action_stages\<close> accepts is well formed and is read back
  unchanged, and \<open>_unique_definition_name\<close> always ends at a name that is not taken.
\<close>

section \<open>Cleaned text stays clean\<close>

lemma py_strip_ends:
  "py_strip s \<noteq> [] \<Longrightarrow> \<not> py_space (hd (py_strip s)) \<and> \<not> py_space (last (py_strip s))"
proof -
  define u where "u = dropWhile py_space s"
  define v where "v = dropWhile py_space (rev u)"
  assume "py_strip s \<noteq> []"
  then have v: "v \<noteq> []" and strip: "py_strip s = rev v" by (simp_all add: py_strip_def u_def v_def)
  have "u = rev v @ rev (takeWhile py_space (rev u))"
    using takeWhile_dropWhile_id [of py_space "rev u"] by (metis rev_append rev_rev_ident v_def)
  with v have "hd u = hd (rev v)" "u \<noteq> []" by (metis hd_append2 rev_is_Nil_conv) (use v in \<open>auto simp: v_def\<close>)
  then have "\<not> py_space (hd (rev v))" using hd_dropWhile [of py_space s] by (simp add: u_def)
  moreover have "\<not> py_space (hd v)" using v hd_dropWhile [of py_space "rev u"] by (simp add: v_def)
  ultimately show ?thesis using v by (simp add: strip last_rev)
qed

lemma py_strip_clean: "s = [] \<or> \<not> py_space (hd s) \<and> \<not> py_space (last s) \<Longrightarrow> py_strip s = s"
proof -
  assume a: "s = [] \<or> \<not> py_space (hd s) \<and> \<not> py_space (last s)"
  show ?thesis
  proof (cases s rule: rev_cases)
    case Nil
    then show ?thesis by (simp add: py_strip_def)
  next
    case (snoc t c)
    with a have "\<not> py_space c" "dropWhile py_space s = s" by (auto simp: dropWhile_eq_self_iff)
    with snoc show ?thesis by (simp add: py_strip_def)
  qed
qed

lemma py_strip_twice [simp]: "py_strip (py_strip s) = py_strip s"
  using py_strip_ends by (intro py_strip_clean) blast

definition clean_word :: "string \<Rightarrow> bool" where
  "clean_word w \<longleftrightarrow> w \<noteq> [] \<and> list_all (\<lambda>c. \<not> py_space c) w"

lemma split_words_aux_clean:
  "list_all (\<lambda>c. \<not> py_space c) acc \<Longrightarrow> list_all clean_word (split_words_aux acc s)"
proof (induction acc s rule: split_words_aux.induct)
  case (1 acc)
  then show ?case by (simp add: clean_word_def)
next
  case (2 acc c cs)
  then show ?case by (cases "py_space c") (simp_all add: clean_word_def)
qed

lemma split_words_aux_word:
  "list_all (\<lambda>c. \<not> py_space c) w \<Longrightarrow> split_words_aux acc (w @ s) = split_words_aux (rev w @ acc) s"
  by (induction w arbitrary: acc) simp_all

lemma split_join_words:
  "list_all clean_word ws \<Longrightarrow> split_words (join_with '' '' ws) = ws"
  unfolding split_words_def
proof (induction "'' ''" ws rule: join_with.induct)
  case 1
  then show ?case by simp
next
  case (2 w)
  then show ?case using split_words_aux_word [of w "[]" "[]"] by (simp add: clean_word_def)
next
  case (3 w v ws)
  have "py_space (CHR '' '')" by code_simp
  with 3 show ?case by (simp add: clean_word_def split_words_aux_word)
qed

lemma join_words_ends:
  "list_all clean_word ws \<Longrightarrow> ws \<noteq> [] \<Longrightarrow> join_with '' '' ws \<noteq> [] \<and> \<not> py_space (hd (join_with '' '' ws)) \<and> \<not> py_space (last (join_with '' '' ws))"
  by (induction "'' ''" ws rule: join_with.induct) (auto simp: clean_word_def list_all_iff)

lemma squeeze_twice [simp]: "squeeze (squeeze s) = squeeze s"
proof -
  define ws where "ws = split_words (py_strip s)"
  have ws: "list_all clean_word ws" unfolding ws_def split_words_def by (rule split_words_aux_clean) simp
  have "py_strip (join_with '' '' ws) = join_with '' '' ws"
    by (rule py_strip_clean) (use join_words_ends [OF ws] in \<open>cases "ws = []"; simp\<close>)
  then show ?thesis by (simp add: squeeze_def ws_def [symmetric] split_join_words [OF ws])
qed

lemma clean_ids_twice [simp]: "clean_ids (clean_ids vs) = clean_ids vs"
proof -
  have "map py_strip (clean_ids vs) = clean_ids vs" by (rule map_idI) (auto simp: clean_ids_def)
  then show ?thesis unfolding clean_ids_def [of "clean_ids vs"] by (auto simp: clean_ids_def)
qed

section \<open>Stages\<close>

definition stage_ok :: "stage \<Rightarrow> bool" where
  "stage_ok s \<longleftrightarrow> st_id s \<noteq> [] \<and> length (st_id s) \<le> 80 \<and> py_strip (st_id s) = st_id s \<and>
     st_name s \<noteq> [] \<and> length (st_name s) \<le> 100 \<and> squeeze (st_name s) = st_name s \<and>
     st_policy s \<in> set stage_policies \<and> 0 \<le> st_delay s \<and> st_delay s \<le> automation_max_stage_delay \<and>
     st_actions s \<noteq> [] \<and> clean_ids (st_actions s) = st_actions s"

definition stages_ok :: "stage list \<Rightarrow> bool" where
  "stages_ok ss \<longleftrightarrow> ss \<noteq> [] \<and> list_all stage_ok ss \<and> distinct (map st_id ss) \<and> st_delay (hd ss) = 0"

lemma show_nat_no_space: "list_all (\<lambda>c. \<not> py_space c) (show_nat n)"
  using show_nat_digits [of n] by (auto simp: list_all_iff py_digit_def py_space_def Let_def)

lemma default_names [simp]:
  "py_strip (''stage-'' @ show_nat n) = ''stage-'' @ show_nat n" "squeeze (''Stage '' @ show_nat n) = ''Stage '' @ show_nat n"
proof -
  have last: "\<not> py_space (last (show_nat n))" using show_nat_no_space [of n] by (simp add: list_all_iff)
  have "\<not> py_space (CHR ''s'')" "\<not> py_space (CHR ''S'')" by code_simp+
  with last show "py_strip (''stage-'' @ show_nat n) = ''stage-'' @ show_nat n" by (intro py_strip_clean) simp
  have "\<not> py_space (CHR ''t'')" "\<not> py_space (CHR ''a'')" "\<not> py_space (CHR ''g'')" "\<not> py_space (CHR ''e'')" by code_simp+
  with \<open>\<not> py_space (CHR ''S'')\<close> have ws: "list_all clean_word [''Stage'', show_nat n]"
    using show_nat_no_space by (simp add: clean_word_def)
  have j: "join_with '' '' [''Stage'', show_nat n] = ''Stage '' @ show_nat n" by simp
  have "py_strip (''Stage '' @ show_nat n) = ''Stage '' @ show_nat n"
    using last \<open>\<not> py_space (CHR ''S'')\<close> by (intro py_strip_clean) simp
  then show "squeeze (''Stage '' @ show_nat n) = ''Stage '' @ show_nat n"
    using split_join_words [OF ws] by (simp add: squeeze_def)
qed

lemmas default_names_Cons [simp] = default_names [unfolded append_Cons append_Nil]

lemma normalize_stage_ok:
  assumes "normalize_stage index seen raw = Inr s"
  shows "stage_ok s" "st_id s \<notin> set seen" "index = 1 \<longrightarrow> st_delay s = 0"
  using assms
  by (auto simp: normalize_stage_def Let_def stage_ok_def automation_max_stage_delay_def split: if_splits option.splits)

lemma normalize_stage_again:
  assumes "stage_ok s" "st_id s \<notin> set seen" "index = 1 \<longrightarrow> st_delay s = 0"
  shows "normalize_stage index seen (raw_of_stage s) = Inr s"
  using assms by (auto simp: normalize_stage_def Let_def stage_ok_def raw_of_stage_def)

lemma normalize_each_ok:
  "normalize_each index seen raws = Inr ss \<Longrightarrow>
     length ss = length raws \<and> list_all stage_ok ss \<and> distinct (map st_id ss) \<and> set (map st_id ss) \<inter> set seen = {} \<and>
     (index = 1 \<and> ss \<noteq> [] \<longrightarrow> st_delay (hd ss) = 0)"
proof (induction index seen raws arbitrary: ss rule: normalize_each.induct)
  case (2 index seen raw raws)
  then obtain s ss' where s: "normalize_stage index seen raw = Inr s" and ss: "ss = s # ss'"
    and rest: "normalize_each (Suc index) (st_id s # seen) raws = Inr ss'" by (auto simp: bindE_eq_Inr)
  from 2(1) [OF rest] normalize_stage_ok [OF s] show ?case by (auto simp: ss)
qed simp

lemma normalize_each_again:
  "list_all stage_ok ss \<Longrightarrow> distinct (map st_id ss) \<Longrightarrow> set (map st_id ss) \<inter> set seen = {} \<Longrightarrow>
     (index = 1 \<and> ss \<noteq> [] \<longrightarrow> st_delay (hd ss) = 0) \<Longrightarrow> 0 < index \<Longrightarrow> normalize_each index seen (map raw_of_stage ss) = Inr ss"
proof (induction ss arbitrary: index seen)
  case (Cons s ss)
  have "normalize_stage index seen (raw_of_stage s) = Inr s" using Cons.prems by (intro normalize_stage_again) auto
  moreover have "normalize_each (Suc index) (st_id s # seen) (map raw_of_stage ss) = Inr ss"
    using Cons.prems by (intro Cons.IH) auto
  ultimately show ?case by simp
qed simp

lemma move_last_route_ids: "map st_id (move_last_route ss) = map st_id ss" "map st_delay (move_last_route ss) = map st_delay ss"
  "list_all stage_ok ss \<Longrightarrow> list_all stage_ok (move_last_route ss)" "move_last_route ss = [] \<longleftrightarrow> ss = []"
  by (induction ss rule: move_last_route.induct) (auto simp: stage_ok_def stage_policies_def)

lemma move_last_route_shape: "move_last_route (a # b # ss) = x # xs \<Longrightarrow> xs \<noteq> []"
  by (induction "a # b # ss" arbitrary: a b ss x xs rule: move_last_route.induct)
    (auto simp: move_last_route_ids(4) split: if_splits)

lemma move_last_route_twice: "move_last_route (move_last_route ss) = move_last_route ss"
proof (induction ss rule: move_last_route.induct)
  case (2 a b c ss)
  obtain x xs where x: "move_last_route (b # c # ss) = x # xs"
    using move_last_route_ids(4) [of "b # c # ss"] by (cases "move_last_route (b # c # ss)") auto
  moreover obtain y ys where "xs = y # ys" using move_last_route_shape [OF x] by (cases xs) auto
  ultimately show ?case using 2 by simp
qed auto

text \<open>
  C29: The stages a save or a snapshot accepts are well formed: not empty, with unique identifiers,
  each with a known policy, a delay of at most a day and at least one action, the first one without
  delay; and normalizing them again, as every queued job does, changes nothing.
\<close>

theorem normalized_stages_stable:
  assumes "normalize_action_stages raws legacy_ids = Inr ss"
  shows "stages_ok ss \<and> normalize_action_stages (map raw_of_stage ss) other_ids = Inr ss"
proof -
  from assms obtain ns where ns: "normalize_each 1 [] (if raws = [] then [legacy_stage legacy_ids] else raws) = Inr ns"
    and ss: "ss = move_last_route ns" by (auto simp: normalize_action_stages_def bindE_eq_Inr)
  have n: "ns \<noteq> []" "list_all stage_ok ns" "distinct (map st_id ns)" "st_delay (hd ns) = 0"
    using normalize_each_ok [OF ns] by (auto split: if_splits)
  have "map st_delay ss = map st_delay ns" "ss \<noteq> []" using n move_last_route_ids by (auto simp: ss)
  then have "st_delay (hd ss) = 0" using n(1,4) by (metis hd_map)
  then have ok: "stages_ok ss" using n move_last_route_ids(1,3,4) by (simp add: stages_ok_def ss)
  then have "normalize_each 1 [] (map raw_of_stage ss) = Inr ss"
    by (intro normalize_each_again) (auto simp: stages_ok_def)
  moreover have "move_last_route ss = ss" by (simp add: ss move_last_route_twice)
  ultimately show ?thesis using ok by (simp add: normalize_action_stages_def stages_ok_def)
qed

section \<open>Unique names\<close>

lemma unique_name_untaken: "nocase (unique_name_from taken requested number candidate) \<notin> set taken"
proof (induction taken requested number candidate rule: unique_name_from.induct)
  case (1 taken requested number candidate)
  then show ?case by (cases "nocase candidate \<in> set taken") (simp_all add: unique_name_from.simps [of taken requested number candidate])
qed

lemma ensured_names_unique:
  "\<forall>c\<in>set cs. nocase (cd_name c) \<noteq> nocase (unique_definition_name cs requested)"
  using unique_name_untaken [of "map (\<lambda>c. nocase (cd_name c)) cs"] by (force simp: unique_definition_name_def)

end
