(* ===== verification/Automation_Queue.thy ===== *)
theory Automation_Queue
  imports Automation_Definitions
begin

text \<open>
  \<open>AutomationStore\<close>: the trigger state machine of an automation (due checks, met and clear
  counts, cooldown) and the queue of execution jobs (enqueue, lease, defer, complete, fail, retry).
  Calendar schedules (\<open>record_schedule_occurrence\<close>) are left to the schedule code.
\<close>

section \<open>Due checks\<close>

text \<open>\<open>_next_interval_check_at\<close>.\<close>

definition next_interval_check_at :: "automation \<Rightarrow> real \<Rightarrow> real" where
  "next_interval_check_at a claimed_at =
     (let interval = of_int (max 1 (au_interval a));
          scheduled_at = (case au_next a of Some t \<Rightarrow> t | None \<Rightarrow> claimed_at)
      in (if interval \<le> claimed_at - scheduled_at then claimed_at else scheduled_at) + interval)"

definition due_now :: "'c auto_store \<Rightarrow> real \<Rightarrow> string list \<Rightarrow> automation \<Rightarrow> bool" where
  "due_now s now excluded a \<longleftrightarrow> au_enabled a \<and> effective_type s a \<noteq> ''manual.trigger'' \<and> effective_type s a \<noteq> ''system.startup'' \<and>
     au_id a \<notin> set excluded \<and>
     (if effective_type s a = ''schedule.calendar'' then (case au_next a of None \<Rightarrow> False | Some t \<Rightarrow> t \<le> now)
      else (case au_next a of None \<Rightarrow> True | Some t \<Rightarrow> t \<le> now))"

definition claimed_due :: "'c auto_store \<Rightarrow> real \<Rightarrow> automation \<Rightarrow> automation" where
  "claimed_due s now a =
     (if effective_type s a = ''schedule.calendar''
      then a\<lparr>au_pending := (if au_pending a = None then au_next a else au_pending a), au_next := Some (now + 300)\<rparr>
      else a\<lparr>au_next := Some (next_interval_check_at a now)\<rparr>)"

text \<open>The rows returned are the ones selected, before the update.\<close>

definition claim_due :: "real \<Rightarrow> nat \<Rightarrow> string list \<Rightarrow> 'c auto_store \<Rightarrow> 'c auto_store \<times> automation list" where
  "claim_due now limit excluded s =
     (let rows = take limit (sort_key (\<lambda>a. (case au_next a of None \<Rightarrow> 0 | Some t \<Rightarrow> t, nocase (au_name a)))
            (filter (due_now s now excluded) (as_automations s)))
      in (set_automations (\<lambda>a. au_id a \<in> set (map au_id rows)) (claimed_due s now) s, rows))"

section \<open>Queueing a job\<close>

text \<open>\<open>_execution_plan_from_row\<close>: the actions are copied into the job when it is queued.\<close>

definition plan_action_of :: "'c sealer \<Rightarrow> 'c auto_store \<Rightarrow> string \<Rightarrow> plan_action result" where
  "plan_action_of E s i = (case get_action_definition s i of
       None \<Rightarrow> Inl (ValueError ''An automation action disappeared before execution could be queued.'')
     | Some a \<Rightarrow> bindE (decrypted (open_config E (ad_config a))) (\<lambda>c.
         Inr \<lparr>pa_id = ad_id a, pa_name = ad_name a, pa_type = ad_type a, pa_config = c\<rparr>))"

definition plan_stage_of :: "(string \<times> plan_action) list \<Rightarrow> stage \<Rightarrow> plan_stage result" where
  "plan_stage_of acts st =
     (let actions = map (\<lambda>i. the (map_of acts i)) (filter (\<lambda>i. map_of acts i \<noteq> None) (st_actions st)) in
      if length actions \<noteq> length (st_actions st)
      then Inl (ValueError ''An automation stage could not snapshot all of its actions.'')
      else Inr \<lparr>ps_stage = st, ps_actions = actions\<rparr>)"

definition execution_plan_from_row :: "'c sealer \<Rightarrow> 'c auto_store \<Rightarrow> automation \<Rightarrow> plan result" where
  "execution_plan_from_row E s a =
     bindE (collect (plan_action_of E s) (au_action_ids a)) (\<lambda>actions.
     bindE (normalize_action_stages (map raw_of_stage (au_stages a)) (au_action_ids a)) (\<lambda>stages.
     bindE (collect (plan_stage_of (zip (au_action_ids a) actions)) stages) (\<lambda>planned.
       Inr \<lparr>pl_id = au_id a, pl_name = au_name a, pl_stages = planned\<rparr>)))"

definition new_job :: "string \<Rightarrow> string \<Rightarrow> real \<Rightarrow> real \<Rightarrow> condition_result \<Rightarrow> 'c \<Rightarrow> 'c auto_job" where
  "new_job i automation scheduled_at queued_at trigger p =
     \<lparr>aj_id = i, aj_automation = automation, aj_status = Queued, aj_scheduled = scheduled_at, aj_queued = queued_at,
      aj_claimed = None, aj_started = None, aj_finished = None, aj_lease = None, aj_next = None, aj_attempts = 0,
      aj_trigger = trigger, aj_plan = p, aj_progress = None, aj_run = None, aj_error = None\<rparr>"

definition insert_job :: "'c auto_job \<Rightarrow> 'c auto_job list \<Rightarrow> 'c auto_job list result" where
  "insert_job j js = (if aj_id j \<in> set (map aj_id js) then Inl IntegrityError else Inr (js @ [j]))"

definition enqueue_execution_job ::
    "'c sealer \<Rightarrow> string \<Rightarrow> automation \<Rightarrow> condition_result \<Rightarrow> real \<Rightarrow> real \<Rightarrow> 'c auto_store \<Rightarrow> ('c auto_store \<times> string) result" where
  "enqueue_execution_job E fresh a trigger scheduled_at queued_at s =
     bindE (execution_plan_from_row E s a) (\<lambda>p.
     bindE (insert_job (new_job fresh (au_id a) scheduled_at queued_at trigger (seal_plan E p)) (as_jobs s)) (\<lambda>js.
       Inr (s\<lparr>as_jobs := js\<rparr>, fresh)))"

text \<open>A transaction that raises leaves the state as it was.\<close>

definition transact :: "'s \<Rightarrow> ('s \<times> 'a) result \<Rightarrow> 's \<times> 'a result" where
  "transact s r = (case r of Inl e \<Rightarrow> (s, Inl e) | Inr (s', x) \<Rightarrow> (s', Inr x))"

definition enqueue_manual_job :: "'c sealer \<Rightarrow> real \<Rightarrow> string \<Rightarrow> string \<Rightarrow> condition_result \<Rightarrow> 'c auto_store \<Rightarrow> 'c auto_store \<times> string result" where
  "enqueue_manual_job E now fresh i trigger s =
     (case find_automation s i of None \<Rightarrow> raiseS s (ValueError ''Automation not found.'') | Some a \<Rightarrow>
      if effective_type s a \<noteq> ''manual.trigger''
        then raiseS s (ValueError ''Only manual-trigger automations can be queued manually.'')
      else transact s (enqueue_execution_job E fresh a
        (if ev_evaluation (cr_evidence trigger) = None then evaluation_result trigger ''manual'' (effective_type s a) now else trigger)
        now now s))"

text \<open>\<open>bool(toolkit.get('ipv4_addresses') or toolkit.get('ipv6_addresses'))\<close> and the like.\<close>

definition json_truthy :: "json option \<Rightarrow> bool" where
  "json_truthy v = (case v of None \<Rightarrow> False | Some JNull \<Rightarrow> False | Some (JBool b) \<Rightarrow> b | Some (JInt i) \<Rightarrow> i \<noteq> 0
     | Some (JFloat t) \<Rightarrow> t \<noteq> ''0.0'' \<and> t \<noteq> ''-0.0'' | Some (JStr t) \<Rightarrow> t \<noteq> [] | Some (JList js) \<Rightarrow> js \<noteq> [] | Some (JObj kvs) \<Rightarrow> kvs \<noteq> [])"

definition network_ready :: "(string \<times> json) list \<Rightarrow> bool" where
  "network_ready toolkit \<longleftrightarrow> json_truthy (map_of toolkit ''ipv4_addresses'') \<or> json_truthy (map_of toolkit ''ipv6_addresses'')"

definition startup_evidence ::
    "(real \<Rightarrow> string) \<Rightarrow> string \<Rightarrow> string \<Rightarrow> real \<Rightarrow> bool \<Rightarrow> int \<Rightarrow> (string \<times> json) list \<Rightarrow> (string \<times> json) list \<Rightarrow> evidence" where
  "startup_evidence ft mode reason occurred ready waited extra toolkit = plain_evidence
     [(''trigger'', JStr ''startup''),
      (''startup'', JObj ([(''mode'', JStr mode), (''reason'', JStr reason), (''occurred_at'', JFloat (ft occurred)),
         (''network_ready'', JBool ready), (''waited_seconds'', JInt waited)] @ extra)),
      (''toolkit'', JObj toolkit)]"

text \<open>\<open>ft\<close> is the text of a float in JSON.\<close>

definition enqueue_startup_test_job ::
    "'c sealer \<Rightarrow> (real \<Rightarrow> string) \<Rightarrow> real \<Rightarrow> string \<Rightarrow> string \<Rightarrow> (string \<times> json) list \<Rightarrow> string \<Rightarrow> 'c auto_store \<Rightarrow> 'c auto_store \<times> string result" where
  "enqueue_startup_test_job E ft now fresh i toolkit started_by s =
     (case find_automation s i of None \<Rightarrow> raiseS s (ValueError ''Automation not found.'') | Some a \<Rightarrow>
      (case get_condition_definition s (au_condition_id a) of None \<Rightarrow> raiseS s (ValueError ''Automation not found.'') | Some c \<Rightarrow>
       if cd_type c \<noteq> ''system.startup'' then raiseS s (ValueError ''Only startup automations can queue a startup test.'')
       else (case validate_startup (cd_config c) of Inl e \<Rightarrow> raiseS s e | Inr config \<Rightarrow>
         transact s (enqueue_execution_job E fresh a (evaluation_result
           \<lparr>cr_met = True, cr_status = ''test'', cr_summary = ''Startup notification test requested by a toolkit user.'',
            cr_evidence = startup_evidence ft (sc_mode config) ''Startup notification test'' now (network_ready toolkit) 0
              [(''test'', JBool True), (''started_by'', JStr started_by)] toolkit\<rparr>
           ''startup'' ''system.startup'' now) now now s))))"

section \<open>The trigger state machine\<close>

record trigger_counts =
  tc_state :: auto_state
  tc_met :: nat
  tc_clear :: nat
  tc_fire :: bool

definition cooldown_ready :: "automation \<Rightarrow> real \<Rightarrow> bool" where
  "cooldown_ready a now \<longleftrightarrow> real (au_cooldown a) \<le> now - (case au_last_triggered a of None \<Rightarrow> 0 | Some t \<Rightarrow> t)"

definition count_condition :: "automation \<Rightarrow> real \<Rightarrow> bool \<Rightarrow> trigger_counts" where
  "count_condition a now met =
     (if met then
        (let met_count = au_met a + 1 in
         if au_state a \<noteq> ATriggered \<and> au_state a \<noteq> ARecovering then
           (if au_trigger_after a \<le> met_count \<and> cooldown_ready a now
            then \<lparr>tc_state = ATriggered, tc_met = met_count, tc_clear = 0, tc_fire = True\<rparr>
            else \<lparr>tc_state = ASuspect, tc_met = met_count, tc_clear = 0, tc_fire = False\<rparr>)
         else \<lparr>tc_state = au_state a, tc_met = met_count, tc_clear = 0, tc_fire = False\<rparr>)
      else if au_state a = ATriggered \<or> au_state a = ARecovering then
        (let clear_count = au_clear a + 1 in
         if au_recover_after a \<le> clear_count then \<lparr>tc_state = AHealthy, tc_met = 0, tc_clear = 0, tc_fire = False\<rparr>
         else \<lparr>tc_state = ARecovering, tc_met = 0, tc_clear = clear_count, tc_fire = False\<rparr>)
      else \<lparr>tc_state = AHealthy, tc_met = 0, tc_clear = 0, tc_fire = False\<rparr>)"

definition observed_result :: "condition_result \<Rightarrow> string \<Rightarrow> real \<Rightarrow> bool \<Rightarrow> condition_result" where
  "observed_result r type_id checked_at explicit = (case ev_evaluation (cr_evidence r) of
       None \<Rightarrow> evaluation_result r ''condition'' type_id checked_at
     | Some e \<Rightarrow> if explicit then r\<lparr>cr_evidence := (cr_evidence r)\<lparr>ev_evaluation := Some (e\<lparr>en_observed := checked_at\<rparr>)\<rparr>\<rparr> else r)"

definition counted :: "real \<Rightarrow> real \<Rightarrow> string \<Rightarrow> trigger_counts \<Rightarrow> automation \<Rightarrow> automation" where
  "counted now checked_at summary c a = a\<lparr>au_state := tc_state c, au_met := tc_met c, au_clear := tc_clear c,
     au_last_check := Some checked_at, au_last_summary := summary, au_last_error := None,
     au_last_triggered := (if tc_fire c then Some now else au_last_triggered a), au_updated := now\<rparr>"

definition add_check :: "check \<Rightarrow> 'c auto_store \<Rightarrow> 'c auto_store" where
  "add_check k s = s\<lparr>as_checks := as_checks s @ [k]\<rparr>"

definition record_condition ::
    "'c sealer \<Rightarrow> real \<Rightarrow> string \<Rightarrow> string \<Rightarrow> condition_result \<Rightarrow> real option \<Rightarrow> real option \<Rightarrow> 'c auto_store \<Rightarrow> 'c auto_store \<times> bool result" where
  "record_condition E now fresh i r scheduled_at observed_at s =
     (case find_automation s i of None \<Rightarrow> raiseS s (ValueError ''Automation not found.'') | Some a \<Rightarrow>
      let checked_at = (case observed_at of None \<Rightarrow> now | Some t \<Rightarrow> t);
          res = observed_result r (effective_type s a) checked_at (observed_at \<noteq> None);
          c = count_condition a now (cr_met res) in
      transact s (bindE (if tc_fire c
          then enqueue_execution_job E fresh a res (case scheduled_at of None \<Rightarrow> now | Some t \<Rightarrow> t) now s
          else Inr (s, fresh))
        (\<lambda>(s1, _). Inr (add_check \<lparr>ck_automation = i, ck_at = checked_at, ck_met = cr_met res, ck_status = cr_status res,
             ck_summary = cr_summary res, ck_evidence = cr_evidence res\<rparr>
           (set_automations (\<lambda>b. au_id b = i) (counted now checked_at (cr_summary res) c) s1), tc_fire c))))"

definition record_error :: "real \<Rightarrow> string \<Rightarrow> string \<Rightarrow> 'c auto_store \<Rightarrow> 'c auto_store result" where
  "record_error now i message s =
     (case find_automation s i of
        None \<Rightarrow> Inl IntegrityError
      | Some a \<Rightarrow>
         let t = effective_type s a;
             evidence_type = (if 1 < length (au_condition_ids a) then ''condition.group'' else t);
             kind = (if t = ''schedule.calendar'' then ''schedule'' else if t = ''system.startup'' then ''startup''
               else if t = ''manual.trigger'' then ''manual'' else ''condition'');
             stop = (t = ''schedule.calendar'')
         in Inr (add_check \<lparr>ck_automation = i, ck_at = now, ck_met = False, ck_status = ''error'', ck_summary = take 2000 message,
               ck_evidence = (plain_evidence [(''error'', JObj [(''message'', JStr (take 2000 message))])])\<lparr>ev_evaluation :=
                 Some \<lparr>en_kind = kind, en_type = evidence_type, en_observed = now\<rparr>\<rparr>\<rparr>
             (set_automations (\<lambda>b. au_id b = i) (\<lambda>b. b\<lparr>au_state := AError, au_last_check := Some now, au_last_error := Some (take 2000 message),
               au_last_summary := ''Condition check could not be completed.'', au_enabled := (if stop then False else au_enabled b),
               au_next := (if stop then None else au_next b), au_pending := (if stop then None else au_pending b), au_updated := now\<rparr>) s)))"

definition record_observation :: "real \<Rightarrow> string \<Rightarrow> string \<Rightarrow> string \<Rightarrow> 'c auto_store \<Rightarrow> 'c auto_store result" where
  "record_observation now i status summary s =
     (if find_automation s i = None then Inl IntegrityError
      else Inr (add_check \<lparr>ck_automation = i, ck_at = now, ck_met = False, ck_status = take 40 status, ck_summary = take 2000 summary,
          ck_evidence = plain_evidence []\<rparr>
        (set_automations (\<lambda>b. au_id b = i) (\<lambda>b. b\<lparr>au_last_check := Some now, au_last_summary := take 2000 summary, au_updated := now\<rparr>) s)))"

end
