(* ===== verification/Automation_Events.thy ===== *)
theory Automation_Events
  imports Automation_Queue
begin

text \<open>
  Startup events of \<open>AutomationStore\<close>: each boot of the host or start of the toolkit has a key,
  and the event state of an automation remembers the last key it has answered.
\<close>

text \<open>The \<open>startup\<close> part of the system identity, read by \<open>startup_event\<close>.\<close>

record startup_identity =
  si_toolkit_id :: string
  si_toolkit_at :: real
  si_boot_id :: string
  si_boot_at :: real

record event =
  ev_key :: string
  ev_occurred :: real
  ev_reason :: string

definition startup_event :: "startup_identity \<Rightarrow> string \<Rightarrow> event" where
  "startup_event i mode =
     (if mode = ''toolkit_start''
      then \<lparr>ev_key = si_toolkit_id i, ev_occurred = si_toolkit_at i, ev_reason = ''Toolkit service started''\<rparr>
      else \<lparr>ev_key = si_boot_id i, ev_occurred = si_boot_at i, ev_reason = ''Host started''\<rparr>)"

definition startup_condition :: "'c auto_store \<Rightarrow> automation \<Rightarrow> condition_def option" where
  "startup_condition s a = (case get_condition_definition s (au_condition_id a) of
       Some c \<Rightarrow> if cd_type c = ''system.startup'' then Some c else None | None \<Rightarrow> None)"

definition event_of :: "'c auto_store \<Rightarrow> string \<Rightarrow> event_state option" where
  "event_of s i = select_first (\<lambda>e. es_automation e = i) (as_events s)"

text \<open>\<open>INSERT ... ON CONFLICT(automation_id) DO UPDATE\<close>.\<close>

definition put_event :: "event_state \<Rightarrow> 'c auto_store \<Rightarrow> 'c auto_store" where
  "put_event e s = s\<lparr>as_events := (if event_of s (es_automation e) = None then as_events s @ [e]
     else update_rows (\<lambda>x. es_automation x = es_automation e) (\<lambda>_. e) (as_events s))\<rparr>"

definition primary_address :: "(string \<times> json) list \<Rightarrow> string" where
  "primary_address toolkit =
     (if json_truthy (map_of toolkit ''primary_ipv4'') then (case map_of toolkit ''primary_ipv4'' of Some (JStr a) \<Rightarrow> a | _ \<Rightarrow> [])
      else (case map_of toolkit ''ipv6_addresses'' of Some (JList (JStr a # _)) \<Rightarrow> a | _ \<Rightarrow> []))"

definition startup_summary :: "string \<Rightarrow> string \<Rightarrow> string" where
  "startup_summary reason address = reason @
     (if address \<noteq> [] then ''; toolkit is available at '' @ address @ ''.''
      else ''; no usable network address was available before the wait expired.'')"

text \<open>One automation of the loop; the flag says whether a job was queued under \<open>fresh\<close>.\<close>

definition startup_one ::
    "'c sealer \<Rightarrow> (real \<Rightarrow> string) \<Rightarrow> real \<Rightarrow> startup_identity \<Rightarrow> (string \<times> json) list \<Rightarrow> string \<Rightarrow> automation
     \<Rightarrow> 'c auto_store \<Rightarrow> ('c auto_store \<times> bool) result" where
  "startup_one E ft now identity toolkit fresh a s =
     (case startup_condition s a of None \<Rightarrow> Inr (s, False) | Some c \<Rightarrow>
      bindE (validate_startup (cd_config c)) (\<lambda>config.
      let e = startup_event identity (sc_mode config) in
      if ev_key e = [] then Inr (s, False)
      else let known = (case event_of s (au_id a) of None \<Rightarrow> None
            | Some p \<Rightarrow> if es_source p = ''system.startup'' then Some (es_key p) else None) in
        if known = None then Inr (put_event \<lparr>es_automation = au_id a, es_source = ''system.startup'', es_key = ev_key e,
            es_occurred = ev_occurred e, es_updated = now\<rparr> s, False)
        else if known = Some (ev_key e) then Inr (s, False)
        else let event_time = (if ev_occurred e = 0 then now else ev_occurred e) in
          if \<not> network_ready toolkit \<and> now < event_time + of_int (sc_wait config) then Inr (s, False)
          else let waited = max 0 \<lfloor>now - event_time\<rfloor>;
              summary = startup_summary (ev_reason e) (primary_address toolkit);
              res = evaluation_result \<lparr>cr_met = True, cr_status = ''started'', cr_summary = summary,
                cr_evidence = startup_evidence ft (sc_mode config) (ev_reason e) event_time (network_ready toolkit) waited [] toolkit\<rparr>
                ''startup'' ''system.startup'' now in
            bindE (enqueue_execution_job E fresh a res event_time now s) (\<lambda>(s1, _).
              Inr (add_check \<lparr>ck_automation = au_id a, ck_at = now, ck_met = True, ck_status = ''started'', ck_summary = summary,
                  ck_evidence = cr_evidence res\<rparr>
                (set_automations (\<lambda>b. au_id b = au_id a) (\<lambda>b. b\<lparr>au_state := AArmed, au_last_check := Some now,
                    au_last_triggered := Some now, au_last_summary := summary, au_last_error := None, au_updated := now\<rparr>)
                  (s1\<lparr>as_events := update_rows (\<lambda>x. es_automation x = au_id a)
                    (\<lambda>x. x\<lparr>es_key := ev_key e, es_occurred := event_time, es_updated := now\<rparr>) (as_events s1)\<rparr>)), True))))"

fun startup_loop ::
    "'c sealer \<Rightarrow> (real \<Rightarrow> string) \<Rightarrow> real \<Rightarrow> startup_identity \<Rightarrow> (string \<times> json) list \<Rightarrow> (nat \<Rightarrow> string) \<Rightarrow> nat
     \<Rightarrow> automation list \<Rightarrow> 'c auto_store \<Rightarrow> ('c auto_store \<times> string list) result" where
  "startup_loop E ft now identity toolkit fresh k [] s = Inr (s, [])"
| "startup_loop E ft now identity toolkit fresh k (a # as) s =
     bindE (startup_one E ft now identity toolkit (fresh k) a s) (\<lambda>(s1, queued).
     bindE (startup_loop E ft now identity toolkit fresh (if queued then Suc k else k) as s1) (\<lambda>(s2, ids).
       Inr (s2, if queued then fresh k # ids else ids)))"

definition startup_rows :: "'c auto_store \<Rightarrow> automation list" where
  "startup_rows s = filter (\<lambda>a. au_enabled a \<and> startup_condition s a \<noteq> None) (as_automations s)"

definition enqueue_startup_events ::
    "'c sealer \<Rightarrow> (real \<Rightarrow> string) \<Rightarrow> real \<Rightarrow> startup_identity \<Rightarrow> (string \<times> json) list \<Rightarrow> (nat \<Rightarrow> string)
     \<Rightarrow> 'c auto_store \<Rightarrow> 'c auto_store \<times> string list result" where
  "enqueue_startup_events E ft now identity toolkit fresh s =
     transact s (startup_loop E ft now identity toolkit fresh 0 (sort_key (\<lambda>a. nocase (au_name a)) (startup_rows s)) s)"

fun pending_among :: "startup_identity \<Rightarrow> 'c auto_store \<Rightarrow> automation list \<Rightarrow> bool result" where
  "pending_among identity s [] = Inr False"
| "pending_among identity s (a # as) = (case startup_condition s a of None \<Rightarrow> pending_among identity s as | Some c \<Rightarrow>
     bindE (validate_startup (cd_config c)) (\<lambda>config.
       let key = ev_key (startup_event identity (sc_mode config)) in
       if key \<noteq> [] \<and> (case event_of s (au_id a) of None \<Rightarrow> True | Some p \<Rightarrow> es_source p \<noteq> ''system.startup'' \<or> es_key p \<noteq> key)
       then Inr True else pending_among identity s as))"

definition has_pending_startup_events :: "startup_identity \<Rightarrow> 'c auto_store \<Rightarrow> bool result" where
  "has_pending_startup_events identity s = pending_among identity s (startup_rows s)"

end
