(* ===== verification/Automation_Jobs.thy ===== *)
theory Automation_Jobs
  imports Automation_Queue
begin

text \<open>
  \<open>AutomationStore\<close>: the life of a queued job, its collected runs and the retention of history.
  Job operations are functions of the job table; \<open>job_op\<close> and \<open>job_step\<close> gather them for the
  invariants.  Artifact files beside the tables are not modelled.
\<close>

section \<open>Leases\<close>

definition lease_length :: "int \<Rightarrow> real" where
  "lease_length lease_seconds = of_int (max 30 (min lease_seconds 3600))"

definition ready_at :: "real \<Rightarrow> 'c auto_job \<Rightarrow> bool" where
  "ready_at now j \<longleftrightarrow> (aj_status j = Queued \<or> aj_status j = Waiting) \<and> (case aj_next j of None \<Rightarrow> True | Some t \<Rightarrow> t \<le> now)"

definition lease_expired :: "real \<Rightarrow> 'c auto_job \<Rightarrow> bool" where
  "lease_expired now j \<longleftrightarrow> aj_status j = Running \<and> (case aj_lease j of None \<Rightarrow> False | Some t \<Rightarrow> t \<le> now)"

definition leased :: "real \<Rightarrow> int \<Rightarrow> 'c auto_job \<Rightarrow> 'c auto_job" where
  "leased now lease_seconds j = j\<lparr>aj_status := Running, aj_claimed := Some now,
     aj_started := (if aj_started j = None then Some now else aj_started j),
     aj_lease := Some (now + lease_length lease_seconds), aj_next := None, aj_attempts := aj_attempts j + 1\<rparr>"

definition claim_jobs :: "real \<Rightarrow> int \<Rightarrow> int \<Rightarrow> string list \<Rightarrow> 'c auto_job list \<Rightarrow> 'c auto_job list \<times> 'c auto_job list" where
  "claim_jobs now limit lease_seconds excluded js =
     (let ids = map aj_id (take (nat (max 1 limit)) (sort_key (\<lambda>j. (aj_queued j, aj_id j))
            (filter (\<lambda>j. (ready_at now j \<or> lease_expired now j) \<and> aj_automation j \<notin> set excluded) js)));
          js' = update_rows (\<lambda>j. aj_id j \<in> set ids) (leased now lease_seconds) js
      in (js', map (\<lambda>i. the (select_first (\<lambda>j. aj_id j = i) js')) ids))"

definition claim_one :: "real \<Rightarrow> string \<Rightarrow> int \<Rightarrow> 'c auto_job list \<Rightarrow> 'c auto_job list \<times> 'c auto_job option" where
  "claim_one now i lease_seconds js =
     (let p = (\<lambda>j. aj_id j = i \<and> ready_at now j) in
      if row_count p js = 0 then (js, None)
      else let js' = update_rows p (leased now lease_seconds) js in (js', select_first (\<lambda>j. aj_id j = i) js'))"

definition renew_job_lease :: "real \<Rightarrow> string \<Rightarrow> int \<Rightarrow> 'c auto_job list \<Rightarrow> 'c auto_job list \<times> bool" where
  "renew_job_lease now i lease_seconds js =
     (let p = (\<lambda>j. aj_id j = i \<and> aj_status j = Running) in
      (update_rows p (\<lambda>j. j\<lparr>aj_lease := Some (now + lease_length lease_seconds)\<rparr>) js, row_count p js \<noteq> 0))"

text \<open>An update of a running job, and the error the methods raise when it matched no row.\<close>

definition update_running :: "string \<Rightarrow> ('c auto_job \<Rightarrow> 'c auto_job) \<Rightarrow> 'c auto_job list \<Rightarrow> 'c auto_job list result" where
  "update_running i f js =
     (let p = (\<lambda>j. aj_id j = i \<and> aj_status j = Running) in
      if row_count p js = 0 then Inl (ValueError ''Automation job is not running.'') else Inr (update_rows p f js))"

definition save_job_progress :: "'c sealer \<Rightarrow> string \<Rightarrow> stage_progress \<Rightarrow> 'c auto_job list \<Rightarrow> 'c auto_job list result" where
  "save_job_progress E i p = update_running i (\<lambda>j. j\<lparr>aj_progress := Some (seal_progress E p)\<rparr>)"

definition defer_job_for_stage :: "'c sealer \<Rightarrow> real \<Rightarrow> string \<Rightarrow> int \<Rightarrow> stage_progress \<Rightarrow> 'c auto_job list \<Rightarrow> ('c auto_job list \<times> real) result" where
  "defer_job_for_stage E now i delay p js =
     (if \<not> (1 \<le> delay \<and> delay \<le> automation_max_stage_delay)
        then Inl (ValueError ''The stage delay is outside the supported range.'')
      else bindE (update_running i (\<lambda>j. j\<lparr>aj_status := Waiting, aj_next := Some (now + of_int delay), aj_lease := None,
             aj_claimed := None, aj_attempts := 0, aj_progress := Some (seal_progress E p), aj_error := None\<rparr>) js)
        (\<lambda>js'. Inr (js', now + of_int delay)))"

text \<open>\<open>runs\<close> are the identifiers the foreign key \<open>run_id\<close> may name.\<close>

definition complete_job :: "string list \<Rightarrow> real \<Rightarrow> string \<Rightarrow> string \<Rightarrow> 'c auto_job list \<Rightarrow> 'c auto_job list result" where
  "complete_job runs now i run_id js =
     bindE (update_running i (\<lambda>j. j\<lparr>aj_status := Completed, aj_finished := Some now, aj_lease := None,
         aj_run := Some run_id, aj_error := None, aj_progress := None\<rparr>) js)
       (\<lambda>js'. if run_id \<in> set runs then Inr js' else Inl IntegrityError)"

definition link_job_run :: "string list \<Rightarrow> string \<Rightarrow> string \<Rightarrow> 'c auto_job list \<Rightarrow> 'c auto_job list result" where
  "link_job_run runs i run_id js =
     bindE (update_running i (\<lambda>j. j\<lparr>aj_run := Some run_id\<rparr>) js)
       (\<lambda>js'. if run_id \<in> set runs then Inr js' else Inl IntegrityError)"

section \<open>Failure and retry\<close>

definition retry_delay :: "nat \<Rightarrow> real" where
  "retry_delay attempts = of_int (min 300 (5 * 2 ^ (attempts - 1)))"

definition fail_job :: "real \<Rightarrow> string \<Rightarrow> string \<Rightarrow> int \<Rightarrow> 'c auto_job list \<Rightarrow> ('c auto_job list \<times> job_status) result" where
  "fail_job now i message max_attempts js = (case select_first (\<lambda>j. aj_id j = i) js of
       None \<Rightarrow> Inl (ValueError ''Automation job not found.'')
     | Some row \<Rightarrow>
        let terminal = (max 1 max_attempts \<le> int (aj_attempts row)) in
        Inr (update_rows (\<lambda>j. aj_id j = i) (\<lambda>j. j\<lparr>aj_status := (if terminal then Failed else Queued),
            aj_finished := (if terminal then Some now else None), aj_lease := None,
            aj_next := (if terminal then None else Some (now + retry_delay (aj_attempts row))),
            aj_error := Some (take 2000 message)\<rparr>) js,
          if terminal then Failed else Queued))"

definition retry_failed_jobs :: "real \<Rightarrow> 'c auto_job list \<Rightarrow> 'c auto_job list \<times> nat" where
  "retry_failed_jobs now js =
     (update_rows (\<lambda>j. aj_status j = Failed) (\<lambda>j. j\<lparr>aj_status := Queued, aj_next := Some now, aj_attempts := 0,
        aj_claimed := None, aj_started := None, aj_finished := None, aj_lease := None\<rparr>) js,
      row_count (\<lambda>j. aj_status j = Failed) js)"

record job_stats =
  js_queued :: nat
  js_waiting :: nat
  js_running :: nat
  js_failed :: nat
  js_completed :: nat
  js_oldest_age :: "int option"

definition job_stats :: "real \<Rightarrow> 'c auto_job list \<Rightarrow> job_stats" where
  "job_stats now js =
     (let count = (\<lambda>st. row_count (\<lambda>j. aj_status j = st) js);
          pending = map aj_queued (filter active_job js);
          oldest = (if pending = [] then None else Some (Min (set pending)))
      in \<lparr>js_queued = count Queued, js_waiting = count Waiting, js_running = count Running, js_failed = count Failed,
          js_completed = count Completed, js_oldest_age = (case oldest of None \<Rightarrow> None
            | Some t \<Rightarrow> if t = 0 then None else Some (max 0 (\<lfloor>now - t\<rfloor>)))\<rparr>)"

text \<open>\<open>_job_from_row\<close>: what a claim hands to the engine.\<close>

record queue_job =
  qj_id :: string
  qj_attempts :: nat
  qj_scheduled :: real
  qj_queued :: real
  qj_run :: "string option"
  qj_trigger :: condition_result
  qj_plan :: plan
  qj_progress :: "stage_progress option"

definition job_from_row :: "'c sealer \<Rightarrow> 'c auto_job \<Rightarrow> queue_job result" where
  "job_from_row E j = bindE (decrypted (open_plan E (aj_plan j))) (\<lambda>p.
     bindE (case aj_progress j of None \<Rightarrow> Inr None
         | Some c \<Rightarrow> bindE (decrypted (open_progress E c)) (\<lambda>g. Inr (Some g))) (\<lambda>g.
       Inr \<lparr>qj_id = aj_id j, qj_attempts = aj_attempts j, qj_scheduled = aj_scheduled j, qj_queued = aj_queued j,
         qj_run = aj_run j, qj_trigger = aj_trigger j, qj_plan = p, qj_progress = g\<rparr>))"

section \<open>Collected runs\<close>

definition run_status :: "action_result list \<Rightarrow> string" where
  "run_status rs = (if rs \<noteq> [] \<and> list_all (\<lambda>r. ar_status r = ''success'') rs then ''success''
     else if rs = [] \<or> list_all (\<lambda>r. ar_status r = ''error'') rs then ''error'' else ''partial'')"

text \<open>The clock is read before the artifacts are copied and once more for the row.\<close>

definition record_run ::
    "clock \<Rightarrow> string \<Rightarrow> string \<Rightarrow> condition_result \<Rightarrow> action_result list \<Rightarrow> 'c auto_store \<Rightarrow> 'c auto_store \<times> string result" where
  "record_run clk run_id automation_id trigger results s =
     (if find_automation s automation_id = None \<or> run_id \<in> set (map rn_id (as_runs s)) then raiseS s IntegrityError
      else (s\<lparr>as_runs := as_runs s @ [\<lparr>rn_id = run_id, rn_automation = automation_id, rn_started = clk 0, rn_finished = clk 1,
          rn_status = run_status results, rn_summary = cr_summary trigger, rn_results = results\<rparr>]\<rparr>, Inr run_id))"

text \<open>Deleting a run clears the reference of a job that survives (\<open>ON DELETE SET NULL\<close>).\<close>

definition drop_runs :: "(auto_run \<Rightarrow> bool) \<Rightarrow> 'c auto_store \<Rightarrow> 'c auto_store" where
  "drop_runs p s = (let gone = map rn_id (filter p (as_runs s)) in
     s\<lparr>as_runs := delete_rows p (as_runs s),
       as_jobs := update_rows (\<lambda>j. case aj_run j of None \<Rightarrow> False | Some r \<Rightarrow> r \<in> set gone) (\<lambda>j. j\<lparr>aj_run := None\<rparr>) (as_jobs s)\<rparr>)"

definition delete_jobs_of_runs :: "string list \<Rightarrow> 'c auto_store \<Rightarrow> 'c auto_store" where
  "delete_jobs_of_runs ids s = s\<lparr>as_jobs := delete_rows (\<lambda>j. case aj_run j of None \<Rightarrow> False | Some r \<Rightarrow> r \<in> set ids) (as_jobs s)\<rparr>"

definition delete_run :: "string \<Rightarrow> 'c auto_store \<Rightarrow> 'c auto_store \<times> unit result" where
  "delete_run i s =
     (if row_count (\<lambda>r. rn_id r = i) (as_runs s) = 0 then raiseS s (ValueError ''Collected action run not found.'')
      else (drop_runs (\<lambda>r. rn_id r = i) (delete_jobs_of_runs [i] s), Inr ()))"

definition clear_runs :: "string \<Rightarrow> 'c auto_store \<Rightarrow> 'c auto_store \<times> nat result" where
  "clear_runs i s =
     (if find_automation s i = None then raiseS s (ValueError ''Automation not found.'')
      else (drop_runs (\<lambda>r. rn_automation r = i)
          (s\<lparr>as_jobs := delete_rows (\<lambda>j. aj_automation j = i \<and> aj_status j = Completed) (as_jobs s)\<rparr>),
        Inr (row_count (\<lambda>r. rn_automation r = i) (as_runs s))))"

section \<open>Retention\<close>

definition check_days :: "int \<Rightarrow> string \<Rightarrow> unit result" where
  "check_days v label = (if 0 \<le> v \<and> v \<le> 3650 then Inr ()
     else Inl (ValueError (label @ '' must be 0-3650 days (0 means never delete).'')))"

definition update_retention_settings :: "int \<Rightarrow> int \<Rightarrow> 'c auto_store \<Rightarrow> 'c auto_store \<times> unit result" where
  "update_retention_settings check_retention run_retention s = transact s
     (bindE (check_days check_retention ''Check history retention'') (\<lambda>_.
      bindE (check_days run_retention ''Collected action run retention'') (\<lambda>_.
        Inr (s\<lparr>as_retention := (as_retention s)\<lparr>rt_check_days := check_retention, rt_run_days := run_retention\<rparr>\<rparr>, ()))))"

definition prune_history :: "real \<Rightarrow> 'c auto_store \<Rightarrow> 'c auto_store \<times> nat \<times> nat" where
  "prune_history now s =
     (let R = as_retention s;
          old_check = (\<lambda>k. rt_check_days R \<noteq> 0 \<and> ck_at k < now - of_int (rt_check_days R) * 86400);
          old_run = (\<lambda>r. rt_run_days R \<noteq> 0 \<and> rn_started r < now - of_int (rt_run_days R) * 86400);
          s1 = s\<lparr>as_checks := delete_rows old_check (as_checks s)\<rparr>;
          s2 = drop_runs old_run (delete_jobs_of_runs (map rn_id (filter old_run (as_runs s))) s1)
      in (s2\<lparr>as_retention := R\<lparr>rt_last_pruned := now\<rparr>\<rparr>, row_count old_check (as_checks s), row_count old_run (as_runs s)))"

definition prune_history_if_due :: "real \<Rightarrow> 'c auto_store \<Rightarrow> 'c auto_store \<times> (nat \<times> nat) option" where
  "prune_history_if_due now s =
     (if now - rt_last_pruned (as_retention s) < 86400 then (s, None)
      else (case prune_history now s of (s', n) \<Rightarrow> (s', Some n)))"

section \<open>The operations of the queue\<close>

datatype 'c job_op =
    Enqueue string string real real condition_result 'c
  | Claim real int int "string list"
  | Claim_One real string int
  | Renew real string int
  | Save_Progress string stage_progress
  | Defer real string int stage_progress
  | Complete "string list" real string string
  | Link "string list" string string
  | Fail real string string int
  | Retry real

definition keep :: "'a \<Rightarrow> 'a result \<Rightarrow> 'a" where
  "keep old r = (case r of Inl e \<Rightarrow> old | Inr new \<Rightarrow> new)"

fun job_step :: "'c sealer \<Rightarrow> 'c auto_job list \<Rightarrow> 'c job_op \<Rightarrow> 'c auto_job list" where
  "job_step E js (Enqueue i a sch que trg p) = keep js (insert_job (new_job i a sch que trg p) js)"
| "job_step E js (Claim now limit lease excluded) = fst (claim_jobs now limit lease excluded js)"
| "job_step E js (Claim_One now i lease) = fst (claim_one now i lease js)"
| "job_step E js (Renew now i lease) = fst (renew_job_lease now i lease js)"
| "job_step E js (Save_Progress i p) = keep js (save_job_progress E i p js)"
| "job_step E js (Defer now i delay p) = keep js (map_sum id fst (defer_job_for_stage E now i delay p js))"
| "job_step E js (Complete runs now i r) = keep js (complete_job runs now i r js)"
| "job_step E js (Link runs i r) = keep js (link_job_run runs i r js)"
| "job_step E js (Fail now i message n) = keep js (map_sum id fst (fail_job now i message n js))"
| "job_step E js (Retry now) = fst (retry_failed_jobs now js)"

end
