(* ===== verification/Automation_Pipeline.thy ===== *)
theory Automation_Pipeline
  imports Automation_Jobs
begin

text \<open>
  \<open>AutomationEngine\<close> of \<open>twn_toolkit/automation.py\<close> and the worker window of
  \<open>twn_toolkit/automation_execution.py\<close>: evaluating a group of conditions, running the stages of a
  plan, saving progress after each of them, deferring at a delay, and settling the job.

  What an action or a condition does is outside the program's own logic: \<open>registry\<close> gives the
  implementation of an action type, which returns a result or raises (type and text of the exception).
\<close>

section \<open>Text of a JSON value\<close>

text \<open>Python's \<open>repr\<close> and \<open>str\<close>.\<close>

fun py_repr :: "json \<Rightarrow> string" where
  "py_repr JNull = ''None''"
| "py_repr (JBool b) = (if b then ''True'' else ''False'')"
| "py_repr (JInt i) = show_int i"
| "py_repr (JFloat t) = t"
| "py_repr (JStr s) = repr_string s"
| "py_repr (JList js) = ''['' @ join_with '', '' (map py_repr js) @ '']''"
| "py_repr (JObj kvs) = ''{'' @ join_with '', '' (map (\<lambda>(k, v). repr_string k @ '': '' @ py_repr v) kvs) @ ''}''"

definition py_str :: "json \<Rightarrow> string" where
  "py_str j = (case j of JStr s \<Rightarrow> s | _ \<Rightarrow> py_repr j)"

section \<open>What later stages see of an action\<close>

text \<open>\<open>item.get(key, default)\<close>; an item that is not a dictionary has no \<open>get\<close>.\<close>

definition dict_get :: "json \<Rightarrow> string \<Rightarrow> json \<Rightarrow> json result" where
  "dict_get item k d = (case item of JObj kvs \<Rightarrow> Inr (case map_of kvs k of None \<Rightarrow> d | Some v \<Rightarrow> v)
     | _ \<Rightarrow> Inl (RuntimeError ''AttributeError''))"

text \<open>A field copied as it is, or as text cut to a length.\<close>

definition copy_field :: "string \<Rightarrow> json \<Rightarrow> json \<Rightarrow> (string \<times> json) result" where
  "copy_field k d item = bindE (dict_get item k d) (\<lambda>v. Inr (k, v))"

definition cut_field :: "string \<Rightarrow> nat \<Rightarrow> json \<Rightarrow> (string \<times> json) result" where
  "cut_field k n item = bindE (dict_get item k (JStr [])) (\<lambda>v. Inr (k, JStr (take n (py_str v))))"

definition host_context :: "json \<Rightarrow> json result" where
  "host_context item = bindE (collect (\<lambda>f. f item)
     [copy_field ''host'' JNull, copy_field ''host_label'' (JStr []), copy_field ''status'' JNull, cut_field ''error'' 500])
     (\<lambda>kvs. Inr (JObj kvs))"

definition transfer_context :: "json \<Rightarrow> json result" where
  "transfer_context item = bindE (collect (\<lambda>f. f item)
     [copy_field ''host'' JNull, copy_field ''host_label'' (JStr []), cut_field ''remote_path'' 500, copy_field ''status'' JNull,
      cut_field ''filename'' 255, cut_field ''stored_path'' 500, copy_field ''size'' (JInt 0), cut_field ''error'' 500])
     (\<lambda>kvs. Inr (JObj kvs))"

definition context_entry :: "string \<times> json \<Rightarrow> (string \<times> json) list result" where
  "context_entry kv = (case kv of (k, v) \<Rightarrow>
     if k = ''hosts'' \<and> (case v of JList _ \<Rightarrow> True | _ \<Rightarrow> False)
       then bindE (collect host_context (case v of JList items \<Rightarrow> take 100 items | _ \<Rightarrow> [])) (\<lambda>js. Inr [(''hosts'', JList js)])
     else if k = ''transfers'' \<and> (case v of JList _ \<Rightarrow> True | _ \<Rightarrow> False)
       then bindE (collect transfer_context (case v of JList items \<Rightarrow> take 200 items | _ \<Rightarrow> [])) (\<lambda>js. Inr [(''transfers'', JList js)])
     else if k = ''_pipeline'' then Inr []
     else (case v of JStr t \<Rightarrow> Inr [(k, JStr (take 2000 t))] | JList _ \<Rightarrow> Inr [] | JObj _ \<Rightarrow> Inr [] | _ \<Rightarrow> Inr [(k, v)]))"

definition bounded_action_context :: "(string \<times> json) list \<Rightarrow> (string \<times> json) list result" where
  "bounded_action_context output = bindE (collect context_entry output) (\<lambda>es. Inr (concat es))"

section \<open>One stage\<close>

type_synonym action_type =
  "(string \<times> json) list \<Rightarrow> string \<Rightarrow> condition_result \<Rightarrow> (string \<times> string) + action_result"

type_synonym registry = "string \<Rightarrow> action_type option"

definition pipeline_mark :: "plan_action \<Rightarrow> stage \<Rightarrow> nat \<Rightarrow> string \<times> json" where
  "pipeline_mark a st index = (''_pipeline'', JObj [(''action_id'', JStr (pa_id a)), (''action_name'', JStr (pa_name a)),
     (''stage_id'', JStr (st_id st)), (''stage_name'', JStr (st_name st)), (''stage_index'', JInt (int index))])"

text \<open>\<open>{**output, '_pipeline': ...}\<close>.\<close>

definition execute_action :: "registry \<Rightarrow> condition_result \<Rightarrow> stage \<Rightarrow> nat \<Rightarrow> plan_action \<Rightarrow> action_result" where
  "execute_action reg trigger st index a =
     (case (case reg (pa_type a) of None \<Rightarrow> Inl (''KeyError'', repr_string (pa_type a))
        | Some act \<Rightarrow> act (pa_config a) (pa_name a) trigger) of
       Inr r \<Rightarrow> r\<lparr>ar_output := assoc_put (fst (pipeline_mark a st index)) (snd (pipeline_mark a st index)) (ar_output r)\<rparr>
     | Inl (exc, text) \<Rightarrow> \<lparr>ar_status = ''error'', ar_summary = pa_type a @ '' failed: '' @ exc @ '': '' @ text,
         ar_output = [pipeline_mark a st index]\<rparr>)"

definition contextual_trigger :: "condition_result \<Rightarrow> prior_context \<Rightarrow> condition_result" where
  "contextual_trigger t ctx = t\<lparr>cr_evidence := (cr_evidence t)\<lparr>ev_actions := Some ctx\<rparr>\<rparr>"

definition execute_stage :: "registry \<Rightarrow> condition_result \<Rightarrow> prior_context \<Rightarrow> nat \<Rightarrow> plan_stage \<Rightarrow> action_result list" where
  "execute_stage reg trigger ctx index ps =
     map (execute_action reg (contextual_trigger trigger ctx) (ps_stage ps) index) (ps_actions ps)"

definition add_action_context :: "stage \<Rightarrow> prior_context \<Rightarrow> plan_action \<times> action_result \<Rightarrow> prior_context result" where
  "add_action_context st ctx ar = (case ar of (a, r) \<Rightarrow> bindE (bounded_action_context (ar_output r)) (\<lambda>out.
     let item = \<lparr>pi_id = pa_id a, pi_name = pa_name a, pi_type = pa_type a, pi_stage_id = st_id st, pi_stage_name = st_name st,
           pi_status = ar_status r, pi_summary = ar_summary r, pi_output = out\<rparr>;
         ctx1 = ctx\<lparr>pc_results := pc_results ctx @ [item]\<rparr>
     in Inr (if ar_status r = ''success'' then ctx1\<lparr>pc_successful := pc_successful ctx @ [pa_name a]\<rparr>
       else if ar_status r = ''partial'' then ctx1\<lparr>pc_partial := pc_partial ctx @ [pa_name a]\<rparr>
       else ctx1\<lparr>pc_failed := pc_failed ctx @ [pa_name a]\<rparr>)))"

fun add_contexts :: "stage \<Rightarrow> (plan_action \<times> action_result) list \<Rightarrow> prior_context \<Rightarrow> prior_context result" where
  "add_contexts st [] ctx = Inr ctx"
| "add_contexts st (ar # ars) ctx = bindE (add_action_context st ctx ar) (add_contexts st ars)"

definition add_stage_context :: "prior_context \<Rightarrow> plan_stage \<Rightarrow> action_result list \<Rightarrow> prior_context result" where
  "add_stage_context ctx ps rs = add_contexts (ps_stage ps) (zip (ps_actions ps) rs) ctx"

section \<open>The pipeline\<close>

definition empty_context :: prior_context where
  "empty_context = \<lparr>pc_results = [], pc_successful = [], pc_partial = [], pc_failed = []\<rparr>"

definition no_progress :: stage_progress where
  "no_progress = \<lparr>pg_next = 0, pg_delay_done = [], pg_results = [], pg_context = empty_context\<rparr>"

definition pipeline_progress :: "nat \<Rightarrow> string \<Rightarrow> action_result list \<Rightarrow> prior_context \<Rightarrow> stage_progress" where
  "pipeline_progress next delay_done results ctx =
     \<lparr>pg_next = int next, pg_delay_done = delay_done, pg_results = results, pg_context = ctx\<rparr>"

text \<open>
  The loop from stage \<open>off\<close> of \<open>n\<close>, over the stages that are left.  An empty \<open>jid\<close> is a run outside
  the queue, which sleeps through delays and saves nothing.  The result is \<open>None\<close> when the job was deferred.
\<close>

fun pipeline_loop ::
    "'c sealer \<Rightarrow> real \<Rightarrow> registry \<Rightarrow> condition_result \<Rightarrow> string \<Rightarrow> nat \<Rightarrow> nat \<Rightarrow> string \<Rightarrow> action_result list \<Rightarrow> prior_context
     \<Rightarrow> plan_stage list \<Rightarrow> 'c auto_job list \<Rightarrow> 'c auto_job list \<times> action_result list option result" where
  "pipeline_loop E now reg trigger jid n off delay_done results ctx [] js = (js, Inr (Some results))"
| "pipeline_loop E now reg trigger jid n off delay_done results ctx (ps # rest) js =
     (let st = ps_stage ps in
      if 0 < off \<and> 0 < st_delay st \<and> delay_done \<noteq> st_id st \<and> jid \<noteq> [] then
        (case defer_job_for_stage E now jid (st_delay st) (pipeline_progress off (st_id st) results ctx) js of
           Inl e \<Rightarrow> (js, Inl e) | Inr (js', _) \<Rightarrow> (js', Inr None))
      else let stage_results = execute_stage reg trigger ctx (Suc off) ps; results' = results @ stage_results in
        (case add_stage_context ctx ps stage_results of Inl e \<Rightarrow> (js, Inl e) | Inr ctx' \<Rightarrow>
          let go = stage_should_continue (st_policy st) (map ar_status stage_results);
              next = (if go then Suc off else n) in
          (case (if jid = [] then Inr js else save_job_progress E jid (pipeline_progress next [] results' ctx') js) of
             Inl e \<Rightarrow> (js, Inl e)
           | Inr js' \<Rightarrow> if go then pipeline_loop E now reg trigger jid n (Suc off) [] results' ctx' rest js'
               else (js', Inr (Some results')))))"

definition execute_pipeline ::
    "'c sealer \<Rightarrow> real \<Rightarrow> registry \<Rightarrow> condition_result \<Rightarrow> plan \<Rightarrow> stage_progress \<Rightarrow> string \<Rightarrow> 'c auto_job list
     \<Rightarrow> 'c auto_job list \<times> action_result list option result" where
  "execute_pipeline E now reg trigger p g jid js =
     (let n = length (pl_stages p) in
      if \<not> (0 \<le> pg_next g \<and> pg_next g \<le> int n) then (js, Inl (ValueError ''Saved automation pipeline progress is invalid.''))
      else pipeline_loop E now reg trigger jid n (nat (pg_next g)) (pg_delay_done g) (pg_results g) (pg_context g)
        (drop (nat (pg_next g)) (pl_stages p)) js)"

section \<open>Settling a job\<close>

definition execution_trigger :: "queue_job \<Rightarrow> condition_result" where
  "execution_trigger j = (qj_trigger j)\<lparr>cr_evidence := (cr_evidence (qj_trigger j))\<lparr>ev_execution :=
     Some \<lparr>ex_job = qj_id j, ex_attempt = qj_attempts j, ex_scheduled = qj_scheduled j, ex_queued = qj_queued j\<rparr>\<rparr>\<rparr>"

definition with_jobs :: "'c auto_store \<Rightarrow> 'c auto_job list \<Rightarrow> 'c auto_store" where
  "with_jobs s js = s\<lparr>as_jobs := js\<rparr>"

definition job_update :: "'c auto_store \<Rightarrow> 'c auto_job list result \<Rightarrow> 'c auto_store \<times> unit result" where
  "job_update s r = (case r of Inl e \<Rightarrow> (s, Inl e) | Inr js \<Rightarrow> (with_jobs s js, Inr ()))"

definition run_ids :: "'c auto_store \<Rightarrow> string list" where
  "run_ids s = map rn_id (as_runs s)"

text \<open>The body of the \<open>try\<close>: \<open>clk 0\<close> times the pipeline, \<open>clk 1\<close> and \<open>clk 2\<close> the run, \<open>clk 3\<close> the completion.\<close>

definition settle_job ::
    "'c sealer \<Rightarrow> clock \<Rightarrow> string \<Rightarrow> registry \<Rightarrow> queue_job \<Rightarrow> 'c auto_store \<Rightarrow> 'c auto_store \<times> string option result" where
  "settle_job E clk run_id reg j s =
     (case qj_run j of
        Some r \<Rightarrow> bindS (job_update s (complete_job (run_ids s) (clk 3) (qj_id j) r (as_jobs s))) (\<lambda>s _. (s, Inr (Some r)))
      | None \<Rightarrow>
         (case execute_pipeline E (clk 0) reg (execution_trigger j) (qj_plan j)
             (case qj_progress j of None \<Rightarrow> no_progress | Some g \<Rightarrow> g) (qj_id j) (as_jobs s) of
            (js, Inl e) \<Rightarrow> (with_jobs s js, Inl e)
          | (js, Inr None) \<Rightarrow> (with_jobs s js, Inr None)
          | (js, Inr (Some results)) \<Rightarrow>
              bindS (record_run (\<lambda>k. clk (k + 1)) run_id (pl_id (qj_plan j)) (execution_trigger j) results (with_jobs s js)) (\<lambda>s r.
              bindS (job_update s (link_job_run (run_ids s) (qj_id j) r (as_jobs s))) (\<lambda>s _.
              bindS (job_update s (complete_job (run_ids s) (clk 3) (qj_id j) r (as_jobs s))) (\<lambda>s _. (s, Inr (Some r)))))))"

text \<open>The text of an exception, \<open>type: message\<close>.\<close>

definition error_text :: "py_error \<Rightarrow> string" where
  "error_text e = (case e of ValueError m \<Rightarrow> ''ValueError: '' @ m | KeyError m \<Rightarrow> ''KeyError: '' @ m | IndexError \<Rightarrow> ''IndexError: ''
     | IntegrityError \<Rightarrow> ''IntegrityError: '' | EOFError \<Rightarrow> ''EOFError: '' | OSError m \<Rightarrow> ''OSError: '' @ m
     | RuntimeError m \<Rightarrow> ''RuntimeError: '' @ m | TypeError \<Rightarrow> ''TypeError: '' | InterruptedError m \<Rightarrow> ''InterruptedError: '' @ m
     | OverflowError \<Rightarrow> ''OverflowError: '')"

definition process_job ::
    "'c sealer \<Rightarrow> clock \<Rightarrow> string \<Rightarrow> registry \<Rightarrow> queue_job \<Rightarrow> 'c auto_store \<Rightarrow> 'c auto_store \<times> string option result" where
  "process_job E clk run_id reg j s = (case settle_job E clk run_id reg j s of
       (s', Inr r) \<Rightarrow> (s', Inr r)
     | (s', Inl e) \<Rightarrow> (case fail_job (clk 4) (qj_id j) (error_text e) 3 (as_jobs s') of
          Inl e' \<Rightarrow> (s', Inl e') | Inr (js, _) \<Rightarrow> (with_jobs s' js, Inl e)))"

text \<open>\<open>execute_actions\<close>: a run outside the queue.\<close>

definition execute_actions ::
    "'c sealer \<Rightarrow> clock \<Rightarrow> string \<Rightarrow> registry \<Rightarrow> plan \<Rightarrow> condition_result \<Rightarrow> 'c auto_store \<Rightarrow> 'c auto_store \<times> string result" where
  "execute_actions E clk run_id reg p trigger s =
     (case execute_pipeline E (clk 0) reg trigger p no_progress [] (as_jobs s) of
        (js, Inl e) \<Rightarrow> (with_jobs s js, Inl e)
      | (js, Inr None) \<Rightarrow> (with_jobs s js, Inl (RuntimeError ''A synchronous pipeline cannot be deferred.''))
      | (js, Inr (Some results)) \<Rightarrow> record_run (\<lambda>k. clk (k + 1)) run_id (pl_id p) trigger results (with_jobs s js))"

section \<open>Groups of conditions\<close>

text \<open>
  How a check can fail: the capacity of outgoing connections was not available in time, or an
  exception (type and text).  \<open>evaluate\<close> is the implementation of a condition or trigger type,
  \<open>changes\<close> the comparison of network interfaces; \<open>ft\<close> is the text of a float in JSON.
\<close>

datatype raised = Capacity_Wait string | Raised string string

record check_input =
  ci_id :: string
  ci_name :: string
  ci_type :: string
  ci_config :: "(string \<times> json) list"

type_synonym evaluator = "string \<Rightarrow> (string \<times> json) list \<Rightarrow> raised + condition_result"

definition evidence_json :: "(real \<Rightarrow> string) \<Rightarrow> evidence \<Rightarrow> json" where
  "evidence_json ft e = JObj (ev_fields e @ (case ev_evaluation e of None \<Rightarrow> []
     | Some n \<Rightarrow> [(''evaluation'', JObj [(''schema_version'', JInt 1), (''kind'', JStr (en_kind n)), (''type'', JStr (en_type n)),
         (''observed_at'', JFloat (ft (en_observed n)))])]))"

definition mapR :: "('a \<Rightarrow> 'b) \<Rightarrow> 'e + 'a \<Rightarrow> 'e + 'b" where
  "mapR f r = map_sum id f r"

definition evaluate_condition :: "evaluator \<Rightarrow> real \<Rightarrow> check_input \<Rightarrow> raised + condition_result" where
  "evaluate_condition evaluate observed_at c =
     mapR (\<lambda>r. evaluation_result r ''condition'' (ci_type c) observed_at) (evaluate (ci_type c) (ci_config c))"

definition trigger_kind :: "string \<Rightarrow> string" where
  "trigger_kind t = (if t = ''schedule.calendar'' then ''schedule'' else if t = ''system.startup'' then ''startup''
     else if t = ''network.interface_change'' then ''network_change'' else ''manual'')"

definition evaluate_trigger :: "evaluator \<Rightarrow> real \<Rightarrow> check_input \<Rightarrow> raised + condition_result" where
  "evaluate_trigger evaluate now c =
     mapR (\<lambda>r. evaluation_result r (trigger_kind (ci_type c)) (ci_type c) now) (evaluate (ci_type c) (ci_config c))"

fun evaluate_each :: "evaluator \<Rightarrow> real \<Rightarrow> check_input list \<Rightarrow> raised + (check_input \<times> condition_result) list" where
  "evaluate_each evaluate observed_at [] = Inr []"
| "evaluate_each evaluate observed_at (c # cs) = (case evaluate_condition evaluate observed_at c of
       Inl (Capacity_Wait m) \<Rightarrow> Inl (Capacity_Wait m)
     | Inl (Raised t m) \<Rightarrow> Inl (Raised ''RuntimeError'' (ci_name c @ '': '' @ t @ '': '' @ m))
     | Inr r \<Rightarrow> mapR (Cons (c, r)) (evaluate_each evaluate observed_at cs))"

definition group_result :: "(real \<Rightarrow> string) \<Rightarrow> string \<Rightarrow> (check_input \<times> condition_result) list \<Rightarrow> condition_result" where
  "group_result ft operator evaluated =
     (let met_count = length (filter (\<lambda>(_, r). cr_met r) evaluated);
          met = (if operator = ''all'' then met_count = length evaluated else 0 < met_count)
      in \<lparr>cr_met = met, cr_status = (if met then ''met'' else ''clear''),
          cr_summary = (if operator = ''all'' then ''ALL'' else ''ANY'') @ '': '' @ show_nat met_count @ '' of '' @
            show_nat (length evaluated) @ '' conditions met.'',
          cr_evidence = plain_evidence [(''operator'', JStr operator), (''met_count'', JInt (int met_count)),
            (''condition_count'', JInt (int (length evaluated))),
            (''conditions'', JList (map (\<lambda>(c, r). JObj [(''id'', JStr (ci_id c)), (''name'', JStr (ci_name c)), (''type'', JStr (ci_type c)),
               (''met'', JBool (cr_met r)), (''status'', JStr (cr_status r)), (''summary'', JStr (cr_summary r)),
               (''evidence'', evidence_json ft (cr_evidence r))]) evaluated))]\<rparr>)"

definition test_condition ::
    "(real \<Rightarrow> string) \<Rightarrow> evaluator \<Rightarrow> evaluator \<Rightarrow> real \<Rightarrow> real \<Rightarrow> string \<Rightarrow> check_input list \<Rightarrow> raised + condition_result" where
  "test_condition ft changes evaluate now observed_at operator conditions =
     (let first = hd conditions in
      if ci_type first = ''network.interface_change''
        then mapR (\<lambda>r. evaluation_result r ''network_change'' ''network.interface_change'' observed_at)
          (changes (ci_type first) (ci_config first))
      else if length conditions = 1 then
        (if ci_type first \<in> set trigger_types then evaluate_trigger evaluate now first
         else evaluate_condition evaluate observed_at first)
      else mapR (\<lambda>evaluated. evaluation_result (group_result ft operator evaluated) ''condition'' ''condition.group'' observed_at)
        (evaluate_each evaluate observed_at conditions))"

text \<open>\<open>process_automation\<close> for an automation whose condition is not a calendar schedule.\<close>

definition settle_check ::
    "'c sealer \<Rightarrow> real \<Rightarrow> string \<Rightarrow> automation \<Rightarrow> real \<Rightarrow> raised + condition_result \<Rightarrow> 'c auto_store \<Rightarrow> 'c auto_store \<times> unit result" where
  "settle_check E now fresh a observed_at outcome s = (case outcome of
       Inl (Capacity_Wait m) \<Rightarrow> (case record_observation now (au_id a) ''capacity_wait'' m s of
          Inl e \<Rightarrow> (s, Inl e) | Inr s' \<Rightarrow> (s', Inr ()))
     | Inl (Raised t m) \<Rightarrow> (case record_error now (au_id a) (t @ '': '' @ m) s of
          Inl e \<Rightarrow> (s, Inl e) | Inr s' \<Rightarrow> (s', Inr ()))
     | Inr r \<Rightarrow> bindS (record_condition E now fresh (au_id a) r (au_next a) (Some observed_at) s) (\<lambda>s _. (s, Inr ())))"

section \<open>The window of the worker pool\<close>

text \<open>
  \<open>_map_window\<close>: at most \<open>workers\<close> calls are in flight.  \<open>done k pending\<close> is what the k-th \<open>wait\<close>
  reports of the indexes in flight; their results are taken in that order.
\<close>

fun take_results :: "('a \<Rightarrow> 'e + 'b) \<Rightarrow> 'a list \<Rightarrow> nat list \<Rightarrow> 'b option list \<Rightarrow> 'e + 'b option list" where
  "take_results f items [] results = Inr results"
| "take_results f items (i # is) results =
     (case f (items ! i) of Inl e \<Rightarrow> Inl e | Inr r \<Rightarrow> take_results f items is (results[i := Some r]))"

definition fill :: "nat \<Rightarrow> nat \<Rightarrow> nat list \<Rightarrow> nat \<Rightarrow> nat list \<times> nat" where
  "fill workers n pending next = (let k = min (workers - length pending) (n - next) in (pending @ [next..<next + k], next + k))"

lemma window_less:
  assumes "finished = filter (\<lambda>i. i \<in> set pending) d" "left = filter (\<lambda>i. i \<notin> set finished) pending" "finished \<noteq> []"
    and fill: "(pending', nx') = fill workers n left nx"
  shows "n - nx' + length pending' < n - nx + length pending"
proof -
  from assms(3) have "hd finished \<in> set finished" by simp
  moreover from this have "hd finished \<in> set pending" unfolding assms(1) by simp
  ultimately have "length left < length pending" unfolding assms(2) by (intro length_filter_less) auto
  with fill show ?thesis by (auto simp: fill_def Let_def)
qed

function window_loop ::
    "(nat \<Rightarrow> nat list \<Rightarrow> nat list) \<Rightarrow> nat \<Rightarrow> ('a \<Rightarrow> 'e + 'b) \<Rightarrow> 'a list \<Rightarrow> nat \<Rightarrow> nat list \<Rightarrow> nat \<Rightarrow> 'b option list
     \<Rightarrow> ('e + 'b option list) option" where
  "window_loop done_of workers f items k pending next results =
     (if pending = [] then Some (Inr results)
      else let finished = filter (\<lambda>i. i \<in> set pending) (done_of k pending);
               left = filter (\<lambda>i. i \<notin> set finished) pending in
        if finished = [] then None
        else (case take_results f items finished results of Inl e \<Rightarrow> Some (Inl e)
          | Inr results' \<Rightarrow> (case fill workers (length items) left next of
              (pending', next') \<Rightarrow> window_loop done_of workers f items (Suc k) pending' next' results')))"
  by pat_completeness auto
termination
proof (relation "measure (\<lambda>(done_of, workers, f, items, k, pending, nx, results). length items - nx + length pending)", goal_cases)
  case 1
  show ?case by simp
next
  case (2 done_of workers f items k pending nx results finished left r pending' nx')
  show ?case unfolding in_measure prod.case by (rule window_less [OF 2(2) 2(3) 2(4) 2(6)])
qed

declare window_loop.simps [simp del]

definition map_window ::
    "(nat \<Rightarrow> nat list \<Rightarrow> nat list) \<Rightarrow> nat \<Rightarrow> ('a \<Rightarrow> 'e + 'b) \<Rightarrow> 'a list \<Rightarrow> ('e + 'b option list) option" where
  "map_window done_of workers f items = (case fill workers (length items) [] 0 of
     (pending, next) \<Rightarrow> window_loop done_of workers f items 0 pending next (replicate (length items) None))"

end
