(* ===== verification/Automation_Facts.thy ===== *)
theory Automation_Facts
  imports Automation_Pipeline
begin

text \<open>
  Facts of the job queue: the shape of every row a reachable table can hold, and what claims hand out.
\<close>

section \<open>The invariant of the job table\<close>

definition job_ok :: "'c auto_job \<Rightarrow> bool" where
  "job_ok j \<longleftrightarrow> (case aj_status j of
       Queued \<Rightarrow> aj_lease j = None \<and> aj_finished j = None
     | Waiting \<Rightarrow> aj_lease j = None \<and> aj_claimed j = None \<and> aj_next j \<noteq> None \<and> aj_progress j \<noteq> None \<and> aj_finished j = None
     | Running \<Rightarrow> aj_lease j \<noteq> None \<and> aj_claimed j \<noteq> None \<and> aj_started j \<noteq> None \<and> aj_next j = None \<and>
         aj_finished j = None \<and> 0 < aj_attempts j
     | Completed \<Rightarrow> aj_lease j = None \<and> aj_finished j \<noteq> None \<and> aj_progress j = None \<and> aj_run j \<noteq> None
     | Failed \<Rightarrow> aj_lease j = None \<and> aj_finished j \<noteq> None \<and> aj_next j = None)"

definition job_table_ok :: "'c auto_job list \<Rightarrow> bool" where
  "job_table_ok js \<longleftrightarrow> distinct (map aj_id js) \<and> list_all job_ok js"

named_theorems job_ops "unfolding of the operations on the job table"

lemmas [job_ops] = job_table_ok_def insert_job_def new_job_def claim_jobs_def claim_one_def renew_job_lease_def
  save_job_progress_def defer_job_for_stage_def complete_job_def link_job_run_def update_running_def fail_job_def
  retry_failed_jobs_def keep_def Let_def bindE_def

text \<open>An update keeps the table when it keeps the identifier and the shape of each row it changes.\<close>

lemma table_update:
  assumes "job_table_ok js" "\<And>j. p j \<Longrightarrow> aj_id (f j) = aj_id j" "\<And>j. p j \<Longrightarrow> job_ok j \<Longrightarrow> job_ok (f j)"
  shows "job_table_ok (update_rows p f js)"
  using assms by (auto simp: job_table_ok_def update_rows_map list_all_iff elim!: update_rows_cases)

lemma table_running:
  assumes "job_table_ok js" "update_running i f js = Inr js'"
    and "\<And>j. aj_id (f j) = aj_id j" "\<And>j. aj_status j = Running \<Longrightarrow> job_ok j \<Longrightarrow> job_ok (f j)"
  shows "job_table_ok js'"
  using assms table_update [OF assms(1), of "\<lambda>j. aj_id j = i \<and> aj_status j = Running" f]
  by (simp add: update_running_def Let_def split: if_splits)

lemma leased_ok: "(ready_at now j \<or> lease_expired now j) \<Longrightarrow> job_ok j \<Longrightarrow> job_ok (leased now n j)"
  by (auto simp: job_ok_def leased_def ready_at_def lease_expired_def split: job_status.splits)

lemma id_leased [simp]: "aj_id (leased now n j) = aj_id j"
  by (simp add: leased_def)

lemma claim_selects:
  assumes "j \<in> set (take n (sort_key k (filter p js)))"
  shows "j \<in> set js \<and> p j"
  using set_take_subset [of n "sort_key k (filter p js)"] assms by (auto simp del: set_take_subset)

lemma claimed_ids:
  assumes "distinct (map aj_id js)" "j \<in> set js" "aj_id j \<in> set (map aj_id (take n (sort_key k (filter p js))))"
  shows "p j"
proof -
  from assms(3) obtain r where r: "r \<in> set (take n (sort_key k (filter p js)))" "aj_id r = aj_id j" by auto
  with claim_selects [OF r(1)] key_unique [OF assms(1), of r j] assms(2) show ?thesis by auto
qed

lemma claim_jobs_ok:
  fixes js :: "'c auto_job list"
  assumes ok: "job_table_ok js"
  shows "job_table_ok (fst (claim_jobs now limit lease excluded js))"
proof -
  define p where "p = (\<lambda>j :: 'c auto_job. (ready_at now j \<or> lease_expired now j) \<and> aj_automation j \<notin> set excluded)"
  define ids where "ids = map aj_id (take (nat (max 1 limit)) (sort_key (\<lambda>j. (aj_queued j, aj_id j)) (filter p js)))"
  have d: "distinct (map aj_id js)" using ok by (simp add: job_table_ok_def)
  have ready: "p j" if "j \<in> set js" "aj_id j \<in> set ids" for j using claimed_ids [OF d] that unfolding ids_def .
  have "update_rows (\<lambda>j. aj_id j \<in> set ids) (leased now lease) js = update_rows (\<lambda>j. p j \<and> aj_id j \<in> set ids) (leased now lease) js"
    unfolding update_rows_def
  proof (rule map_cong [OF refl])
    fix j assume "j \<in> set js"
    then show "(if aj_id j \<in> set ids then leased now lease j else j) = (if p j \<and> aj_id j \<in> set ids then leased now lease j else j)"
      using ready [of j] by (cases "aj_id j \<in> set ids") simp_all
  qed
  moreover have "job_table_ok (update_rows (\<lambda>j. p j \<and> aj_id j \<in> set ids) (leased now lease) js)"
    by (rule table_update [OF ok]) (auto simp: p_def intro: leased_ok)
  moreover have "fst (claim_jobs now limit lease excluded js) = update_rows (\<lambda>j. aj_id j \<in> set ids) (leased now lease) js"
    unfolding claim_jobs_def Let_def p_def [symmetric] ids_def [symmetric] by (rule fst_conv)
  ultimately show ?thesis by simp
qed

lemma job_step_ok: "job_table_ok js \<Longrightarrow> job_table_ok (job_step E js op)"
proof (cases op)
  case (Claim now limit lease excluded)
  then show "job_table_ok js \<Longrightarrow> ?thesis" by (simp add: claim_jobs_ok)
next
  case (Enqueue i a sch que trg p)
  then show "job_table_ok js \<Longrightarrow> ?thesis" by (auto simp: job_ops job_ok_def)
next
  case (Claim_One now i lease)
  assume ok: "job_table_ok js"
  have "job_table_ok (update_rows (\<lambda>j. aj_id j = i \<and> ready_at now j) (leased now lease) js)"
    by (rule table_update [OF ok]) (auto intro: leased_ok)
  with ok Claim_One show ?thesis by (simp add: claim_one_def Let_def)
next
  case (Renew now i lease)
  assume ok: "job_table_ok js"
  have "job_table_ok (fst (renew_job_lease now i lease js))"
    unfolding renew_job_lease_def Let_def fst_conv by (rule table_update [OF ok]) (auto simp: job_ok_def)
  with Renew show ?thesis by simp
next
  case (Save_Progress i p)
  assume ok: "job_table_ok js"
  with Save_Progress show ?thesis
    by (auto simp: save_job_progress_def keep_def job_ok_def intro: table_running [OF ok] split: sum.splits)
next
  case (Defer now i delay p)
  assume ok: "job_table_ok js"
  with Defer show ?thesis
    by (auto simp: defer_job_for_stage_def keep_def job_ok_def bindE_def intro: table_running [OF ok] split: sum.splits)
next
  case (Complete runs now i r)
  assume ok: "job_table_ok js"
  with Complete show ?thesis
    by (auto simp: complete_job_def keep_def job_ok_def bindE_def intro: table_running [OF ok] split: sum.splits)
next
  case (Link runs i r)
  assume ok: "job_table_ok js"
  with Link show ?thesis
    by (auto simp: link_job_run_def keep_def job_ok_def bindE_def intro: table_running [OF ok] split: sum.splits)
next
  case (Fail now i message n)
  assume ok: "job_table_ok js"
  with Fail show ?thesis
    by (auto simp: fail_job_def keep_def Let_def job_ok_def intro!: table_update [OF ok] split: option.splits sum.splits)
next
  case (Retry now)
  assume ok: "job_table_ok js"
  with Retry show ?thesis
    by (auto simp: retry_failed_jobs_def job_ok_def intro!: table_update [OF ok])
qed

interpretation auto_queue: step_system "job_step E" job_table_ok for E
  by unfold_locales (rule job_step_ok)

text \<open>
  C21: Whatever sequence of operations runs on the queue, from an empty table, identifiers stay
  unique and every row has the shape of its status: a running job has a lease, a claim and an
  attempt, a waiting one a time to resume and saved progress, a completed one a run and no
  progress left, and a job that is not running holds no lease.
\<close>

theorem job_table_invariant: "job_table_ok (foldl (job_step E) [] ops)"
  by (rule auto_queue.run_invar) (simp add: job_table_ok_def)

section \<open>Claims\<close>








section \<open>Failure\<close>



end
