(* ===== verification/Trigger_Facts.thy ===== *)
theory Trigger_Facts
  imports Automation_Events Automation_Facts
begin

text \<open>
  Facts of the trigger state machine: what a firing presupposes, over any sequence of checks of
  one automation, and that a startup event is answered once.
\<close>

section \<open>Sequences of checks\<close>

text \<open>What \<open>record_condition\<close> makes of the row of the automation it checks.\<close>

definition checked :: "automation \<Rightarrow> real \<times> bool \<Rightarrow> automation" where
  "checked a c = counted (fst c) (fst c) [] (count_condition a (fst c) (snd c)) a"

definition after_checks :: "automation \<Rightarrow> (real \<times> bool) list \<Rightarrow> automation" where
  "after_checks a cs = foldl checked a cs"



lemma after_start [simp]: "after_checks a (take 0 cs) = a" "after_checks a [] = a"
  by (simp_all add: after_checks_def)

lemma checked_settings [simp]:
  "au_trigger_after (checked a c) = au_trigger_after a" "au_recover_after (checked a c) = au_recover_after a"
  "au_cooldown (checked a c) = au_cooldown a"
  by (simp_all add: checked_def counted_def)

lemma after_settings [simp]:
  "au_trigger_after (after_checks a cs) = au_trigger_after a" "au_recover_after (after_checks a cs) = au_recover_after a"
  "au_cooldown (after_checks a cs) = au_cooldown a"
  unfolding after_checks_def by (induction cs arbitrary: a) simp_all








lemma observed_result_same [simp]:
  "cr_met (observed_result r t c e) = cr_met r" "cr_summary (observed_result r t c e) = cr_summary r"
  by (simp_all add: observed_result_def evaluation_result_def split: option.splits)

text \<open>
  A check that is recorded leaves the row in the state the counts prescribe, adds one line to
  the history, and queues exactly one job when it fires and none otherwise; a check that raises
  leaves the store as it was.
\<close>

theorem record_condition_outcome:
  assumes "find_automation s i = Some a" "distinct (map au_id (as_automations s))"
    and "record_condition E now fresh i r scheduled_at observed_at s = (s', res)"
  shows "case res of Inl e \<Rightarrow> s' = s
    | Inr fired \<Rightarrow> fired = tc_fire (count_condition a now (cr_met r)) \<and>
        find_automation s' i = Some (counted now (case observed_at of None \<Rightarrow> now | Some t \<Rightarrow> t) (cr_summary r)
          (count_condition a now (cr_met r)) a) \<and>
        length (as_checks s') = length (as_checks s) + 1 \<and>
        (if fired then \<exists>j. as_jobs s' = as_jobs s @ [j] \<and> aj_automation j = i \<and> aj_status j = Queued \<and> aj_id j = fresh
         else as_jobs s' = as_jobs s)"
proof (cases res)
  case (Inl e)
  with assms(1,3) show ?thesis
    by (auto simp: record_condition_def transact_def raiseS_def Let_def split: sum.splits prod.splits option.splits)
next
  case (Inr fired)
  define at_time where "at_time = (case observed_at of None \<Rightarrow> now | Some t \<Rightarrow> t)"
  define res' where "res' = observed_result r (effective_type s a) at_time (observed_at \<noteq> None)"
  let ?c = "count_condition a now (cr_met r)"
  define k where "k = \<lparr>ck_automation = i, ck_at = at_time, ck_met = cr_met r, ck_status = cr_status res',
        ck_summary = cr_summary r, ck_evidence = cr_evidence res'\<rparr>"
  have run: "transact s (bindE (if tc_fire ?c then enqueue_execution_job E fresh a res' (case scheduled_at of None \<Rightarrow> now | Some t \<Rightarrow> t) now s
      else Inr (s, fresh)) (\<lambda>(s1, _). Inr (add_check k (set_automations (\<lambda>b. au_id b = i) (counted now at_time (cr_summary r) ?c) s1), tc_fire ?c)))
      = (s', Inr fired)"
    using assms(1,3) Inr by (simp add: record_condition_def Let_def at_time_def res'_def k_def split del: if_split cong: if_cong)
  then obtain s1 x where s1: "(if tc_fire ?c then enqueue_execution_job E fresh a res' (case scheduled_at of None \<Rightarrow> now | Some t \<Rightarrow> t) now s
      else Inr (s, fresh)) = Inr (s1, x)" and fired: "fired = tc_fire ?c"
    and s': "s' = add_check k (set_automations (\<lambda>b. au_id b = i) (counted now at_time (cr_summary r) ?c) s1)"
    by (auto simp: transact_def bindE_eq_Inr split: sum.splits prod.splits)
  have a: "a \<in> set (as_automations s)" "au_id a = i" using select_first_Some assms(1) by (auto simp: find_automation_def dest: select_first_Some)
  have jobs: "as_automations s1 = as_automations s \<and> as_checks s1 = as_checks s \<and>
      (if fired then \<exists>j. as_jobs s1 = as_jobs s @ [j] \<and> aj_automation j = i \<and> aj_status j = Queued \<and> aj_id j = fresh
       else as_jobs s1 = as_jobs s)"
    using s1 a(2) unfolding fired
    by (auto simp: enqueue_execution_job_def bindE_eq_Inr insert_job_def new_job_def split: if_splits)
  have ids: "au_id (counted now at_time t c b) = au_id b" for t c b by (simp add: counted_def)
  have rows: "as_automations s' = update_rows (\<lambda>b. au_id b = i) (counted now at_time (cr_summary r) ?c) (as_automations s)"
    using s' jobs by (simp add: add_check_def set_automations_def)
  have "counted now at_time (cr_summary r) ?c a \<in> set (as_automations s')"
    unfolding rows using a by (intro update_rows_in) auto
  moreover have "distinct (map au_id (as_automations s'))" unfolding rows using assms(2) by (simp add: update_rows_map ids)
  ultimately have "find_automation s' i = Some (counted now at_time (cr_summary r) ?c a)"
    using select_key [of au_id "as_automations s'" "counted now at_time (cr_summary r) ?c a"] a(2) by (simp add: find_automation_def ids)
  with Inr fired jobs s' show ?thesis by (auto simp: at_time_def add_check_def set_automations_def)
qed

section \<open>Startup events\<close>







lemma put_event_other [simp]:
  "as_conditions (put_event e s) = as_conditions s" "as_automations (put_event e s) = as_automations s"
  by (simp_all add: put_event_def)










end
