(* ===== verification/Pipeline_Facts.thy ===== *)
theory Pipeline_Facts
  imports Automation_Facts
begin

text \<open>
  Facts of the pipeline: a run that is deferred, interrupted or retried resumes from its saved
  progress and ends with the results of a run that goes straight through; it ends after finitely
  many claims; and the worker window returns the results in the order of the items.
\<close>

section \<open>The reference: a run that goes straight through\<close>

fun straight :: "registry \<Rightarrow> condition_result \<Rightarrow> nat \<Rightarrow> action_result list \<Rightarrow> prior_context \<Rightarrow> plan_stage list \<Rightarrow> action_result list result" where
  "straight reg trigger off results ctx [] = Inr results"
| "straight reg trigger off results ctx (ps # rest) =
     (let rs = execute_stage reg trigger ctx (Suc off) ps in
      bindE (add_stage_context ctx ps rs) (\<lambda>ctx'.
        if stage_should_continue (st_policy (ps_stage ps)) (map ar_status rs)
        then straight reg trigger (Suc off) (results @ rs) ctx' rest else Inr (results @ rs)))"

definition straight_from :: "registry \<Rightarrow> condition_result \<Rightarrow> plan \<Rightarrow> stage_progress \<Rightarrow> action_result list result" where
  "straight_from reg trigger p g = straight reg trigger (nat (pg_next g)) (pg_results g) (pg_context g) (drop (nat (pg_next g)) (pl_stages p))"

definition row_of :: "string \<Rightarrow> 'c auto_job list \<Rightarrow> 'c auto_job option" where
  "row_of i js = select_first (\<lambda>j. aj_id j = i) js"

definition saved_progress :: "'c sealer \<Rightarrow> 'c auto_job \<Rightarrow> stage_progress option" where
  "saved_progress E j = (case aj_progress j of None \<Rightarrow> Some no_progress | Some c \<Rightarrow> open_progress E c)"

text \<open>Updating the one running row of the job.\<close>

lemma row_update:
  assumes "row_of i js = Some j" "aj_status j = Running" "distinct (map aj_id js)" "\<And>x. aj_id (f x) = aj_id x"
  shows "update_running i f js = Inr (update_rows (\<lambda>x. aj_id x = i \<and> aj_status x = Running) f js)"
    "row_of i (update_rows (\<lambda>x. aj_id x = i \<and> aj_status x = Running) f js) = Some (f j)"
    "distinct (map aj_id (update_rows (\<lambda>x. aj_id x = i \<and> aj_status x = Running) f js))"
proof -
  have j: "j \<in> set js" "aj_id j = i" using select_first_Some [OF assms(1) [unfolded row_of_def]] by auto
  have "row_count (\<lambda>x. aj_id x = i \<and> aj_status x = Running) js \<noteq> 0"
    using j assms(2) by (auto simp: row_count_def filter_empty_conv)
  then show "update_running i f js = Inr (update_rows (\<lambda>x. aj_id x = i \<and> aj_status x = Running) f js)"
    by (simp add: update_running_def Let_def)
  show d: "distinct (map aj_id (update_rows (\<lambda>x. aj_id x = i \<and> aj_status x = Running) f js))"
    using assms(3,4) by (simp add: update_rows_map)
  have "f j \<in> set (update_rows (\<lambda>x. aj_id x = i \<and> aj_status x = Running) f js)"
    using j assms(2) by (intro update_rows_in) auto
  from select_key [OF d this] j(2) assms(4)
  show "row_of i (update_rows (\<lambda>x. aj_id x = i \<and> aj_status x = Running) f js) = Some (f j)" by (simp add: row_of_def)
qed

text \<open>What a run leaves behind: the row, its saved progress, and how it relates to the reference.\<close>

definition resumable ::
    "'c sealer \<Rightarrow> registry \<Rightarrow> condition_result \<Rightarrow> plan \<Rightarrow> string \<Rightarrow> nat \<Rightarrow> string \<Rightarrow> action_result list result
     \<Rightarrow> 'c auto_job list \<Rightarrow> action_result list option result \<Rightarrow> bool" where
  "resumable E reg trigger p jid off delay_done whole js r \<longleftrightarrow> distinct (map aj_id js) \<and>
     (\<exists>j g. row_of jid js = Some j \<and> saved_progress E j = Some g \<and> straight_from reg trigger p g = whole \<and>
        0 \<le> pg_next g \<and> pg_next g \<le> int (length (pl_stages p)) \<and>
        (case r of Inl e \<Rightarrow> whole = Inl e
         | Inr (Some results) \<Rightarrow> whole = Inr results \<and> aj_status j = Running
         | Inr None \<Rightarrow> aj_status j = Waiting \<and> aj_next j \<noteq> None \<and> off \<le> nat (pg_next g) \<and> nat (pg_next g) < length (pl_stages p) \<and>
             pg_delay_done g = st_id (ps_stage (pl_stages p ! nat (pg_next g))) \<and>
             (nat (pg_next g) = off \<longrightarrow> delay_done \<noteq> pg_delay_done g)))"

lemma resumable_later:
  "resumable E reg trigger p jid (Suc off) [] whole js r \<Longrightarrow> resumable E reg trigger p jid off d whole js r"
  by (auto simp: resumable_def split: sum.splits option.splits)

lemma loop_resumes:
  assumes E: "sealer_ok E" and jid: "jid \<noteq> []"
    and "distinct (map aj_id js)" "row_of jid js = Some j" "aj_status j = Running" "saved_progress E j = Some g"
    and "0 \<le> pg_next g" "pg_next g \<le> int (length (pl_stages p))"
    and "rest = drop off (pl_stages p)" "off \<le> length (pl_stages p)"
    and "\<forall>ps\<in>set rest. st_delay (ps_stage ps) \<le> automation_max_stage_delay"
    and "straight_from reg trigger p g = straight reg trigger off results ctx rest"
    and "pipeline_loop E now reg trigger jid (length (pl_stages p)) off delay_done results ctx rest js = (js', r)"
  shows "resumable E reg trigger p jid off delay_done (straight reg trigger off results ctx rest) js' r"
  using assms(3-)
proof (induction rest arbitrary: off delay_done results ctx js j g)
  case Nil
  then show ?case by (auto simp: resumable_def)
next
  case (Cons ps rest)
  note row = Cons.prems(1-4) and bounds = Cons.prems(5,6) and rest = Cons.prems(7,8) and delays = Cons.prems(9)
    and saved = Cons.prems(10) and run = Cons.prems(11)
  have off: "off < length (pl_stages p)" and at_off: "pl_stages p ! off = ps" and rest': "rest = drop (Suc off) (pl_stages p)"
    using rest(1) by (metis drop_eq_Nil2 list.distinct(1) not_le) (metis rest(1) nth_via_drop, metis rest(1) drop_Suc list.sel(3) tl_drop)
  let ?st = "ps_stage ps" and ?whole = "straight reg trigger off results ctx (ps # rest)"
  show ?case
  proof (cases "0 < off \<and> 0 < st_delay ?st \<and> delay_done \<noteq> st_id ?st")
    case True
    define g' where "g' = pipeline_progress off (st_id ?st) results ctx"
    define f where "f = (\<lambda>x :: 'a auto_job. x\<lparr>aj_status := Waiting, aj_next := Some (now + of_int (st_delay ?st)), aj_lease := None,
             aj_claimed := None, aj_attempts := 0, aj_progress := Some (seal_progress E g'), aj_error := None\<rparr>)"
    have fid: "aj_id (f x) = aj_id x" for x by (simp add: f_def)
    note upd = row_update [OF row(2,3,1) fid]
    have "1 \<le> st_delay ?st \<and> st_delay ?st \<le> automation_max_stage_delay" using True delays by auto
    then have "js' = update_rows (\<lambda>x. aj_id x = jid \<and> aj_status x = Running) f js" "r = Inr None"
      using run True jid upd(1) by (auto simp: defer_job_for_stage_def f_def g'_def Let_def)
    moreover have "saved_progress E (f j) = Some g'" using E by (simp add: saved_progress_def f_def sealer_ok_def)
    moreover have "straight_from reg trigger p g' = ?whole"
      using rest(1) by (simp add: straight_from_def g'_def pipeline_progress_def)
    ultimately show ?thesis
      using upd(2,3) off at_off True by (auto simp: resumable_def g'_def pipeline_progress_def f_def)
  next
    case False
    define rs where "rs = execute_stage reg trigger ctx (Suc off) ps"
    show ?thesis
    proof (cases "add_stage_context ctx ps rs")
      case (Inl e)
      have "js' = js" "r = Inl e" "?whole = Inl e"
        using run False Inl by (auto simp: rs_def Let_def split: if_splits)
      with row bounds saved show ?thesis by (auto simp: resumable_def)
    next
      case (Inr ctx')
      define go where "go = stage_should_continue (st_policy ?st) (map ar_status rs)"
      define g' where "g' = pipeline_progress (if go then Suc off else length (pl_stages p)) [] (results @ rs) ctx'"
      define f where "f = (\<lambda>x :: 'a auto_job. x\<lparr>aj_progress := Some (seal_progress E g')\<rparr>)"
      have fid: "aj_id (f x) = aj_id x" for x by (simp add: f_def)
      note upd = row_update [OF row(2,3,1) fid]
      define js1 where "js1 = update_rows (\<lambda>x. aj_id x = jid \<and> aj_status x = Running) f js"
      have run': "(if go then pipeline_loop E now reg trigger jid (length (pl_stages p)) (Suc off) [] (results @ rs) ctx' rest js1
          else (js1, Inr (Some (results @ rs)))) = (js', r)"
        using run False jid Inr upd(1) unfolding js1_def
        by (auto simp: rs_def [symmetric] go_def [symmetric] Let_def save_job_progress_def g'_def f_def split: if_splits)
      have whole: "?whole = (if go then straight reg trigger (Suc off) (results @ rs) ctx' rest else Inr (results @ rs))"
        using Inr by (simp add: rs_def [symmetric] go_def Let_def)
      have sf: "saved_progress E (f j) = Some g'" "aj_status (f j) = Running"
        using E row(3) by (simp_all add: saved_progress_def f_def sealer_ok_def)
      have gb: "0 \<le> pg_next g'" "pg_next g' \<le> int (length (pl_stages p))" using off by (auto simp: g'_def pipeline_progress_def)
      show ?thesis
      proof (cases go)
        case True
        have "straight_from reg trigger p g' = straight reg trigger (Suc off) (results @ rs) ctx' rest"
          using True rest' by (simp add: straight_from_def g'_def pipeline_progress_def nat_add_distrib)
        then have "resumable E reg trigger p jid (Suc off) [] (straight reg trigger (Suc off) (results @ rs) ctx' rest) js' r"
          using run' True upd(2,3) sf gb rest' off delays
          by (intro Cons.IH [of js1 "f j" g']) (auto simp: js1_def)
        then show ?thesis using whole True by (simp add: resumable_later)
      next
        case False
        have "straight_from reg trigger p g' = Inr (results @ rs)"
          using False by (simp add: straight_from_def g'_def pipeline_progress_def)
        then show ?thesis
          using run' False whole upd(2,3) sf gb by (auto simp: resumable_def js1_def)
      qed
    qed
  qed
qed

text \<open>
  C26: However far a run of a queued job gets, deferred at a delay, ended by an action result that
  cannot be recorded, or finished, the progress it leaves in the table continues to the very
  results of a run that goes straight through from where this one started: no stage is lost and none
  whose progress was saved runs again.  A finished run returns those results.
\<close>

theorem pipeline_resumes:
  assumes "sealer_ok E" "jid \<noteq> []" "distinct (map aj_id js)" "row_of jid js = Some j" "aj_status j = Running"
    and "saved_progress E j = Some g" "0 \<le> pg_next g" "pg_next g \<le> int (length (pl_stages p))"
    and "\<forall>ps\<in>set (pl_stages p). st_delay (ps_stage ps) \<le> automation_max_stage_delay"
    and "execute_pipeline E now reg trigger p g jid js = (js', r)"
  shows "resumable E reg trigger p jid (nat (pg_next g)) (pg_delay_done g) (straight_from reg trigger p g) js' r"
proof -
  have "pipeline_loop E now reg trigger jid (length (pl_stages p)) (nat (pg_next g)) (pg_delay_done g) (pg_results g) (pg_context g)
      (drop (nat (pg_next g)) (pl_stages p)) js = (js', r)"
    using assms(7,8,10) by (simp add: execute_pipeline_def Let_def)
  note run = this
  have within: "nat (pg_next g) \<le> length (pl_stages p)" using assms(8) by simp
  have delays: "\<forall>ps\<in>set (drop (nat (pg_next g)) (pl_stages p)). st_delay (ps_stage ps) \<le> automation_max_stage_delay"
    using assms(9) by (auto dest: in_set_dropD)
  show ?thesis
    unfolding straight_from_def [of reg trigger p g]
    by (rule loop_resumes [OF assms(1-8) refl within delays _ run]) (simp add: straight_from_def)
qed

section \<open>The pipeline ends\<close>

text \<open>
  The job driven to its end: whenever a run is deferred it is claimed again once its delay is over.
  At most \<open>k\<close> runs; \<open>None\<close> when they are not enough.
\<close>

fun drive ::
    "'c sealer \<Rightarrow> real \<Rightarrow> int \<Rightarrow> registry \<Rightarrow> condition_result \<Rightarrow> plan \<Rightarrow> string \<Rightarrow> nat \<Rightarrow> 'c auto_job list \<Rightarrow> action_result list result option" where
  "drive E now lease reg trigger p jid 0 js = None"
| "drive E now lease reg trigger p jid (Suc k) js =
     (case execute_pipeline E now reg trigger p (the (saved_progress E (the (row_of jid js)))) jid js of
        (js', Inl e) \<Rightarrow> Some (Inl e)
      | (js', Inr (Some results)) \<Rightarrow> Some (Inr results)
      | (js', Inr None) \<Rightarrow>
          let again = max now (the (aj_next (the (row_of jid js')))) in
          drive E again lease reg trigger p jid k (fst (claim_one again jid lease js')))"

lemma claim_waiting:
  assumes "distinct (map aj_id js)" "row_of i js = Some j" "aj_status j = Waiting" "aj_next j \<noteq> None"
    and "the (aj_next j) \<le> now"
  shows "row_of i (fst (claim_one now i lease js)) = Some (leased now lease j)"
    "distinct (map aj_id (fst (claim_one now i lease js)))"
proof -
  have j: "j \<in> set js" "aj_id j = i" using select_first_Some [OF assms(2) [unfolded row_of_def]] by auto
  have ready: "ready_at now j" using assms(3-5) by (auto simp: ready_at_def)
  let ?p = "\<lambda>x. aj_id x = i \<and> ready_at now x"
  have eq: "fst (claim_one now i lease js) = update_rows ?p (leased now lease) js"
    by (auto simp: claim_one_def Let_def row_count_def filter_empty_conv update_rows_none)
  show d: "distinct (map aj_id (fst (claim_one now i lease js)))" unfolding eq using assms(1) by (simp add: update_rows_map)
  have "leased now lease j \<in> set (fst (claim_one now i lease js))" unfolding eq using j ready by (intro update_rows_in) auto
  from select_key [OF d this] j(2) show "row_of i (fst (claim_one now i lease js)) = Some (leased now lease j)"
    by (simp add: row_of_def)
qed

definition runs_needed :: "plan \<Rightarrow> stage_progress \<Rightarrow> nat" where
  "runs_needed p g = (let off = nat (pg_next g); n = length (pl_stages p) in
     if off < n \<and> pg_delay_done g = st_id (ps_stage (pl_stages p ! off)) then n - off else n - off + 1)"

text \<open>
  C27: A queued pipeline ends: with one run more than it has stages left, claimed again after every
  delay, it reaches the result of a run that goes straight through.
\<close>

theorem pipeline_ends:
  assumes "sealer_ok E" "jid \<noteq> []" "distinct (map aj_id js)" "row_of jid js = Some j" "aj_status j = Running"
    and "saved_progress E j = Some g" "0 \<le> pg_next g" "pg_next g \<le> int (length (pl_stages p))"
    and "\<forall>ps\<in>set (pl_stages p). st_delay (ps_stage ps) \<le> automation_max_stage_delay"
    and "length (pl_stages p) - nat (pg_next g) < k"
  shows "drive E now lease reg trigger p jid k js = Some (straight_from reg trigger p g)"
proof -
  have "drive E now lease reg trigger p jid k js = Some (straight_from reg trigger p g)"
    if "distinct (map aj_id js)" "row_of jid js = Some j" "aj_status j = Running" "saved_progress E j = Some g"
      "0 \<le> pg_next g" "pg_next g \<le> int (length (pl_stages p))" "runs_needed p g \<le> k" "0 < k" for js j g k now
    using that
  proof (induction k arbitrary: js j g now)
    case 0
    then show ?case by simp
  next
    case (Suc k)
    obtain js' r where run: "execute_pipeline E now reg trigger p g jid js = (js', r)" by fastforce
    note res = pipeline_resumes [OF assms(1,2) Suc.prems(1-6) assms(9) run]
    from res obtain j' g' where row: "row_of jid js' = Some j'" "saved_progress E j' = Some g'"
      and whole: "straight_from reg trigger p g' = straight_from reg trigger p g"
      and bounds: "0 \<le> pg_next g'" "pg_next g' \<le> int (length (pl_stages p))" and d: "distinct (map aj_id js')"
      by (auto simp: resumable_def)
    have start: "the (saved_progress E (the (row_of jid js))) = g" using Suc.prems by simp
    show ?case
    proof (cases r)
      case (Inl e)
      with res run start show ?thesis by (auto simp: resumable_def)
    next
      case (Inr o_res)
      show ?thesis
      proof (cases o_res)
        case (Some results)
        with Inr res run start show ?thesis by (auto simp: resumable_def)
      next
        case None
        with Inr res row have st: "aj_status j' = Waiting" "aj_next j' \<noteq> None"
          and ahead: "nat (pg_next g) \<le> nat (pg_next g')" "nat (pg_next g') < length (pl_stages p)"
            "pg_delay_done g' = st_id (ps_stage (pl_stages p ! nat (pg_next g')))"
            "nat (pg_next g') = nat (pg_next g) \<longrightarrow> pg_delay_done g \<noteq> pg_delay_done g'"
          by (auto simp: resumable_def)
        define again where "again = max now (the (aj_next j'))"
        have claimed: "row_of jid (fst (claim_one again jid lease js')) = Some (leased again lease j')"
          "distinct (map aj_id (fst (claim_one again jid lease js')))"
          using claim_waiting [OF d row(1) st, of again] by (simp_all add: again_def)
        have need: "runs_needed p g' \<le> k" "0 < k"
          using Suc.prems(7) ahead by (auto simp: runs_needed_def Let_def split: if_splits)
        have "drive E again lease reg trigger p jid k (fst (claim_one again jid lease js')) = Some (straight_from reg trigger p g')"
          by (rule Suc.IH [OF claimed(2,1) _ _ bounds need]) (use row in \<open>simp_all add: leased_def saved_progress_def\<close>)
        with None Inr run start whole row show ?thesis by (simp add: again_def Let_def)
      qed
    qed
  qed
  moreover have "runs_needed p g \<le> k" "0 < k" using assms(10) by (auto simp: runs_needed_def Let_def)
  ultimately show ?thesis using assms(3-8) by blast
qed

section \<open>The worker window\<close>

lemma take_results_ok:
  assumes "\<forall>x\<in>set items. \<exists>y. f x = Inr y" "\<forall>i\<in>set idx. i < length items" "length results = length items"
  shows "\<exists>rs. take_results f items idx results = Inr rs \<and> length rs = length items \<and>
    (\<forall>i<length items. rs ! i = (if i \<in> set idx then Some (projr (f (items ! i))) else results ! i))"
  using assms(2,3)
proof (induction idx arbitrary: results)
  case Nil
  then show ?case by simp
next
  case (Cons i idx)
  from Cons.prems have i: "i < length items" by simp
  with assms(1) obtain y where y: "f (items ! i) = Inr y" by (metis nth_mem)
  from Cons.IH [of "results[i := Some y]"] Cons.prems obtain rs
    where rs: "take_results f items idx (results[i := Some y]) = Inr rs" "length rs = length items"
      "\<forall>k<length items. rs ! k = (if k \<in> set idx then Some (projr (f (items ! k))) else results[i := Some y] ! k)" by auto
  have "rs ! k = (if k \<in> set (i # idx) then Some (projr (f (items ! k))) else results ! k)" if "k < length items" for k
    using rs(3) that y i Cons.prems by (cases "k = i") auto
  with rs y show ?case by auto
qed

lemma fill_full:
  assumes "fill workers n pending nx = (pending', nx')" "0 < workers" "nx \<le> n" "length pending \<le> workers"
  shows "pending' = pending @ [nx..<nx']" "nx \<le> nx'" "nx' \<le> n" "length pending' \<le> workers" "pending' = [] \<longrightarrow> nx' = n"
  using assms by (auto simp: fill_def Let_def)

lemma window_loop_maps:
  assumes "0 < workers" "\<forall>k pending. pending \<noteq> [] \<longrightarrow> (\<exists>i\<in>set (done_of k pending). i \<in> set pending)"
    and ok: "\<forall>x\<in>set items. \<exists>y. f x = Inr y"
    and "set pending \<subseteq> {..<nx}" "nx \<le> length items" "length pending \<le> workers" "pending = [] \<longrightarrow> nx = length items"
    and "length results = length items" "\<forall>i<nx. i \<notin> set pending \<longrightarrow> results ! i = Some (projr (f (items ! i)))"
  shows "window_loop done_of workers f items k pending nx results = Some (Inr (map (\<lambda>x. Some (projr (f x))) items))"
  using assms(4-)
proof (induction "length items - nx + length pending" arbitrary: k pending nx results rule: less_induct)
  case less
  note subset = less.prems(1) and le = less.prems(2) and room = less.prems(3) and full = less.prems(4)
    and len = less.prems(5) and got = less.prems(6)
  show ?case
  proof (cases "pending = []")
    case True
    then have "results = map (\<lambda>x. Some (projr (f x))) items" using full len got by (intro nth_equalityI) auto
    with True show ?thesis by (simp add: window_loop.simps)
  next
    case False
    define finished where "finished = filter (\<lambda>i. i \<in> set pending) (done_of k pending)"
    define left where "left = filter (\<lambda>i. i \<notin> set finished) pending"
    have some: "finished \<noteq> []" using assms(2) False by (fastforce simp: finished_def filter_empty_conv)
    have fin: "set finished \<subseteq> set pending" by (auto simp: finished_def)
    then have "\<forall>i\<in>set finished. i < length items" using subset le by auto
    from take_results_ok [OF ok this len] obtain rs where rs: "take_results f items finished results = Inr rs" "length rs = length items"
      "\<forall>i<length items. rs ! i = (if i \<in> set finished then Some (projr (f (items ! i))) else results ! i)" by auto
    obtain pending' nx' where fill: "fill workers (length items) left nx = (pending', nx')" by fastforce
    have "length left \<le> length pending" by (simp add: left_def)
    then have "length left \<le> workers" using room by simp
    note f = fill_full [OF fill assms(1) le this]
    have "length items - nx' + length pending' < length items - nx + length pending"
      using window_less [OF finished_def left_def some fill [symmetric]] .
    moreover have "set pending' \<subseteq> {..<nx'}" using f(1,2) subset by (auto simp: left_def)
    moreover have "\<forall>i<nx'. i \<notin> set pending' \<longrightarrow> rs ! i = Some (projr (f (items ! i)))"
    proof (intro allI impI)
      fix i assume i: "i < nx'" "i \<notin> set pending'"
      then have "i < nx" "i \<notin> set left" using f(1) by auto
      then show "rs ! i = Some (projr (f (items ! i)))" using rs(3) got le by (auto simp: left_def)
    qed
    ultimately have "window_loop done_of workers f items (Suc k) pending' nx' rs = Some (Inr (map (\<lambda>x. Some (projr (f x))) items))"
      using f(3-5) rs(2) by (intro less.hyps)
    then show ?thesis
      using False some rs(1) fill
      by (simp add: window_loop.simps [of done_of workers f items k pending] finished_def [symmetric] left_def [symmetric] Let_def)
  qed
qed

text \<open>
  C28: In whatever order the calls in flight finish, the worker window returns the results of all
  items in the order of the items, as a sequential map would, provided that no call raises.
\<close>

theorem map_window_is_map:
  assumes "0 < workers" "\<forall>k pending. pending \<noteq> [] \<longrightarrow> (\<exists>i\<in>set (done_of k pending). i \<in> set pending)"
    and "\<forall>x\<in>set items. \<exists>y. f x = Inr y"
  shows "map_window done_of workers f items = Some (Inr (map (\<lambda>x. Some (projr (f x))) items))"
proof -
  obtain pending nx where fill: "fill workers (length items) [] 0 = (pending, nx)" by fastforce
  have "length [] \<le> workers" by simp
  note ff = fill_full [OF fill assms(1) le0 this]
  note f = ff(3-5)
  have p: "pending = [0..<nx]" using ff(1) by simp
  have "set pending \<subseteq> {..<nx}" using p by auto
  moreover have "\<forall>i<nx. i \<notin> set pending \<longrightarrow> replicate (length items) None ! i = Some (projr (f (items ! i)))" using p by auto
  ultimately have "window_loop done_of workers f items 0 pending nx (replicate (length items) None) = Some (Inr (map (\<lambda>x. Some (projr (f x))) items))"
    using f by (intro window_loop_maps [OF assms]) (assumption | simp only: length_replicate)+
  then show ?thesis by (simp add: map_window_def fill)
qed

end
