(* ===== verification/Automation_Witnesses.thy ===== *)
theory Automation_Witnesses
  imports Stage_Facts Trigger_Facts Pipeline_Facts
begin

text \<open>The properties of the automation theories at concrete inputs.\<close>

text \<open>A sealer that marks its content instead of encrypting it.\<close>

datatype demo_secret = SConfig "(string \<times> json) list" | SPlan plan | SProgress stage_progress

definition demo_sealer :: "demo_secret sealer" where
  "demo_sealer = \<lparr>seal_config = SConfig, open_config = (\<lambda>c. case c of SConfig x \<Rightarrow> Some x | _ \<Rightarrow> None),
     seal_plan = SPlan, open_plan = (\<lambda>c. case c of SPlan x \<Rightarrow> Some x | _ \<Rightarrow> None),
     seal_progress = SProgress, open_progress = (\<lambda>c. case c of SProgress x \<Rightarrow> Some x | _ \<Rightarrow> None)\<rparr>"

lemma demo_sealer_ok: "sealer_ok demo_sealer"
  by (simp add: sealer_ok_def demo_sealer_def)

definition demo_result :: "bool \<Rightarrow> condition_result" where
  "demo_result met = \<lparr>cr_met = met, cr_status = ''met'', cr_summary = ''probe'', cr_evidence = plain_evidence []\<rparr>"

definition demo_stage :: "string \<Rightarrow> int \<Rightarrow> stage" where
  "demo_stage i delay = \<lparr>st_id = i, st_name = i, st_policy = ''all_completed'', st_delay = delay, st_actions = [''x'']\<rparr>"

definition demo_action :: plan_action where
  "demo_action = \<lparr>pa_id = ''x'', pa_name = ''Mail'', pa_type = ''mail'', pa_config = []\<rparr>"

definition demo_plan :: plan where
  "demo_plan = \<lparr>pl_id = ''a'', pl_name = ''Watch'', pl_stages =
     [\<lparr>ps_stage = demo_stage ''s1'' 0, ps_actions = [demo_action]\<rparr>, \<lparr>ps_stage = demo_stage ''s2'' 60, ps_actions = [demo_action]\<rparr>]\<rparr>"

definition demo_job :: "demo_secret auto_job" where
  "demo_job = new_job ''j'' ''a'' 0 0 (demo_result True) (SPlan demo_plan)"

definition demo_registry :: registry where
  "demo_registry t = (if t = ''mail'' then Some (\<lambda>c n trg. Inr \<lparr>ar_status = ''success'', ar_summary = ''sent'', ar_output = []\<rparr>) else None)"





definition demo_automation :: automation where
  "demo_automation = \<lparr>au_id = ''a'', au_name = ''Watch'', au_enabled = True, au_interval = 60, au_trigger_after = 2,
     au_recover_after = 1, au_cooldown = 5, au_condition_type = ''ping'', au_condition_config = [], au_condition_id = ''c'', au_condition_ids = [''c''],
     au_operator = ''all'', au_action_ids = [''x''], au_stages = [demo_stage ''s1'' 0], au_state = AHealthy, au_met = 0, au_clear = 0,
     au_next = None, au_pending = None, au_last_check = None, au_last_triggered = None, au_last_summary = [], au_last_error = None,
     au_created_by = ''admin'', au_created = 0, au_updated = 0\<rparr>"




theorem map_window_is_map_witness:
  "map_window (\<lambda>k pending. [last pending]) 2 (\<lambda>n. Inr (Suc n) :: unit + nat) [1, 2, 3] = Some (Inr [Some 2, Some 3, Some 4])"
  using map_window_is_map [of 2 "\<lambda>k pending. [last pending]" "[1, 2, 3]" "\<lambda>n. Inr (Suc n) :: unit + nat"] by simp

theorem normalized_stages_stable_witness:
  "stages_ok [demo_stage ''s1'' 0] \<and> normalize_action_stages (map raw_of_stage [demo_stage ''s1'' 0]) [] = Inr [demo_stage ''s1'' 0]"
proof -
  have "normalize_action_stages [\<lparr>rs_id = '' s1'', rs_name = ''s1'', rs_policy = ''all_completed'', rs_delay = Some 30, rs_actions = [''x '', '' '']\<rparr>] []
      = Inr [demo_stage ''s1'' 0]" by code_simp
  from normalized_stages_stable [OF this, of "[]"] show ?thesis .
qed

lemma demo_auto_running:
  "distinct (map aj_id [leased 1 300 demo_job])" "row_of ''j'' [leased 1 300 demo_job] = Some (leased 1 300 demo_job)"
  "aj_status (leased 1 300 demo_job) = Running" "saved_progress demo_sealer (leased 1 300 demo_job) = Some no_progress"
  by (simp_all add: row_of_def select_first_def leased_def demo_job_def new_job_def saved_progress_def)

lemma demo_plan_bounds:
  "0 \<le> pg_next no_progress" "pg_next no_progress \<le> int (length (pl_stages demo_plan))"
  "\<forall>ps\<in>set (pl_stages demo_plan). st_delay (ps_stage ps) \<le> automation_max_stage_delay"
  by (simp_all add: no_progress_def demo_plan_def demo_stage_def automation_max_stage_delay_def)

theorem pipeline_resumes_witness:
  "resumable demo_sealer demo_registry (demo_result True) demo_plan ''j'' 0 [] (straight_from demo_registry (demo_result True) demo_plan no_progress)
     (fst (execute_pipeline demo_sealer 2 demo_registry (demo_result True) demo_plan no_progress ''j'' [leased 1 300 demo_job]))
     (snd (execute_pipeline demo_sealer 2 demo_registry (demo_result True) demo_plan no_progress ''j'' [leased 1 300 demo_job]))"
  using pipeline_resumes [OF demo_sealer_ok _ demo_auto_running demo_plan_bounds prod.collapse [symmetric]]
  by (simp add: no_progress_def)

theorem pipeline_ends_witness:
  "drive demo_sealer 2 300 demo_registry (demo_result True) demo_plan ''j'' 3 [leased 1 300 demo_job]
     = Some (straight_from demo_registry (demo_result True) demo_plan no_progress)"
  by (rule pipeline_ends [OF demo_sealer_ok _ demo_auto_running demo_plan_bounds])
    (simp_all add: no_progress_def demo_plan_def)

section \<open>Stores\<close>

definition demo_auto_store :: "demo_secret auto_store" where
  "demo_auto_store = empty_auto_store\<lparr>as_automations := [demo_automation\<lparr>au_trigger_after := 1\<rparr>],
     as_conditions := [\<lparr>cd_id = ''c'', cd_name = ''Boot'', cd_type = ''system.startup'', cd_config = [], cd_created = 0, cd_updated = 0\<rparr>],
     as_actions := [\<lparr>ad_id = ''x'', ad_name = ''Mail'', ad_type = ''mail'', ad_config = SConfig [], ad_created = 0, ad_updated = 0\<rparr>],
     as_events := [\<lparr>es_automation = ''a'', es_source = ''system.startup'', es_key = ''boot-1'', es_occurred = 5, es_updated = 5\<rparr>]\<rparr>"

lemma demo_stages: "normalize_action_stages [raw_of_stage (demo_stage ''s1'' 0)] [''x''] = Inr [demo_stage ''s1'' 0]"
  by code_simp

lemma demo_lookup:
  "find_automation demo_auto_store ''a'' = Some (demo_automation\<lparr>au_trigger_after := 1\<rparr>)"
  "get_action_definition demo_auto_store ''x'' = Some \<lparr>ad_id = ''x'', ad_name = ''Mail'', ad_type = ''mail'', ad_config = SConfig [], ad_created = 0, ad_updated = 0\<rparr>"
  "get_condition_definition demo_auto_store ''c'' = Some \<lparr>cd_id = ''c'', cd_name = ''Boot'', cd_type = ''system.startup'', cd_config = [], cd_created = 0, cd_updated = 0\<rparr>"
  "as_jobs demo_auto_store = []" "as_automations demo_auto_store = [demo_automation\<lparr>au_trigger_after := 1\<rparr>]"
  by (simp_all add: demo_auto_store_def find_automation_def get_action_definition_def get_condition_definition_def select_first_def
      demo_automation_def empty_auto_store_def)

lemma demo_plan_stage: "\<exists>ps. plan_stage_of [(''x'', a)] (demo_stage ''s1'' 0) = Inr ps"
  by (simp add: plan_stage_of_def demo_stage_def)

lemma demo_queue:
  obtains J where "\<And>i r t u. enqueue_execution_job demo_sealer i (demo_automation\<lparr>au_trigger_after := 1\<rparr>) r t u demo_auto_store
    = Inr (demo_auto_store\<lparr>as_jobs := J i r t u\<rparr>, i)"
proof -
  let ?a = "demo_automation\<lparr>au_trigger_after := 1\<rparr>"
  have ids: "au_action_ids demo_automation = [''x'']" "au_stages demo_automation = [demo_stage ''s1'' 0]"
    by (simp_all add: demo_automation_def)
  obtain ps where ps: "plan_stage_of [(''x'', \<lparr>pa_id = ''x'', pa_name = ''Mail'', pa_type = ''mail'', pa_config = []\<rparr>)] (demo_stage ''s1'' 0) = Inr ps"
    using demo_plan_stage by blast
  have "execution_plan_from_row demo_sealer demo_auto_store ?a = Inr \<lparr>pl_id = au_id ?a, pl_name = au_name ?a, pl_stages = [ps]\<rparr>"
    by (simp add: execution_plan_from_row_def ids plan_action_of_def demo_lookup demo_stages decrypted_def demo_sealer_def ps)
  then have "enqueue_execution_job demo_sealer i ?a r t u demo_auto_store = Inr (demo_auto_store\<lparr>as_jobs :=
      [new_job i (au_id ?a) t u r (seal_plan demo_sealer \<lparr>pl_id = au_id ?a, pl_name = au_name ?a, pl_stages = [ps]\<rparr>)]\<rparr>, i)" for i r t u
    by (simp add: enqueue_execution_job_def insert_job_def demo_lookup)
  then show thesis by (rule that)
qed

theorem record_condition_outcome_witness:
  "\<exists>s'. record_condition demo_sealer 100 ''j1'' ''a'' (demo_result True) None None demo_auto_store = (s', Inr True) \<and>
     map aj_id (as_jobs s') = [''j1''] \<and> length (as_checks s') = 1"
proof -
  obtain s' res where run: "record_condition demo_sealer 100 ''j1'' ''a'' (demo_result True) None None demo_auto_store = (s', res)"
    by fastforce
  have d: "distinct (map au_id (as_automations demo_auto_store))" by (simp add: demo_lookup)
  have fire: "tc_fire (count_condition (demo_automation\<lparr>au_trigger_after := 1\<rparr>) 100 (cr_met (demo_result True)))"
    by (simp add: count_condition_def demo_automation_def demo_result_def cooldown_ready_def)
  obtain J where J: "\<And>i r t u. enqueue_execution_job demo_sealer i (demo_automation\<lparr>au_trigger_after := 1\<rparr>) r t u demo_auto_store
    = Inr (demo_auto_store\<lparr>as_jobs := J i r t u\<rparr>, i)" using demo_queue by blast
  have "res = Inr True"
    using run fire J by (simp add: record_condition_def demo_lookup(1) Let_def transact_def del: One_nat_def)
  with record_condition_outcome [OF demo_lookup(1) d run] fire run show ?thesis
    by (auto simp: demo_lookup) (simp add: demo_auto_store_def empty_auto_store_def)
qed




end
