(* ===== verification/Calendar.thy ===== *)
theory Calendar
  imports Main
begin

text \<open>
  The proleptic Gregorian calendar of Python's \<open>datetime\<close> and \<open>calendar\<close>, as far as the schedules use
  it.  A date is its ordinal: day 1 is the first of January of year 1, a Monday.  The bounds of
  Python's years (1 to 9999) are not modelled.
\<close>

section \<open>Years and months\<close>

definition leap_year :: "int \<Rightarrow> bool" where
  "leap_year y \<longleftrightarrow> y mod 4 = 0 \<and> (y mod 100 \<noteq> 0 \<or> y mod 400 = 0)"

text \<open>\<open>calendar.monthrange(year, month)[1]\<close>.\<close>

definition month_days :: "int \<Rightarrow> int \<Rightarrow> int" where
  "month_days y m = (if m = 2 then (if leap_year y then 29 else 28) else if m \<in> {4, 6, 9, 11} then 30 else 31)"

definition days_before_year :: "int \<Rightarrow> int" where
  "days_before_year y = (y - 1) * 365 + (y - 1) div 4 - (y - 1) div 100 + (y - 1) div 400"

definition days_before_month :: "int \<Rightarrow> int \<Rightarrow> int" where
  "days_before_month y m = sum_list (map (month_days y) [1..m - 1])"

text \<open>\<open>date(year, month, day).toordinal()\<close> and \<open>date.weekday()\<close>, Monday being 0.\<close>

definition ordinal :: "int \<Rightarrow> int \<Rightarrow> int \<Rightarrow> int" where
  "ordinal y m d = days_before_year y + days_before_month y m + d"

definition weekday :: "int \<Rightarrow> int" where
  "weekday n = (n + 6) mod 7"

text \<open>\<open>date.fromordinal(n).year\<close> and \<open>.month\<close>.\<close>

definition year_of :: "int \<Rightarrow> int" where
  "year_of n =
     (let n0 = n - 1; n400 = n0 div 146097; r400 = n0 mod 146097; n100 = r400 div 36524; r100 = r400 mod 36524;
          n4 = r100 div 1461; r4 = r100 mod 1461; n1 = r4 div 365;
          year = n400 * 400 + 1 + n100 * 100 + n4 * 4 + n1
      in if n1 = 4 \<or> n100 = 4 then year - 1 else year)"

definition month_of :: "int \<Rightarrow> int" where
  "month_of n = (let y = year_of n in last (filter (\<lambda>m. ordinal y m 1 \<le> n) [1..12]))"

text \<open>The step of the monthly loops: \<open>(year + 1, 1) if month == 12 else (year, month + 1)\<close>.\<close>

fun next_month :: "int \<times> int \<Rightarrow> int \<times> int" where
  "next_month (y, m) = (if m = 12 then (y + 1, 1) else (y, m + 1))"

section \<open>Facts\<close>

text \<open>Months are numbered through: month \<open>m\<close> of year \<open>y\<close> has index \<open>12 * y + m - 1\<close>.\<close>

definition month_year :: "int \<Rightarrow> int \<times> int" where
  "month_year k = (k div 12, k mod 12 + 1)"

definition month_first :: "int \<Rightarrow> int" where
  "month_first k = ordinal (k div 12) (k mod 12 + 1) 1"

definition month_length :: "int \<Rightarrow> int" where
  "month_length k = month_days (k div 12) (k mod 12 + 1)"

lemma upto_numeral_simps: "[1..(0::int)] = []" "[1..(1::int)] = [1]"
  by simp_all

lemma days_before_month_table:
  "days_before_month y 1 = 0" "days_before_month y 2 = 31"
  "days_before_month y 3 = (if leap_year y then 60 else 59)"
  "days_before_month y 4 = (if leap_year y then 91 else 90)"
  "days_before_month y 5 = (if leap_year y then 121 else 120)"
  "days_before_month y 6 = (if leap_year y then 152 else 151)"
  "days_before_month y 7 = (if leap_year y then 182 else 181)"
  "days_before_month y 8 = (if leap_year y then 213 else 212)"
  "days_before_month y 9 = (if leap_year y then 244 else 243)"
  "days_before_month y 10 = (if leap_year y then 274 else 273)"
  "days_before_month y 11 = (if leap_year y then 305 else 304)"
  "days_before_month y 12 = (if leap_year y then 335 else 334)"
  by (simp_all add: days_before_month_def month_days_def upto_rec1)

lemma div_step:
  fixes y n :: int
  assumes "0 < n"
  shows "y div n = (y - 1) div n + (if n dvd y then 1 else 0)"
proof -
  define q r where "q = (y - 1) div n" and "r = (y - 1) mod n"
  have y: "y = n * q + (r + 1)" by (simp add: q_def r_def mult_div_mod_eq)
  have r: "0 \<le> r" "r < n" using assms by (simp_all add: r_def)
  show ?thesis
  proof (cases "r + 1 = n")
    case True
    then have "y = n * (q + 1)" using y by (simp add: algebra_simps)
    then have "y div n = q + 1" "n dvd y"
      using assms by (metis nonzero_mult_div_cancel_left less_irrefl) (metis \<open>y = n * (q + 1)\<close> dvd_triv_left)
    then show ?thesis by (simp add: q_def)
  next
    case False
    then have "\<not> n dvd r + 1" using r by (simp add: zdvd_not_zless)
    then have "\<not> n dvd y" using y by (simp add: dvd_add_right_iff)
    moreover have "y div n = q" by (rule int_div_pos_eq [of y n q "r + 1"]) (use y r False in auto)
    ultimately show ?thesis by (simp add: q_def)
  qed
qed

lemma year_length: "days_before_year (y + 1) = days_before_year y + (if leap_year y then 366 else 365)"
proof -
  have c: "400 dvd y \<Longrightarrow> 100 dvd y" by (rule dvd_trans [of 100 400 y]) simp_all
  have d: "100 dvd y \<Longrightarrow> 4 dvd y" by (rule dvd_trans [of 4 100 y]) simp_all
  show ?thesis
    unfolding days_before_year_def leap_year_def mod_eq_0_iff_dvd add_diff_cancel_right'
      div_step [of 4 y, simplified] div_step [of 100 y, simplified] div_step [of 400 y, simplified]
    using c d by (cases "4 dvd y"; cases "100 dvd y"; cases "400 dvd y") simp_all
qed

lemma month_first_Suc: "month_first (k + 1) = month_first k + month_length k"
proof -
  define y m where "y = k div 12" and "m = k mod 12"
  have k: "k = 12 * y + m" "0 \<le> m" "m \<le> 11" by (simp_all add: y_def m_def)
  have succ: "(k + 1) div 12 = (if m = 11 then y + 1 else y)" "(k + 1) mod 12 = (if m = 11 then 0 else m + 1)"
  proof -
    show "(k + 1) div 12 = (if m = 11 then y + 1 else y)"
      using k int_div_pos_eq [of "k + 1" 12 "y + 1" 0] int_div_pos_eq [of "k + 1" 12 y "m + 1"] by simp
    show "(k + 1) mod 12 = (if m = 11 then 0 else m + 1)"
      using k int_mod_pos_eq [of "k + 1" 12 "y + 1" 0] int_mod_pos_eq [of "k + 1" 12 y "m + 1"] by simp
  qed
  have "m = 0 \<or> m = 1 \<or> m = 2 \<or> m = 3 \<or> m = 4 \<or> m = 5 \<or> m = 6 \<or> m = 7 \<or> m = 8 \<or> m = 9 \<or> m = 10 \<or> m = 11"
    using k(2,3) by presburger
  then show ?thesis
    using year_length [of y]
    by (auto simp: month_first_def month_length_def succ ordinal_def days_before_month_table month_days_def
        simp flip: y_def m_def)
qed

lemma month_length_bounds: "28 \<le> month_length k" "month_length k \<le> 31"
  by (simp_all add: month_length_def month_days_def)

lemma month_first_add: "month_first k + 28 * int n \<le> month_first (k + int n)"
proof (induction n)
  case 0
  then show ?case by simp
next
  case (Suc n)
  then show ?case
    using month_first_Suc [of "k + int n"] month_length_bounds(1) [of "k + int n"] by (simp add: algebra_simps)
qed

lemma month_first_mono: "k \<le> l \<Longrightarrow> month_first k \<le> month_first l"
  using month_first_add [of k "nat (l - k)"] by simp

lemma month_first_less: "k < l \<Longrightarrow> month_first k + month_length k \<le> month_first l"
  using month_first_mono [of "k + 1" l] month_first_Suc [of k] by simp

lemma year_first: "month_first (12 * y) = days_before_year y + 1"
  by (simp add: month_first_def ordinal_def days_before_month_table)

text \<open>Every date lies in the month that \<open>year_of\<close> and \<open>month_of\<close> name.\<close>

lemma year_of_bounds: "days_before_year (year_of n) < n" "n \<le> days_before_year (year_of n + 1)"
proof -
  define n0 where "n0 = n - 1"
  define a where "a = n0 div 146097"
  define r where "r = n0 mod 146097"
  define b where "b = r div 36524"
  define s where "s = r mod 36524"
  define c where "c = s div 1461"
  define t where "t = s mod 1461"
  define d where "d = t div 365"
  define e where "e = t mod 365"
  have n0: "n = 146097 * a + r + 1" "0 \<le> r" "r < 146097" by (simp_all add: n0_def a_def r_def)
  have r: "r = 36524 * b + s" "0 \<le> s" "s < 36524" by (simp_all add: b_def s_def)
  have s: "s = 1461 * c + t" "0 \<le> t" "t < 1461" by (simp_all add: c_def t_def)
  have t: "t = 365 * d + e" "0 \<le> e" "e < 365" by (simp_all add: d_def e_def)
  have b: "0 \<le> b" "b \<le> 4" using n0 r by linarith+
  have c: "0 \<le> c" "c \<le> 24" using r s by linarith+
  have d: "0 \<le> d" "d \<le> 4" using s t by linarith+
  have y: "year_of n = (if d = 4 \<or> b = 4 then a * 400 + b * 100 + c * 4 + d else a * 400 + 1 + b * 100 + c * 4 + d)"
    by (simp add: year_of_def Let_def a_def b_def c_def d_def r_def s_def t_def n0_def)
  have n: "n = 146097 * a + 36524 * b + 1461 * c + 365 * d + e + 1" using n0 r s t by simp
  have "days_before_year (year_of n) < n \<and> n \<le> days_before_year (year_of n + 1)"
  proof -
    have 4: "d = 4 \<Longrightarrow> e = 0" using s t by linarith
    have b4: "b = 4 \<Longrightarrow> s = 0" using n0 r by linarith
    then have b4': "b = 4 \<Longrightarrow> c = 0 \<and> d = 0 \<and> e = 0" using s t c d by linarith
    have c24: "c = 24 \<Longrightarrow> d \<le> 3" using r s t by linarith
    define g where "g = year_of n - 1"
    have g: "g = (if d = 4 \<or> b = 4 then a * 400 + b * 100 + c * 4 + d - 1 else a * 400 + b * 100 + c * 4 + d)"
      using y by (simp add: g_def)
    have years: "days_before_year (year_of n) = g * 365 + g div 4 - g div 100 + g div 400"
      "days_before_year (year_of n + 1) = (g + 1) * 365 + (g + 1) div 4 - (g + 1) div 100 + (g + 1) div 400"
      by (simp_all add: days_before_year_def g_def)
    consider "b = 4" | "b \<le> 3" "d = 4" "c \<le> 23" | "b \<le> 3" "d \<le> 3"
      using b d c c24 by linarith
    then show ?thesis
    proof cases
      case 1
      then have cde: "c = 0" "d = 0" "e = 0" using b4' by simp_all
      have "g = 400 * a + 399" using g 1 cde by simp
      then have q: "g div 4 = 100 * a + 99" "g div 100 = 4 * a + 3" "g div 400 = a"
        "(g + 1) div 4 = 100 * a + 100" "(g + 1) div 100 = 4 * a + 4" "(g + 1) div 400 = a + 1"
        by (simp_all add: int_div_pos_eq [of _ 4 "100 * a + 99" 3] int_div_pos_eq [of _ 100 "4 * a + 3" 99]
          int_div_pos_eq [of _ 400 a 399] int_div_pos_eq [of _ 4 "100 * a + 100" 0]
          int_div_pos_eq [of _ 100 "4 * a + 4" 0] int_div_pos_eq [of _ 400 "a + 1" 0])
      show ?thesis
        using \<open>g = 400 * a + 399\<close> n 1 cde unfolding years q by simp
    next
      case 2
      have e: "e = 0" using 4 2 by simp
      have gg: "g = 400 * a + 100 * b + 4 * c + 3" using g 2 by simp
      then have q: "g div 4 = 100 * a + 25 * b + c" "(g + 1) div 4 = 100 * a + 25 * b + c + 1"
        by (simp_all add: int_div_pos_eq [of _ 4 "100 * a + 25 * b + c" 3] int_div_pos_eq [of _ 4 "100 * a + 25 * b + c + 1" 0])
      have r4: "0 \<le> 4 * c + 3" "4 * c + 4 < 100" using 2 c by linarith+
      have q1: "g div 100 = 4 * a + b" "(g + 1) div 100 = 4 * a + b"
        using gg r4 by (simp_all add: int_div_pos_eq [of _ 100 "4 * a + b" "4 * c + 3"] int_div_pos_eq [of _ 100 "4 * a + b" "4 * c + 4"])
      have r5: "0 \<le> 100 * b + 4 * c + 3" "100 * b + 4 * c + 4 < 400" using 2 c b by linarith+
      have q2: "g div 400 = a" "(g + 1) div 400 = a"
        using gg r5 by (simp_all add: int_div_pos_eq [of _ 400 a "100 * b + 4 * c + 3"] int_div_pos_eq [of _ 400 a "100 * b + 4 * c + 4"])
      show ?thesis
        using n 2 e gg unfolding years q q1 q2 by simp
    next
      case 3
      have gg: "g = 400 * a + 100 * b + 4 * c + d" using g 3 by simp
      have q: "g div 4 = 100 * a + 25 * b + c" using gg 3 d by (simp add: int_div_pos_eq [of _ 4 _ d])
      have r4: "0 \<le> 4 * c + d" "4 * c + d < 100" using 3 c d by linarith+
      have q1: "g div 100 = 4 * a + b" using gg r4 by (simp add: int_div_pos_eq [of _ 100 _ "4 * c + d"])
      have r5: "0 \<le> 100 * b + 4 * c + d" "100 * b + 4 * c + d < 400" using 3 c b d by linarith+
      have q2: "g div 400 = a" using gg r5 by (simp add: int_div_pos_eq [of _ 400 _ "100 * b + 4 * c + d"])
      have "days_before_year (year_of n) < n"
        using n t gg unfolding years q q1 q2 by simp
      moreover have "days_before_year (year_of n + 1) \<ge> days_before_year (year_of n) + 365"
        using year_length [of "year_of n"] by simp
      then have "n \<le> days_before_year (year_of n + 1)"
        using n t gg unfolding years(1) q q1 q2 by simp
      ultimately show ?thesis by simp
    qed
  qed
  then show "days_before_year (year_of n) < n" "n \<le> days_before_year (year_of n + 1)" by simp_all
qed

definition month_index :: "int \<Rightarrow> int" where
  "month_index n = 12 * year_of n + month_of n - 1"

lemma month_year_index: "1 \<le> m \<Longrightarrow> m \<le> 12 \<Longrightarrow> month_year (12 * y + m - 1) = (y, m)"
  using int_div_pos_eq [of "12 * y + m - 1" 12 y "m - 1"] int_mod_pos_eq [of "12 * y + m - 1" 12 y "m - 1"]
  by (simp add: month_year_def)

lemma ordinal_first: "1 \<le> m \<Longrightarrow> m \<le> 12 \<Longrightarrow> ordinal y m d = month_first (12 * y + m - 1) + (d - 1)"
  using month_year_index [of m y] by (simp add: month_first_def month_year_def ordinal_def)

lemma length_first: "1 \<le> m \<Longrightarrow> m \<le> 12 \<Longrightarrow> month_length (12 * y + m - 1) = month_days y m"
  using month_year_index [of m y] by (simp add: month_length_def month_year_def)

lemma last_is_greatest: "sorted xs \<Longrightarrow> x \<in> set xs \<Longrightarrow> x \<le> last (xs :: int list)"
  by (induction xs) (auto split: if_splits)

lemma month_of_bounds: "1 \<le> month_of n" "month_of n \<le> 12"
  and month_index_holds: "month_first (month_index n) \<le> n" "n < month_first (month_index n) + month_length (month_index n)"
proof -
  define y where "y = year_of n"
  define F where "F = filter (\<lambda>m. ordinal y m 1 \<le> n) [1..12]"
  have m: "month_of n = last F" by (simp add: month_of_def F_def y_def Let_def)
  have lo: "month_first (12 * y) \<le> n" and hi: "n < month_first (12 * (y + 1))"
    using year_of_bounds [of n] unfolding year_first y_def by simp_all
  have F: "m \<in> set F \<longleftrightarrow> 1 \<le> m \<and> m \<le> 12 \<and> month_first (12 * y + m - 1) \<le> n" for m
    using ordinal_first [of m y 1] by (auto simp: F_def)
  have one: "1 \<in> set F" using F [of 1] lo by simp
  then have "F \<noteq> []" by auto
  then have inF: "month_of n \<in> set F" using m by simp
  then show b: "1 \<le> month_of n" "month_of n \<le> 12" using F by simp_all
  have idx: "month_index n = 12 * y + month_of n - 1" by (simp add: month_index_def y_def)
  show "month_first (month_index n) \<le> n" using inF F idx by simp
  have "n < month_first (month_index n + 1)"
  proof (cases "month_of n = 12")
    case True
    then show ?thesis using hi idx by (simp add: algebra_simps)
  next
    case False
    have "sorted F" by (simp add: F_def sorted_wrt_filter)
    then have "month_of n + 1 \<notin> set F" using last_is_greatest m by fastforce
    then show ?thesis using F [of "month_of n + 1"] b False idx by simp
  qed
  then show "n < month_first (month_index n) + month_length (month_index n)"
    by (simp add: month_first_Suc)
qed

lemma month_index_unique:
  assumes "month_first k \<le> n" "n < month_first k + month_length k"
  shows "month_index n = k"
proof (rule ccontr)
  assume "month_index n \<noteq> k"
  then consider "month_index n < k" | "k < month_index n" by linarith
  then show False
    using month_first_less [of "month_index n" k] month_first_less [of k "month_index n"] month_index_holds [of n] assms
    by cases simp_all
qed

lemma year_month_of: "(year_of n, month_of n) = month_year (month_index n)"
  using month_year_index [OF month_of_bounds [of n], of "year_of n"] by (simp add: month_index_def)

lemma next_month_index: "next_month (month_year k) = month_year (k + 1)"
proof -
  have k: "k = 12 * (k div 12) + k mod 12" "0 \<le> k mod 12" "k mod 12 < 12" by simp_all
  show ?thesis
    using int_div_pos_eq [of "k + 1" 12 "k div 12 + 1" 0] int_div_pos_eq [of "k + 1" 12 "k div 12" "k mod 12 + 1"]
      int_mod_pos_eq [of "k + 1" 12 "k div 12 + 1" 0] int_mod_pos_eq [of "k + 1" 12 "k div 12" "k mod 12 + 1"] k
    by (cases "k mod 12 = 11") (simp_all add: month_year_def)
qed

text \<open>Twelve months are at least a year.\<close>

lemma twelve_months: "month_first k + 365 \<le> month_first (k + 12)"
proof -
  define y m where "y = k div 12" and "m = k mod 12"
  have k: "k = 12 * y + m" "0 \<le> m" "m \<le> 11" by (simp_all add: y_def m_def)
  have "m = 0 \<or> m = 1 \<or> m = 2 \<or> m = 3 \<or> m = 4 \<or> m = 5 \<or> m = 6 \<or> m = 7 \<or> m = 8 \<or> m = 9 \<or> m = 10 \<or> m = 11"
    using k(2,3) by presburger
  then have table: "days_before_month y (m + 1) \<le> days_before_month (y + 1) (m + 1) + (if leap_year y then 1 else 0)"
    by (auto simp: days_before_month_table)
  have "month_first k = ordinal y (m + 1) 1" "month_first (k + 12) = ordinal (y + 1) (m + 1) 1"
    using ordinal_first [of "m + 1" y 1] ordinal_first [of "m + 1" "y + 1" 1] k by (simp_all add: algebra_simps)
  then show ?thesis using table year_length [of y] by (simp add: ordinal_def split: if_splits)
qed

end
