(* ===== verification/Schedule.thy ===== *)
theory Schedule
  imports Calendar Automation_Pipeline
begin

text \<open>
  \<open>schedule_tools.py\<close>: the rules of a calendar schedule, how they are validated, when each occurs
  next, and whether an occurrence that is late still fires.

  A local date and time is the number of microseconds since the start of day 0 on the wall clock;
  an instant is the same number on the UTC clock.  A time zone is a parameter: the offset it has at
  an instant, the offset it gives to a wall time read with \<open>fold=0\<close>, and its abbreviation (\<open>%Z\<close>).  \<open>zones\<close> looks a zone up by
  name and is \<open>None\<close> where \<open>ZoneInfo\<close> raises.  What \<open>fromisoformat\<close> accepts depends on the version of
  Python and is the parameter \<open>iso_reader\<close>; the normalised rule holds the date and the time themselves,
  which the code writes as text and reads back.
\<close>

section \<open>Clocks\<close>

record zone =
  zn_name :: string
  zn_offset :: "int \<Rightarrow> int"
  zn_wall_offset :: "int \<Rightarrow> int"
  zn_abbreviation :: "int \<Rightarrow> string"

record iso_reader =
  iso_date :: "string \<Rightarrow> int option"
  iso_time :: "string \<Rightarrow> (nat \<times> nat) option"

definition minute_us :: int where "minute_us = 60000000"
definition day_us :: int where "day_us = 86400000000"

text \<open>\<open>1970-01-01\<close> is day 719163; timestamps count seconds from it.\<close>

definition epoch_us :: int where "epoch_us = 719163 * day_us"

text \<open>\<open>fromtimestamp\<close> rounds to the nearest microsecond, half to even.\<close>

definition round_half_even :: "real \<Rightarrow> int" where
  "round_half_even x = (let f = \<lfloor>x\<rfloor> in
     if x - of_int f < 1 / 2 then f else if 1 / 2 < x - of_int f then f + 1 else if even f then f else f + 1)"

definition instant_of :: "real \<Rightarrow> int" where
  "instant_of t = epoch_us + round_half_even (t * 1000000)"

definition timestamp_of :: "int \<Rightarrow> real" where
  "timestamp_of u = of_int (u - epoch_us) / 1000000"

text \<open>\<open>datetime.combine(date, time)\<close> and the wall time of an instant.\<close>

definition wall_time :: "int \<Rightarrow> nat \<Rightarrow> nat \<Rightarrow> int" where
  "wall_time d hour minute = d * day_us + (60 * int hour + int minute) * minute_us"

definition wall_at :: "zone \<Rightarrow> int \<Rightarrow> int" where
  "wall_at z u = u + zn_offset z u"

text \<open>
  \<open>_resolve_local\<close>: the instant at which a wall time is read first; a wall time inside a gap moves
  on to the next minute that exists.
\<close>

definition reading_of :: "zone \<Rightarrow> int \<Rightarrow> int option" where
  "reading_of z w = (let u = w - zn_wall_offset z w in if wall_at z u = w then Some u else None)"

fun resolve_from :: "zone \<Rightarrow> int \<Rightarrow> nat \<Rightarrow> int result" where
  "resolve_from z w 0 = Inl (ValueError ''Could not resolve a daylight-saving schedule time.'')"
| "resolve_from z w (Suc n) = (case reading_of z w of Some u \<Rightarrow> Inr u | None \<Rightarrow> resolve_from z (w + minute_us) n)"

definition resolve_local :: "zone \<Rightarrow> int \<Rightarrow> int result" where
  "resolve_local z w = resolve_from z w 181"

section \<open>Rules\<close>

datatype rule_when =
    Once int
  | Daily
  | Weekly "int list"
  | Interval_weeks int int
  | Monthly_date int
  | Monthly_weekday int int

record sched_rule =
  ru_id :: string
  ru_hour :: nat
  ru_minute :: nat
  ru_when :: rule_when

record schedule =
  sd_zone :: zone
  sd_policy :: string
  sd_grace :: int
  sd_rules :: "sched_rule list"

definition rule_types :: "string list" where
  "rule_types = [''once'', ''daily'', ''weekly'', ''interval_weeks'', ''monthly_date'', ''monthly_weekday'']"

text \<open>\<open>str.isalnum()\<close> on characters below 256.\<close>

definition py_alnum_char :: "char \<Rightarrow> bool" where
  "py_alnum_char c = (let n = (of_char c :: nat) in
     (48 \<le> n \<and> n \<le> 57) \<or> (65 \<le> n \<and> n \<le> 90) \<or> (97 \<le> n \<and> n \<le> 122) \<or> n \<in> {170, 178, 179, 181, 185, 186, 188, 189, 190}
     \<or> (192 \<le> n \<and> n \<noteq> 215 \<and> n \<noteq> 247))"

definition rule_id_ok :: "string \<Rightarrow> bool" where
  "rule_id_ok i \<longleftrightarrow> (let core = filter (\<lambda>c. c \<noteq> CHR ''-'' \<and> c \<noteq> CHR ''_'') i
     in core \<noteq> [] \<and> list_all py_alnum_char core) \<and> length i \<le> 64"

definition get_or :: "(string \<times> json) list \<Rightarrow> string \<Rightarrow> json \<Rightarrow> json" where
  "get_or kvs k d = (case map_of kvs k of None \<Rightarrow> d | Some v \<Rightarrow> v)"

definition rule_error :: "nat \<Rightarrow> string \<Rightarrow> py_error" where
  "rule_error index what = ValueError (''Schedule rule '' @ show_nat index @ what)"

definition validate_time :: "iso_reader \<Rightarrow> json \<Rightarrow> nat \<Rightarrow> (nat \<times> nat) result" where
  "validate_time rd v index = (case iso_time rd (py_str v) of
     None \<Rightarrow> Inl (rule_error index '' needs a valid time.'') | Some hm \<Rightarrow> Inr hm)"

definition validate_date :: "iso_reader \<Rightarrow> json \<Rightarrow> nat \<Rightarrow> int result" where
  "validate_date rd v index = (case iso_date rd (py_str v) of
     None \<Rightarrow> Inl (rule_error index '' needs a valid date.'') | Some d \<Rightarrow> Inr d)"

definition integer_list :: "json \<Rightarrow> int \<Rightarrow> int \<Rightarrow> string \<Rightarrow> int list result" where
  "integer_list v minimum maximum label = (case v of
     JList js \<Rightarrow> (let parsed = map json_int js in
        if None \<in> set parsed then Inl (ValueError (''Invalid '' @ label @ ''.''))
        else let values = map the parsed in
          if list_ex (\<lambda>n. n < minimum \<or> maximum < n) values then Inl (ValueError (''Invalid '' @ label @ ''.''))
          else Inr values)
   | _ \<Rightarrow> Inl (ValueError (''Invalid '' @ label @ ''.'')))"

definition validate_when :: "iso_reader \<Rightarrow> nat \<Rightarrow> string \<Rightarrow> (string \<times> json) list \<Rightarrow> rule_when result" where
  "validate_when rd index rule_type raw =
     (if rule_type = ''once'' then bindE (validate_date rd (get_or raw ''date'' (JStr [])) index) (\<lambda>d. Inr (Once d))
      else if rule_type = ''weekly'' then
        bindE (integer_list (get_or raw ''weekdays'' (JList [])) 0 6 (''rule '' @ show_nat index @ '' weekdays'')) (\<lambda>weekdays.
          if weekdays = [] then Inl (rule_error index '' needs at least one weekday.'')
          else Inr (Weekly (sort (remdups weekdays))))
      else if rule_type = ''interval_weeks'' then
        (case json_int (get_or raw ''interval'' (JInt 2)) of
           None \<Rightarrow> Inl (rule_error index '' interval must be a whole number.'')
         | Some interval \<Rightarrow>
             if \<not> (1 \<le> interval \<and> interval \<le> 52) then Inl (rule_error index '' interval must be 1-52 weeks.'')
             else bindE (validate_date rd (get_or raw ''anchor_date'' (JStr [])) index) (\<lambda>d. Inr (Interval_weeks interval d)))
      else if rule_type = ''monthly_date'' then
        (case json_int (get_or raw ''day'' (JInt 1)) of
           None \<Rightarrow> Inl (rule_error index '' day must be a whole number.'')
         | Some day \<Rightarrow> if \<not> (1 \<le> day \<and> day \<le> 31) then Inl (rule_error index '' day must be 1-31.'')
             else Inr (Monthly_date day))
      else if rule_type = ''monthly_weekday'' then
        (case (json_int (get_or raw ''ordinal'' (JInt 1)), json_int (get_or raw ''weekday'' (JInt 0))) of
           (Some ordi, Some day) \<Rightarrow>
             if ordi \<notin> {1, 2, 3, 4, 5, -1} \<or> \<not> (0 \<le> day \<and> day \<le> 6)
             then Inl (rule_error index '' monthly weekday is invalid.'') else Inr (Monthly_weekday ordi day)
         | _ \<Rightarrow> Inl (rule_error index '' monthly values are invalid.''))
      else Inr Daily)"

text \<open>\<open>fresh\<close> is the text of \<open>secrets.token_hex(6)\<close> for this rule.\<close>

definition validate_rule :: "iso_reader \<Rightarrow> string \<Rightarrow> json \<Rightarrow> nat \<Rightarrow> sched_rule result" where
  "validate_rule rd fresh raw index = (case raw of
     JObj kvs \<Rightarrow>
       (let rule_type = py_str (get_or kvs ''type'' (JStr []));
            given = py_strip (py_str (get_or kvs ''id'' (JStr [])));
            rule_id = (if given = [] then fresh else given) in
        if rule_type \<notin> set rule_types then Inl (rule_error index '' has an unknown type.'')
        else if \<not> rule_id_ok rule_id then Inl (rule_error index '' has an invalid identifier.'')
        else bindE (validate_time rd (get_or kvs ''time'' (JStr [])) index) (\<lambda>(hour, minute).
          bindE (validate_when rd index rule_type kvs) (\<lambda>w.
            Inr \<lparr>ru_id = rule_id, ru_hour = hour, ru_minute = minute, ru_when = w\<rparr>)))
   | _ \<Rightarrow> Inl (rule_error index '' is invalid.''))"

fun validate_rules :: "iso_reader \<Rightarrow> (nat \<Rightarrow> string) \<Rightarrow> nat \<Rightarrow> json list \<Rightarrow> sched_rule list result" where
  "validate_rules rd fresh index [] = Inr []"
| "validate_rules rd fresh index (raw # raws) = bindE (validate_rule rd (fresh index) raw index) (\<lambda>r.
     bindE (validate_rules rd fresh (Suc index) raws) (\<lambda>rs. Inr (r # rs)))"

text \<open>The environment of the schedules: the zone database, the zone of the host and the ISO readers.\<close>

record sched_env =
  se_zones :: "string \<Rightarrow> zone option"
  se_local :: string
  se_iso :: iso_reader
  se_fresh :: "nat \<Rightarrow> string"

definition validate_schedule_config :: "sched_env \<Rightarrow> (string \<times> json) list \<Rightarrow> schedule result" where
  "validate_schedule_config env config =
     (let given = py_strip (py_str (get_or config ''timezone'' (JStr [])));
          timezone_name = (if given = [] then se_local env else given);
          missed_policy = py_str (get_or config ''missed_policy'' (JStr ''grace'')) in
      case se_zones env timezone_name of
        None \<Rightarrow> Inl (ValueError (''Unknown schedule timezone: '' @ timezone_name))
      | Some z \<Rightarrow>
          if missed_policy \<notin> {''run_late'', ''grace'', ''skip''} then Inl (ValueError ''Select a valid missed-run policy.'')
          else (case json_int (get_or config ''grace_minutes'' (JInt 30)) of
            None \<Rightarrow> Inl (ValueError ''Schedule grace period must be a whole number.'')
          | Some grace_minutes \<Rightarrow>
              if \<not> (1 \<le> grace_minutes \<and> grace_minutes \<le> 1440)
                then Inl (ValueError ''Schedule grace period must be between 1 and 1440 minutes.'')
              else (case get_or config ''rules'' (JList []) of
                JList (raw # raws) \<Rightarrow>
                  if 50 < length (raw # raws) then Inl (ValueError ''A schedule condition can contain at most 50 rules.'')
                  else bindE (validate_rules (se_iso env) (se_fresh env) 1 (raw # raws)) (\<lambda>rules.
                    if \<not> distinct (map ru_id rules) then Inl (ValueError ''Schedule rule identifiers must be unique.'')
                    else Inr \<lparr>sd_zone = z, sd_policy = missed_policy, sd_grace = grace_minutes, sd_rules = rules\<rparr>)
              | _ \<Rightarrow> Inl (ValueError ''Add at least one schedule rule.''))))"

section \<open>The next occurrence of a rule\<close>

text \<open>The loops try candidates in order and take the first one after the given instant.\<close>

fun first_after :: "zone \<Rightarrow> int \<Rightarrow> int list \<Rightarrow> int option result" where
  "first_after z after [] = Inr None"
| "first_after z after (w # ws) =
     bindE (resolve_local z w) (\<lambda>u. if after < u then Inr (Some u) else first_after z after ws)"

definition monthly_weekday_day :: "int \<Rightarrow> int \<Rightarrow> int \<Rightarrow> int \<Rightarrow> int option" where
  "monthly_weekday_day year month day ordi =
     (let days = filter (\<lambda>d. weekday (ordinal year month d) = day) [1..month_days year month] in
      if ordi = -1 then Some (last days)
      else if ordi \<le> int (length days) then Some (days ! nat (ordi - 1)) else None)"

definition monthly_day :: "rule_when \<Rightarrow> int \<Rightarrow> int \<Rightarrow> int option" where
  "monthly_day w year month = (case w of
     Monthly_date day \<Rightarrow> if day \<le> month_days year month then Some day else None
   | Monthly_weekday ordi day \<Rightarrow> monthly_weekday_day year month day ordi
   | _ \<Rightarrow> None)"

fun months_from :: "nat \<Rightarrow> int \<times> int \<Rightarrow> (int \<times> int) list" where
  "months_from 0 ym = []"
| "months_from (Suc n) ym = ym # months_from n (next_month ym)"

definition month_dates :: "rule_when \<Rightarrow> int \<times> int \<Rightarrow> int list" where
  "month_dates w ym = (case ym of (y, m) \<Rightarrow>
     (case monthly_day w y m of None \<Rightarrow> [] | Some d \<Rightarrow> [ordinal y m d]))"

text \<open>The dates each loop visits; \<open>today\<close> is the local date of the instant.\<close>

definition rule_dates :: "rule_when \<Rightarrow> int \<Rightarrow> int list" where
  "rule_dates w today = (case w of
     Once d \<Rightarrow> [d]
   | Daily \<Rightarrow> [today..today + 2]
   | Weekly weekdays \<Rightarrow> filter (\<lambda>d. weekday d \<in> set weekdays) [today..today + 14]
   | Interval_weeks interval anchor \<Rightarrow>
       (let start = max anchor today in
        filter (\<lambda>d. \<not> (d < anchor \<or> (d - anchor) mod (interval * 7) \<noteq> 0)) [start..start + interval * 7 + 7])
   | _ \<Rightarrow> concat (map (month_dates w) (months_from 36 (year_of today, month_of today))))"

definition next_rule_occurrence :: "zone \<Rightarrow> int \<Rightarrow> sched_rule \<Rightarrow> int option result" where
  "next_rule_occurrence z after r =
     (let today = wall_at z after div day_us
      in first_after z after (map (\<lambda>d. wall_time d (ru_hour r) (ru_minute r)) (rule_dates (ru_when r) today)))"

section \<open>The text of a rule\<close>

definition pad2 :: "nat \<Rightarrow> string" where
  "pad2 n = (if n < 10 then ''0'' else []) @ show_nat n"

definition pad4 :: "nat \<Rightarrow> string" where
  "pad4 n = replicate (4 - length (show_nat n)) (CHR ''0'') @ show_nat n"

definition iso_text :: "int \<Rightarrow> string" where
  "iso_text n = (let y = year_of n; m = month_of n; d = n - ordinal y m 1 + 1
     in pad4 (nat y) @ ''-'' @ pad2 (nat m) @ ''-'' @ pad2 (nat d))"

text \<open>\<open>strftime("%-I:%M %p")\<close>.\<close>

definition display_time :: "nat \<Rightarrow> nat \<Rightarrow> string" where
  "display_time hour minute =
     show_nat (if hour mod 12 = 0 then 12 else hour mod 12) @ '':'' @ pad2 minute @ (if hour < 12 then '' AM'' else '' PM'')"

definition weekday_names :: "string list" where
  "weekday_names = [''Monday'', ''Tuesday'', ''Wednesday'', ''Thursday'', ''Friday'', ''Saturday'', ''Sunday'']"

definition ordinal_names :: "(int \<times> string) list" where
  "ordinal_names = [(1, ''first''), (2, ''second''), (3, ''third''), (4, ''fourth''), (5, ''fifth''), (-1, ''last'')]"

definition describe_schedule_rule :: "sched_rule \<Rightarrow> string" where
  "describe_schedule_rule r = (let at_text = display_time (ru_hour r) (ru_minute r) in
     case ru_when r of
       Once d \<Rightarrow> ''Once on '' @ iso_text d @ '' at '' @ at_text
     | Daily \<Rightarrow> ''Every day at '' @ at_text
     | Weekly weekdays \<Rightarrow> ''Every '' @ join_with '', '' (map (\<lambda>i. weekday_names ! nat i) weekdays) @ '' at '' @ at_text
     | Interval_weeks interval anchor \<Rightarrow> ''Every '' @ show_int interval @ '' weeks on '' @ weekday_names ! nat (weekday anchor)
         @ '' at '' @ at_text @ '', starting '' @ iso_text anchor
     | Monthly_date day \<Rightarrow> ''Day '' @ show_int day @ '' of every month at '' @ at_text
     | Monthly_weekday ordi day \<Rightarrow> ''The '' @ the (map_of ordinal_names ordi) @ '' '' @ weekday_names ! nat day
         @ '' of every month at '' @ at_text)"

section \<open>Occurrences of a schedule\<close>

text \<open>\<open>datetime.isoformat()\<close> of a wall time with its offset, and \<open>strftime("%Y-%m-%d %I:%M %p %Z")\<close>.\<close>

definition pad6 :: "nat \<Rightarrow> string" where
  "pad6 n = replicate (6 - length (show_nat n)) (CHR ''0'') @ show_nat n"

definition clock_text :: "int \<Rightarrow> string" where
  "clock_text us = (let t = nat us; s = t div 1000000; frac = t mod 1000000
     in pad2 (s div 3600) @ '':'' @ pad2 (s div 60 mod 60) @ '':'' @ pad2 (s mod 60) @ (if frac = 0 then [] else ''.'' @ pad6 frac))"

definition offset_text :: "int \<Rightarrow> string" where
  "offset_text off = (let t = nat \<bar>off\<bar>; s = t div 1000000; frac = t mod 1000000
     in (if off < 0 then ''-'' else ''+'') @ pad2 (s div 3600) @ '':'' @ pad2 (s div 60 mod 60)
        @ (if s mod 60 = 0 \<and> frac = 0 then [] else '':'' @ pad2 (s mod 60)) @ (if frac = 0 then [] else ''.'' @ pad6 frac))"

definition isoformat :: "int \<Rightarrow> int \<Rightarrow> string" where
  "isoformat w off = iso_text (w div day_us) @ ''T'' @ clock_text (w mod day_us) @ offset_text off"

definition display_text :: "zone \<Rightarrow> int \<Rightarrow> string" where
  "display_text z u = (let w = wall_at z u; minutes = nat (w mod day_us div minute_us); hour = minutes div 60
     in iso_text (w div day_us) @ '' '' @ pad2 (if hour mod 12 = 0 then 12 else hour mod 12) @ '':'' @ pad2 (minutes mod 60)
        @ (if hour < 12 then '' AM '' else '' PM '') @ zn_abbreviation z u)"

record occurrence =
  oc_timestamp :: real
  oc_utc :: string
  oc_local :: string
  oc_display :: string
  oc_timezone :: string
  oc_rule_ids :: "string list"
  oc_rules :: "string list"

definition schedule_occurrence :: "sched_env \<Rightarrow> (string \<times> json) list \<Rightarrow> real \<Rightarrow> occurrence option result" where
  "schedule_occurrence env config after_timestamp =
     bindE (validate_schedule_config env config) (\<lambda>normalized.
     bindE (collect (next_rule_occurrence (sd_zone normalized) (instant_of after_timestamp)) (sd_rules normalized)) (\<lambda>nexts.
       let candidates = filter (\<lambda>(o', r). o' \<noteq> None) (zip nexts (sd_rules normalized)) in
       if candidates = [] then Inr None
       else let scheduled = min_list (map (\<lambda>(o', r). the o') candidates);
                matching = map snd (filter (\<lambda>(o', r). the o' = scheduled) candidates)
         in Inr (Some \<lparr>oc_timestamp = timestamp_of scheduled, oc_utc = isoformat scheduled 0,
              oc_local = isoformat (wall_at (sd_zone normalized) scheduled) (zn_offset (sd_zone normalized) scheduled),
              oc_display = display_text (sd_zone normalized) scheduled, oc_timezone = zn_name (sd_zone normalized),
              oc_rule_ids = map ru_id matching, oc_rules = map describe_schedule_rule matching\<rparr>)))"

fun preview_loop :: "sched_env \<Rightarrow> (string \<times> json) list \<Rightarrow> nat \<Rightarrow> real \<Rightarrow> occurrence list result" where
  "preview_loop env config 0 cursor = Inr []"
| "preview_loop env config (Suc n) cursor = bindE (schedule_occurrence env config cursor) (\<lambda>found. case found of
       None \<Rightarrow> Inr []
     | Some oc \<Rightarrow> bindE (preview_loop env config n (oc_timestamp oc + 1 / 1000)) (\<lambda>ocs. Inr (oc # ocs)))"

definition schedule_preview :: "sched_env \<Rightarrow> (string \<times> json) list \<Rightarrow> real \<Rightarrow> int \<Rightarrow> occurrence list result" where
  "schedule_preview env config after_timestamp limit =
     preview_loop env config (nat (max 0 (min limit 20))) after_timestamp"

definition schedule_should_fire :: "sched_env \<Rightarrow> (string \<times> json) list \<Rightarrow> real \<Rightarrow> real \<Rightarrow> bool result" where
  "schedule_should_fire env config scheduled_at now =
     bindE (validate_schedule_config env config) (\<lambda>normalized.
       let lateness = max 0 (now - scheduled_at) in
       if sd_policy normalized = ''run_late'' then Inr True
       else if sd_policy normalized = ''skip'' then Inr (lateness \<le> 60)
       else Inr (lateness \<le> of_int (sd_grace normalized * 60)))"

end
