(* ===== verification/Automation_Schedule.thy ===== *)
theory Automation_Schedule
  imports Automation_Events Schedule
begin

text \<open>
  Calendar schedules of \<open>AutomationStore\<close>: enabling an automation (\<open>set_enabled\<close>) and recording an
  occurrence of a claimed one (\<open>record_schedule_occurrence\<close>), with the branch of
  \<open>process_automation\<close> that drives it.  \<open>env\<close> is the environment of the schedules, \<open>ft\<close> the text of a
  float in JSON.  What \<open>get\<close> reads back after the transaction is left out: the engine drops it.
\<close>

section \<open>Enabling\<close>

text \<open>\<open>row["definition_config"] or row["condition_config"]\<close>, and the same for the type.\<close>

definition effective_config :: "'c auto_store \<Rightarrow> automation \<Rightarrow> (string \<times> json) list" where
  "effective_config s a = (case get_condition_definition s (au_condition_id a) of
     Some c \<Rightarrow> cd_config c | None \<Rightarrow> au_condition_config a)"

record enabling =
  eb_enabled :: bool
  eb_state :: auto_state
  eb_next :: "real option"

definition enabled_row :: "real \<Rightarrow> enabling \<Rightarrow> automation \<Rightarrow> automation" where
  "enabled_row now b a = a\<lparr>au_enabled := eb_enabled b, au_state := eb_state b, au_met := 0, au_clear := 0,
     au_next := eb_next b, au_pending := None, au_updated := now\<rparr>"

definition enabling_of :: "sched_env \<Rightarrow> real \<Rightarrow> bool \<Rightarrow> 'c auto_store \<Rightarrow> automation \<Rightarrow> enabling result" where
  "enabling_of env now enabled s a =
     (if \<not> enabled then Inr \<lparr>eb_enabled = False, eb_state = ADisabled, eb_next = None\<rparr>
      else if effective_type s a = ''schedule.calendar'' then
        bindE (schedule_occurrence env (effective_config s a) (now - 1 / 1000)) (\<lambda>found.
          Inr \<lparr>eb_enabled = found \<noteq> None, eb_state = (if found = None then ACompleted else AScheduled),
            eb_next = map_option oc_timestamp found\<rparr>)
      else if effective_type s a = ''system.startup'' then Inr \<lparr>eb_enabled = True, eb_state = AArmed, eb_next = None\<rparr>
      else Inr \<lparr>eb_enabled = True, eb_state = AHealthy, eb_next = Some now\<rparr>)"

text \<open>A startup automation remembers the event that is current when it is armed.\<close>

definition armed_event :: "real \<Rightarrow> startup_identity \<Rightarrow> bool \<Rightarrow> automation \<Rightarrow> 'c auto_store \<Rightarrow> 'c auto_store result" where
  "armed_event now identity enabled a s =
     (if enabled \<and> effective_type s a = ''system.startup'' then
        bindE (validate_startup (effective_config s a)) (\<lambda>config.
          let e = startup_event identity (sc_mode config) in
          Inr (put_event \<lparr>es_automation = au_id a, es_source = ''system.startup'', es_key = ev_key e,
            es_occurred = ev_occurred e, es_updated = now\<rparr> s))
      else Inr s)"

definition set_enabled ::
    "sched_env \<Rightarrow> startup_identity \<Rightarrow> real \<Rightarrow> string \<Rightarrow> bool \<Rightarrow> 'c auto_store \<Rightarrow> 'c auto_store \<times> unit result" where
  "set_enabled env identity now i enabled s =
     (case find_automation s i of None \<Rightarrow> raiseS s (ValueError ''Automation not found.'') | Some a \<Rightarrow>
      transact s (bindE (enabling_of env now enabled s a) (\<lambda>b.
        bindE (armed_event now identity enabled a s) (\<lambda>s1.
          Inr (set_automations (\<lambda>x. au_id x = i) (enabled_row now b) s1, ())))))"

section \<open>Recording an occurrence\<close>

text \<open>\<open>row["pending_schedule_at"] or row["next_check_at"]\<close>; a pending time of zero counts as absent.\<close>

definition awaited :: "automation \<Rightarrow> real option" where
  "awaited a = (case au_pending a of Some p \<Rightarrow> if p \<noteq> 0 then Some p else au_next a | None \<Rightarrow> au_next a)"

definition occurrence_json :: "(real \<Rightarrow> string) \<Rightarrow> occurrence \<Rightarrow> json" where
  "occurrence_json ft oc = JObj [(''timestamp'', JFloat (ft (oc_timestamp oc))), (''scheduled_utc'', JStr (oc_utc oc)),
     (''scheduled_local'', JStr (oc_local oc)), (''display'', JStr (oc_display oc)), (''timezone'', JStr (oc_timezone oc)),
     (''rule_ids'', JList (map JStr (oc_rule_ids oc))), (''rules'', JList (map JStr (oc_rules oc)))]"

definition late_seconds :: "real \<Rightarrow> real \<Rightarrow> int" where
  "late_seconds now scheduled_at = max 0 \<lfloor>now - scheduled_at\<rfloor>"

definition occurrence_summary :: "bool \<Rightarrow> int \<Rightarrow> occurrence \<Rightarrow> string" where
  "occurrence_summary fire late oc = (let matched = join_with ''; '' (oc_rules oc) in
     if fire then ''Calendar occurrence: '' @ matched @ ''.''
     else ''Skipped missed calendar occurrence ('' @ show_int late @ ''s late): '' @ matched @ ''.'')"

definition occurrence_result :: "(real \<Rightarrow> string) \<Rightarrow> bool \<Rightarrow> real \<Rightarrow> real \<Rightarrow> occurrence \<Rightarrow> condition_result" where
  "occurrence_result ft fire scheduled_at now oc = (let late = late_seconds now scheduled_at in
     evaluation_result \<lparr>cr_met = fire, cr_status = (if fire then ''scheduled'' else ''skipped''),
       cr_summary = occurrence_summary fire late oc,
       cr_evidence = plain_evidence [(''trigger'', JStr ''schedule''), (''occurrence'', occurrence_json ft oc),
         (''lateness_seconds'', JInt late)]\<rparr> ''schedule'' ''schedule.calendar'' now)"

definition next_cursor :: "real \<Rightarrow> real \<Rightarrow> real" where
  "next_cursor now scheduled_at = (if 60 < now - scheduled_at then now else scheduled_at)"

definition occurred_row :: "real \<Rightarrow> occurrence option \<Rightarrow> string \<Rightarrow> bool \<Rightarrow> automation \<Rightarrow> automation" where
  "occurred_row now following summary fire a = a\<lparr>au_enabled := following \<noteq> None,
     au_state := (if following = None then ACompleted else AScheduled), au_next := map_option oc_timestamp following,
     au_pending := None, au_last_check := Some now, au_last_summary := summary, au_last_error := None,
     au_last_triggered := (if fire then Some now else au_last_triggered a), au_met := 0, au_clear := 0, au_updated := now\<rparr>"

definition record_schedule_occurrence ::
    "'c sealer \<Rightarrow> sched_env \<Rightarrow> (real \<Rightarrow> string) \<Rightarrow> real \<Rightarrow> string \<Rightarrow> string \<Rightarrow> 'c auto_store \<Rightarrow> 'c auto_store \<times> bool result" where
  "record_schedule_occurrence E env ft now fresh i s =
     (case find_automation s i of
        None \<Rightarrow> raiseS s (ValueError ''Scheduled automation is not awaiting an occurrence.'')
      | Some a \<Rightarrow>
     (case get_condition_definition s (au_condition_id a) of
        None \<Rightarrow> raiseS s (ValueError ''Scheduled automation is not awaiting an occurrence.'')
      | Some c \<Rightarrow>
        if cd_type c \<noteq> ''schedule.calendar'' \<or> (au_pending a = None \<and> au_next a = None)
        then raiseS s (ValueError ''Scheduled automation is not awaiting an occurrence.'')
        else (case awaited a of None \<Rightarrow> raiseS s TypeError | Some scheduled_at \<Rightarrow>
          transact s
            (bindE (schedule_occurrence env (cd_config c) (scheduled_at - 1 / 1000)) (\<lambda>found.
             bindE (schedule_should_fire env (cd_config c) scheduled_at now) (\<lambda>fire.
             case found of None \<Rightarrow> Inl (ValueError ''Scheduled occurrence could not be resolved.'') | Some oc \<Rightarrow>
             let res = occurrence_result ft fire scheduled_at now oc in
             bindE (if fire then enqueue_execution_job E fresh a res scheduled_at now s else Inr (s, fresh)) (\<lambda>(s1, _).
             bindE (schedule_occurrence env (cd_config c) (next_cursor now scheduled_at + 1 / 1000)) (\<lambda>following.
               Inr (add_check \<lparr>ck_automation = i, ck_at = now, ck_met = fire, ck_status = cr_status res,
                   ck_summary = cr_summary res, ck_evidence = cr_evidence res\<rparr>
                 (set_automations (\<lambda>b. au_id b = i) (occurred_row now following (cr_summary res) fire) s1), fire)))))))))"

text \<open>
  The schedule branch of \<open>process_automation\<close>: an exception is recorded and stops the schedule;
  \<open>name\<close> is the text of the exception.
\<close>

definition process_scheduled ::
    "'c sealer \<Rightarrow> sched_env \<Rightarrow> (real \<Rightarrow> string) \<Rightarrow> (py_error \<Rightarrow> string) \<Rightarrow> real \<Rightarrow> string \<Rightarrow> string \<Rightarrow> 'c auto_store \<Rightarrow> 'c auto_store \<times> unit result" where
  "process_scheduled E env ft name now fresh i s =
     (case record_schedule_occurrence E env ft now fresh i s of
        (s', Inr _) \<Rightarrow> (s', Inr ())
      | (s', Inl e) \<Rightarrow> (case record_error now i (name e) s' of Inl e' \<Rightarrow> (s', Inl e') | Inr s'' \<Rightarrow> (s'', Inr ())))"

end
