(* ===== verification/Schedule_Facts.thy ===== *)
theory Schedule_Facts
  imports Schedule
begin

text \<open>
  The next occurrence of a schedule is exact: it is the earliest instant after the given one at
  which some rule occurs, where a rule occurs on the dates its declarative reading names.  What is
  assumed of the time zone is \<open>civil_zone\<close>: its offsets lie within twenty hours of each other, a wall
  time is read at its first instant (PEP 495, \<open>fold=0\<close>), and a minute the clock has passed was either
  shown by then or lies in a gap of at most three hours that has ended by then.
\<close>

section \<open>What the rules mean\<close>

definition day_of_month :: "int \<Rightarrow> int" where
  "day_of_month d = d - month_first (month_index d) + 1"

definition rule_day :: "rule_when \<Rightarrow> int \<Rightarrow> bool" where
  "rule_day w d = (case w of
     Once d0 \<Rightarrow> d = d0
   | Daily \<Rightarrow> True
   | Weekly weekdays \<Rightarrow> weekday d \<in> set weekdays
   | Interval_weeks interval anchor \<Rightarrow> anchor \<le> d \<and> 7 * interval dvd d - anchor
   | Monthly_date day \<Rightarrow> day_of_month d = day
   | Monthly_weekday ordi day \<Rightarrow> weekday d = day \<and>
       (if ordi = -1 then month_index (d + 7) \<noteq> month_index d else (day_of_month d - 1) div 7 + 1 = ordi))"

definition rule_ok :: "sched_rule \<Rightarrow> bool" where
  "rule_ok r \<longleftrightarrow> ru_hour r < 24 \<and> ru_minute r < 60 \<and> (case ru_when r of
     Weekly weekdays \<Rightarrow> weekdays \<noteq> [] \<and> set weekdays \<subseteq> {0..6}
   | Interval_weeks interval anchor \<Rightarrow> 1 \<le> interval
   | Monthly_date day \<Rightarrow> 1 \<le> day \<and> day \<le> 31
   | Monthly_weekday ordi day \<Rightarrow> ordi \<in> {1, 2, 3, 4, 5, -1} \<and> 0 \<le> day \<and> day \<le> 6
   | _ \<Rightarrow> True)"

definition occurs_at :: "zone \<Rightarrow> sched_rule \<Rightarrow> int \<Rightarrow> bool" where
  "occurs_at z r u \<longleftrightarrow> (\<exists>d. rule_day (ru_when r) d \<and> resolve_local z (wall_time d (ru_hour r) (ru_minute r)) = Inr u)"

definition earliest :: "int set \<Rightarrow> int option \<Rightarrow> bool" where
  "earliest S x = (case x of None \<Rightarrow> S = {} | Some u \<Rightarrow> u \<in> S \<and> (\<forall>v\<in>S. u \<le> v))"

section \<open>The wall clock\<close>

definition civil_zone :: "zone \<Rightarrow> bool" where
  "civil_zone z \<longleftrightarrow>
     (\<exists>lo. \<forall>u. lo \<le> zn_offset z u \<and> zn_offset z u \<le> lo + 1200 * minute_us)
   \<and> (\<forall>u w. wall_at z u = w \<longrightarrow> w - zn_wall_offset z w \<le> u \<and> wall_at z (w - zn_wall_offset z w) = w)
   \<and> (\<forall>m a. m * minute_us \<le> wall_at z a \<longrightarrow> (\<exists>k\<le>180.
        (\<exists>u\<le>a. wall_at z u = (m + int k) * minute_us) \<and> (\<forall>j<k. \<forall>u. wall_at z u \<noteq> (m + int j) * minute_us)))"

lemma reading_first:
  assumes "civil_zone z" "wall_at z v = w"
  obtains u where "reading_of z w = Some u" "u \<le> v"
  using assms by (auto simp: civil_zone_def reading_of_def Let_def)

lemma reading_sound: "reading_of z w = Some u \<Longrightarrow> wall_at z u = w"
  by (auto simp: reading_of_def Let_def split: if_splits)

lemma resolve_from_wall: "resolve_from z w n = Inr u \<Longrightarrow> \<exists>k<n. wall_at z u = w + int k * minute_us"
proof (induction n arbitrary: w)
  case 0
  then show ?case by simp
next
  case (Suc n)
  show ?case
  proof (cases "reading_of z w")
    case (Some v)
    then show ?thesis using Suc.prems reading_sound by (auto intro!: exI [of _ 0])
  next
    case None
    then obtain k where "k < n" "wall_at z u = w + minute_us + int k * minute_us" using Suc by auto
    then show ?thesis by (auto intro!: exI [of _ "Suc k"] simp: algebra_simps)
  qed
qed

lemma resolve_local_wall:
  assumes "resolve_local z w = Inr u"
  shows "w \<le> wall_at z u" "wall_at z u \<le> w + 180 * minute_us"
  using resolve_from_wall [OF assms [unfolded resolve_local_def]] by (auto simp: minute_us_def)

lemma resolve_from_reaches:
  assumes "civil_zone z"
  shows "k < n \<Longrightarrow> wall_at z v = w + int k * minute_us \<Longrightarrow> (\<And>j u. j < k \<Longrightarrow> wall_at z u \<noteq> w + int j * minute_us)
    \<Longrightarrow> \<exists>u\<le>v. resolve_from z w n = Inr u"
proof (induction n arbitrary: w k)
  case 0
  then show ?case by simp
next
  case (Suc n)
  show ?case
  proof (cases k)
    case 0
    with Suc.prems(2) have "wall_at z v = w" by simp
    with reading_first [OF assms] obtain u where "reading_of z w = Some u" "u \<le> v" by metis
    then show ?thesis by simp
  next
    case (Suc k')
    have none: "reading_of z w = None"
    proof (cases "reading_of z w")
      case (Some u)
      then show ?thesis using Suc.prems(3) [of 0 u] Suc reading_sound by simp
    qed simp
    have "\<exists>u\<le>v. resolve_from z (w + minute_us) n = Inr u"
    proof (rule Suc.IH)
      show "k' < n" using Suc Suc.prems by simp
      show "wall_at z v = w + minute_us + int k' * minute_us" using Suc Suc.prems(2) by (simp add: algebra_simps)
      show "wall_at z u \<noteq> w + minute_us + int j * minute_us" if "j < k'" for j u
        using Suc.prems(3) [of "Suc j" u] that Suc by (simp add: algebra_simps)
    qed
    then show ?thesis using none by simp
  qed
qed

lemma resolve_passed:
  assumes "civil_zone z" "m * minute_us \<le> wall_at z a"
  obtains u where "resolve_local z (m * minute_us) = Inr u" "u \<le> a"
proof -
  from assms obtain k v where k: "k \<le> 180" "v \<le> a" "wall_at z v = (m + int k) * minute_us"
    "\<And>j u. j < k \<Longrightarrow> wall_at z u \<noteq> (m + int j) * minute_us"
    unfolding civil_zone_def by blast
  have "\<exists>u\<le>v. resolve_from z (m * minute_us) 181 = Inr u"
    using k by (intro resolve_from_reaches [OF assms(1), of k]) (auto simp: algebra_simps)
  then show thesis using that k(2) by (auto simp: resolve_local_def)
qed

lemma resolve_total:
  assumes "civil_zone z"
  obtains u where "resolve_local z (m * minute_us) = Inr u"
proof -
  from assms obtain lo where "\<And>u. lo \<le> zn_offset z u" unfolding civil_zone_def by blast
  from this [of "m * minute_us - lo"] have "m * minute_us \<le> wall_at z (m * minute_us - lo)" by (simp add: wall_at_def)
  then show thesis using resolve_passed [OF assms] that by blast
qed

lemma wall_distance:
  assumes "civil_zone z"
  shows "wall_at z v - wall_at z u \<le> v - u + 1200 * minute_us"
proof -
  from assms obtain lo where "\<And>u. lo \<le> zn_offset z u \<and> zn_offset z u \<le> lo + 1200 * minute_us"
    unfolding civil_zone_def by blast
  from this [of u] this [of v] show ?thesis by (simp add: wall_at_def)
qed

text \<open>The instants of one time of day, date by date.\<close>

definition day_instant :: "zone \<Rightarrow> nat \<Rightarrow> nat \<Rightarrow> int \<Rightarrow> int" where
  "day_instant z hour minute d = (case resolve_local z (wall_time d hour minute) of Inr u \<Rightarrow> u | Inl _ \<Rightarrow> 0)"

lemma wall_time_minutes: "wall_time d hour minute = (d * 1440 + 60 * int hour + int minute) * minute_us"
  by (simp add: wall_time_def day_us_def minute_us_def)

lemma day_instant_resolves:
  assumes "civil_zone z"
  shows "resolve_local z (wall_time d hour minute) = Inr (day_instant z hour minute d)"
proof -
  obtain u where "resolve_local z (wall_time d hour minute) = Inr u"
    unfolding wall_time_minutes by (rule resolve_total [OF assms])
  then show ?thesis by (simp add: day_instant_def)
qed

lemma day_instant_mono:
  assumes "civil_zone z" "d < e"
  shows "day_instant z hour minute d < day_instant z hour minute e"
proof -
  note u = day_instant_resolves [OF assms(1), of _ hour minute]
  have "wall_time d hour minute + day_us \<le> wall_time e hour minute"
    using assms(2) by (simp add: wall_time_def day_us_def)
  moreover have "180 * minute_us + 1200 * minute_us < day_us" by (simp add: minute_us_def day_us_def)
  ultimately show ?thesis
    using resolve_local_wall [OF u [of d]] resolve_local_wall [OF u [of e]]
      wall_distance [OF assms(1), of "day_instant z hour minute e" "day_instant z hour minute d"]
    by linarith
qed

lemma day_instant_past:
  assumes "civil_zone z" "hour < 24" "minute < 60" "d < wall_at z a div day_us"
  shows "day_instant z hour minute d \<le> a"
proof -
  have "(d + 1) * day_us \<le> wall_at z a div day_us * day_us" using assms(4) by (simp add: day_us_def)
  also have "\<dots> \<le> wall_at z a" by (simp add: day_us_def minus_mod_eq_div_mult [symmetric])
  finally have "wall_time d hour minute \<le> wall_at z a"
    using assms(2,3) by (simp add: wall_time_def day_us_def minute_us_def)
  then obtain u where "resolve_local z (wall_time d hour minute) = Inr u" "u \<le> a"
    unfolding wall_time_minutes by (rule resolve_passed [OF assms(1)])
  then show ?thesis by (simp add: day_instant_def)
qed

lemma day_instant_future:
  assumes "civil_zone z" "wall_at z a div day_us + 2 \<le> d"
  shows "a < day_instant z hour minute d"
proof -
  have "wall_at z a < (wall_at z a div day_us + 1) * day_us"
    by (simp add: day_us_def) 
  also have "\<dots> \<le> (d - 1) * day_us" using assms(2) by (simp add: day_us_def)
  also have "\<dots> \<le> wall_time d hour minute - day_us" by (simp add: wall_time_def day_us_def minute_us_def)
  finally have "wall_at z a + day_us < wall_time d hour minute" by simp
  moreover have "1200 * minute_us < day_us" by (simp add: minute_us_def day_us_def)
  ultimately show ?thesis
    using resolve_local_wall(1) [OF day_instant_resolves [OF assms(1), of d hour minute]]
      wall_distance [OF assms(1), of "day_instant z hour minute d" a]
    by linarith
qed

end
