(* ===== verification/Schedule_Dates.thy ===== *)
theory Schedule_Dates
  imports Schedule_Facts
begin

text \<open>
  The dates the loops of \<open>_next_rule_occurrence\<close> visit are enough: they are dates of the rule in
  ascending order, none is left out up to a horizon, and the horizon holds a date that is surely
  after the given instant, if there is one at all.
\<close>

definition covers :: "(int \<Rightarrow> bool) \<Rightarrow> int \<Rightarrow> int list \<Rightarrow> bool" where
  "covers P today ds \<longleftrightarrow> sorted_wrt (<) ds \<and> (\<forall>d\<in>set ds. P d) \<and>
     (\<exists>h. (\<forall>d. P d \<and> today \<le> d \<and> d \<le> h \<longrightarrow> d \<in> set ds) \<and>
       ((\<exists>d\<in>set ds. today + 2 \<le> d \<and> d \<le> h) \<or> (\<forall>d. P d \<and> today \<le> d \<longrightarrow> d \<le> h)))"

lemma find_first:
  assumes "sorted_wrt (<) ds" "\<And>d e. d < e \<Longrightarrow> f d < (f e :: int)"
  shows "case List.find p (map f ds) of None \<Rightarrow> \<forall>d\<in>set ds. \<not> p (f d)
     | Some u \<Rightarrow> p u \<and> u \<in> f ` set ds \<and> (\<forall>d\<in>set ds. p (f d) \<longrightarrow> u \<le> f d)"
  using assms(1)
proof (induction ds)
  case Nil
  then show ?case by simp
next
  case (Cons d ds)
  show ?case
  proof (cases "p (f d)")
    case True
    then show ?thesis using Cons.prems assms(2) by (auto intro: less_imp_le)
  next
    case False
    then show ?thesis using Cons by (cases "List.find p (map f ds)") auto
  qed
qed

lemma scan_is_earliest:
  assumes cov: "covers P today ds" and mono: "\<And>d e. d < e \<Longrightarrow> f d < (f e :: int)"
    and past: "\<And>d. d < today \<Longrightarrow> f d \<le> after" and future: "\<And>d. today + 2 \<le> d \<Longrightarrow> after < f d"
  shows "earliest {u. after < u \<and> (\<exists>d. P d \<and> f d = u)} (List.find (\<lambda>u. after < u) (map f ds))"
proof -
  from cov obtain h where sort: "sorted_wrt (<) ds" and sub: "\<And>d. d \<in> set ds \<Longrightarrow> P d"
    and all: "\<And>d. P d \<Longrightarrow> today \<le> d \<Longrightarrow> d \<le> h \<Longrightarrow> d \<in> set ds"
    and hor: "(\<exists>d\<in>set ds. today + 2 \<le> d \<and> d \<le> h) \<or> (\<forall>d. P d \<and> today \<le> d \<longrightarrow> d \<le> h)"
    unfolding covers_def by blast
  have recent: "today \<le> d" if "after < f d" for d using past [of d] that by linarith
  have first: "case List.find (\<lambda>u. after < u) (map f ds) of None \<Rightarrow> \<forall>d\<in>set ds. \<not> after < f d
     | Some u \<Rightarrow> after < u \<and> u \<in> f ` set ds \<and> (\<forall>d\<in>set ds. after < f d \<longrightarrow> u \<le> f d)"
    by (rule find_first [OF sort]) (rule mono)
  show ?thesis
  proof (cases "List.find (\<lambda>u. after < u) (map f ds)")
    case None
    then have none: "\<And>d. d \<in> set ds \<Longrightarrow> \<not> after < f d" using first by simp
    then have "\<not> (\<exists>d\<in>set ds. today + 2 \<le> d \<and> d \<le> h)" using future by blast
    then have "P d \<Longrightarrow> today \<le> d \<Longrightarrow> d \<in> set ds" for d using hor all by blast
    then show ?thesis using None none recent by (auto simp: earliest_def)
  next
    case (Some u)
    then have u: "after < u" "u \<in> f ` set ds" "\<And>d. d \<in> set ds \<Longrightarrow> after < f d \<Longrightarrow> u \<le> f d" using first by auto
    have "u \<le> f d" if dd: "P d" "after < f d" for d
    proof (cases "d \<le> h")
      case True
      then show ?thesis using u(3) all recent that by blast
    next
      case False
      then obtain e where e: "e \<in> set ds" "today + 2 \<le> e" "e \<le> h" using hor recent [OF dd(2)] dd(1) by blast
      then have "u \<le> f e" using u(3) future by blast
      then show ?thesis using mono [of e d] e False by linarith
    qed
    then show ?thesis using Some u sub by (auto simp: earliest_def)
  qed
qed

lemma first_after_find:
  assumes "\<And>d. resolve_local z (g d) = Inr (f d)"
  shows "first_after z after (map g ds) = Inr (List.find (\<lambda>u. after < u) (map f ds))"
  by (induction ds) (simp_all add: assms)

section \<open>Days and weeks\<close>

lemma weekday_hits: "0 \<le> w \<Longrightarrow> w \<le> 6 \<Longrightarrow> \<exists>d. n \<le> d \<and> d \<le> n + 6 \<and> weekday d = w"
proof -
  assume w: "0 \<le> w" "w \<le> 6"
  let ?d = "n + (w - (n + 6)) mod 7"
  have "weekday ?d = ((n + 6) + (w - (n + 6)) mod 7) mod 7" by (simp add: weekday_def algebra_simps)
  also have "\<dots> = ((n + 6) + (w - (n + 6))) mod 7" by (rule mod_add_right_eq)
  also have "\<dots> = w" using w by simp
  finally have "weekday ?d = w" .
  moreover have "0 \<le> (w - (n + 6)) mod 7" "(w - (n + 6)) mod 7 \<le> 6"
    using pos_mod_bound [of 7 "w - (n + 6)"] by simp_all
  ultimately show ?thesis by (intro exI [of _ ?d]) simp
qed

lemma covers_daily: "covers (rule_day Daily) today (rule_dates Daily today)"
  unfolding covers_def rule_dates_def rule_when.case
  by (intro conjI exI [of _ "today + 2"]) (auto simp: rule_day_def sorted_wrt_upto simp del: upto.simps)

lemma covers_once: "covers (rule_day (Once d0)) today (rule_dates (Once d0) today)"
  unfolding covers_def by (intro conjI exI [of _ d0]) (auto simp: rule_day_def rule_dates_def)

lemma covers_weekly:
  assumes "ws \<noteq> []" "set ws \<subseteq> {0..6}"
  shows "covers (rule_day (Weekly ws)) today (rule_dates (Weekly ws) today)"
proof -
  from assms obtain w where "w \<in> set ws" "0 \<le> w" "w \<le> 6" by (cases ws) auto
  with weekday_hits [of w "today + 2"] obtain d where "today + 2 \<le> d" "d \<le> today + 14" "weekday d \<in> set ws" by force
  then have d: "d \<in> set (rule_dates (Weekly ws) today)" "today + 2 \<le> d" "d \<le> today + 14"
    by (auto simp: rule_dates_def simp del: upto.simps)
  show ?thesis
    unfolding covers_def
  proof (intro conjI exI [of _ "today + 14"])
    show "sorted_wrt (<) (rule_dates (Weekly ws) today)"
      by (simp add: rule_dates_def sorted_wrt_filter sorted_wrt_upto)
    show "(\<exists>d\<in>set (rule_dates (Weekly ws) today). today + 2 \<le> d \<and> d \<le> today + 14)
        \<or> (\<forall>d. rule_day (Weekly ws) d \<and> today \<le> d \<longrightarrow> d \<le> today + 14)"
      using d by blast
  qed (auto simp: rule_day_def rule_dates_def simp del: upto.simps)
qed

lemma covers_interval:
  assumes "1 \<le> interval"
  shows "covers (rule_day (Interval_weeks interval anchor)) today (rule_dates (Interval_weeks interval anchor) today)"
proof -
  define p where "p = 7 * interval"
  define start where "start = max anchor today"
  have p: "7 \<le> p" using assms by (simp add: p_def)
  have ds: "rule_dates (Interval_weeks interval anchor) today
      = filter (\<lambda>d. anchor \<le> d \<and> p dvd d - anchor) [start..start + p + 7]"
    unfolding rule_dates_def rule_when.case Let_def start_def p_def
    by (intro filter_cong) (auto simp: mod_eq_0_iff_dvd mult.commute)
  define d where "d = start + 2 + (anchor - (start + 2)) mod p"
  have "d - anchor = (anchor - (start + 2)) mod p - (anchor - (start + 2))" by (simp add: d_def)
  then have "p dvd d - anchor" by (metis dvd_diff_commute dvd_minus_mod)
  moreover have "start + 2 \<le> d" "d \<le> start + p + 7"
    using p pos_mod_bound [of p "anchor - (start + 2)"] pos_mod_sign [of p "anchor - (start + 2)"] unfolding d_def by linarith+
  ultimately have d: "d \<in> set (rule_dates (Interval_weeks interval anchor) today)" "today + 2 \<le> d" "d \<le> start + p + 7"
    unfolding ds by (auto simp: start_def simp del: upto.simps)
  show ?thesis
    unfolding covers_def
  proof (intro conjI exI [of _ "start + p + 7"])
    show "sorted_wrt (<) (rule_dates (Interval_weeks interval anchor) today)"
      unfolding ds by (simp add: sorted_wrt_filter sorted_wrt_upto)
    show "(\<exists>d\<in>set (rule_dates (Interval_weeks interval anchor) today). today + 2 \<le> d \<and> d \<le> start + p + 7)
        \<or> (\<forall>d. rule_day (Interval_weeks interval anchor) d \<and> today \<le> d \<longrightarrow> d \<le> start + p + 7)"
      using d by blast
  qed (auto simp: ds rule_day_def start_def p_def simp del: upto.simps)
qed

section \<open>Months\<close>

lemma months_from_index: "months_from n (month_year k) = map month_year [k..k + int n - 1]"
proof (induction n arbitrary: k)
  case 0
  then show ?case by simp
next
  case (Suc n)
  have "[k..k + int (Suc n) - 1] = k # [k + 1..k + 1 + int n - 1]" by (simp add: upto_rec1 algebra_simps)
  then show ?case using Suc [of "k + 1"] by (simp add: next_month_index)
qed

text \<open>The date of a rule in the month of an index.\<close>

definition month_date :: "rule_when \<Rightarrow> int \<Rightarrow> int option" where
  "month_date w i = map_option (\<lambda>d. month_first i + d - 1) (monthly_day w (i div 12) (i mod 12 + 1))"

lemma month_dates_date: "month_dates w (month_year i) = (case month_date w i of None \<Rightarrow> [] | Some d \<Rightarrow> [d])"
  by (simp add: month_dates_def month_year_def month_date_def month_first_def ordinal_def split: option.split)

lemma monthly_dates:
  assumes "\<not> (\<exists>d. w = Once d) \<and> w \<noteq> Daily \<and> (\<forall>ws. w \<noteq> Weekly ws) \<and> (\<forall>i a. w \<noteq> Interval_weeks i a)"
  shows "rule_dates w today = concat (map (\<lambda>i. case month_date w i of None \<Rightarrow> [] | Some d \<Rightarrow> [d])
     [month_index today..month_index today + 35])"
proof -
  have "month_index today + int 36 - 1 = month_index today + 35" by simp
  with months_from_index [of 36 "month_index today"]
  have "months_from 36 (year_of today, month_of today) = map month_year [month_index today..month_index today + 35]"
    unfolding year_month_of by metis
  then have "map (month_dates w) (months_from 36 (year_of today, month_of today))
      = map (\<lambda>i. case month_date w i of None \<Rightarrow> [] | Some d \<Rightarrow> [d]) [month_index today..month_index today + 35]"
    by (simp add: month_dates_date o_def del: months_from.simps upto.simps)
  then show ?thesis using assms unfolding rule_dates_def by (cases w) auto
qed

lemma sorted_months:
  assumes "\<And>i d. m i = Some d \<Longrightarrow> month_first i \<le> d \<and> d < month_first (i + 1)"
  shows "sorted_wrt (<) (concat (map (\<lambda>i. case m i of None \<Rightarrow> [] | Some d \<Rightarrow> [d]) [a..b]))"
proof (induction a b rule: upto.induct)
  case (1 a b)
  show ?case
  proof (cases "a \<le> b")
    case True
    have "d < e" if "m a = Some d" "i \<in> {a + 1..b}" "m i = Some e" for d e i
    proof -
      have "d < month_first (a + 1)" "month_first i \<le> e" using assms that by blast+
      moreover have "month_first (a + 1) \<le> month_first i" using that by (intro month_first_mono) simp
      ultimately show ?thesis by simp
    qed
    then show ?thesis
      using 1 True by (auto simp: upto_rec1 split: option.split simp del: upto.simps)
  qed simp
qed

lemma covers_monthly:
  assumes dates: "\<And>t. rule_dates w t = concat (map (\<lambda>i. case month_date w i of None \<Rightarrow> [] | Some d \<Rightarrow> [d]) [month_index t..month_index t + 35])"
    and within: "\<And>i d. month_date w i = Some d \<Longrightarrow> month_first i \<le> d \<and> d < month_first (i + 1)"
    and exact: "\<And>d. rule_day w d \<longleftrightarrow> month_date w (month_index d) = Some d"
    and soon: "\<And>i. \<exists>j d. i + 2 \<le> j \<and> j \<le> i + 35 \<and> month_date w j = Some d"
  shows "covers (rule_day w) today (rule_dates w today)"
proof -
  define k where "k = month_index today"
  have k: "month_first k \<le> today" "today < month_first (k + 1)"
    using month_index_holds [of today] by (simp_all add: k_def month_first_Suc)
  have ds: "d \<in> set (rule_dates w today) \<longleftrightarrow> (\<exists>i\<in>{k..k + 35}. month_date w i = Some d)" for d
    by (auto simp: dates k_def split: option.splits simp del: upto.simps) (metis atLeastAtMost_iff)
  have idx: "month_index d = i" if "month_date w i = Some d" for d i
    using within [OF that] month_index_unique [of i d] by (simp add: month_first_Suc)
  from soon [of k] obtain j d where j: "k + 2 \<le> j" "j \<le> k + 35" "month_date w j = Some d" by blast
  have "today + 2 \<le> d"
    using k(2) month_first_less [of "k + 1" "k + 2"] month_length_bounds(1) [of "k + 1"]
      month_first_mono [of "k + 2" j] j within [OF j(3)] by linarith
  moreover have "d < month_first (k + 36)"
    using within [OF j(3)] month_first_mono [of "j + 1" "k + 36"] j by simp
  ultimately have d: "d \<in> set (rule_dates w today)" "today + 2 \<le> d" "d \<le> month_first (k + 36) - 1"
    using j by (auto simp: ds)
  show ?thesis
    unfolding covers_def
  proof (intro conjI exI [of _ "month_first (k + 36) - 1"])
    show "sorted_wrt (<) (rule_dates w today)" unfolding dates by (rule sorted_months) (rule within)
    show "\<forall>d\<in>set (rule_dates w today). rule_day w d" using ds exact idx by auto
    show "\<forall>d. rule_day w d \<and> today \<le> d \<and> d \<le> month_first (k + 36) - 1 \<longrightarrow> d \<in> set (rule_dates w today)"
    proof (intro allI impI)
      fix e
      assume e: "rule_day w e \<and> today \<le> e \<and> e \<le> month_first (k + 36) - 1"
      have h: "month_first (month_index e) \<le> e" "e < month_first (month_index e + 1)"
        using month_index_holds [of e] by (simp_all add: month_first_Suc)
      have "k \<le> month_index e"
        using month_first_mono [of "month_index e + 1" k] h k e by linarith
      moreover have "month_index e < k + 36"
        using month_first_mono [of "k + 36" "month_index e"] h e by linarith
      ultimately show "e \<in> set (rule_dates w today)" using e exact ds by auto
    qed
    show "(\<exists>d\<in>set (rule_dates w today). today + 2 \<le> d \<and> d \<le> month_first (k + 36) - 1)
        \<or> (\<forall>d. rule_day w d \<and> today \<le> d \<longrightarrow> d \<le> month_first (k + 36) - 1)"
      using d by blast
  qed
qed

lemma long_month_soon: "month_length i = 31 \<or> month_length (i + 1) = 31"
proof -
  define m where "m = i mod 12"
  have "(i + 1) mod 12 = (m + 1) mod 12" by (simp add: m_def mod_simps)
  moreover have "0 \<le> m" "m < 12" by (simp_all add: m_def)
  then have "m = 0 \<or> m = 1 \<or> m = 2 \<or> m = 3 \<or> m = 4 \<or> m = 5 \<or> m = 6 \<or> m = 7 \<or> m = 8 \<or> m = 9 \<or> m = 10 \<or> m = 11"
    by presburger
  ultimately show ?thesis by (auto simp: month_length_def month_days_def simp flip: m_def)
qed

lemma covers_monthly_date:
  assumes "1 \<le> day" "day \<le> 31"
  shows "covers (rule_day (Monthly_date day)) today (rule_dates (Monthly_date day) today)"
proof (rule covers_monthly)
  have date: "month_date (Monthly_date day) i = (if day \<le> month_length i then Some (month_first i + day - 1) else None)" for i
    by (simp add: month_date_def monthly_day_def month_length_def)
  show "rule_dates (Monthly_date day) t = concat (map (\<lambda>i. case month_date (Monthly_date day) i of None \<Rightarrow> [] | Some d \<Rightarrow> [d])
      [month_index t..month_index t + 35])" for t
    by (rule monthly_dates) simp
  show "month_first i \<le> d \<and> d < month_first (i + 1)" if "month_date (Monthly_date day) i = Some d" for i d
    using that assms by (auto simp: date month_first_Suc split: if_splits)
  show "rule_day (Monthly_date day) d \<longleftrightarrow> month_date (Monthly_date day) (month_index d) = Some d" for d
    using month_index_holds [of d] by (auto simp: rule_day_def day_of_month_def date)
  show "\<exists>j d. i + 2 \<le> j \<and> j \<le> i + 35 \<and> month_date (Monthly_date day) j = Some d" for i
  proof -
    have "i + 2 + 1 = i + 3" by simp
    with long_month_soon [of "i + 2"] consider "month_length (i + 2) = 31" | "month_length (i + 3) = 31" by metis
    then show ?thesis
    proof cases
      case 1
      then show ?thesis using assms
        by (intro exI [of _ "i + 2"] exI [of _ "month_first (i + 2) + day - 1"]) (simp add: date)
    next
      case 2
      then show ?thesis using assms
        by (intro exI [of _ "i + 3"] exI [of _ "month_first (i + 3) + day - 1"]) (simp add: date)
    qed
  qed
qed

section \<open>Weekdays of a month\<close>

text \<open>The first date of a month that falls on a weekday.\<close>

definition first_weekday :: "int \<Rightarrow> int \<Rightarrow> int" where
  "first_weekday i w = month_first i + (w - weekday (month_first i)) mod 7"

lemma first_weekday_bounds: "month_first i \<le> first_weekday i w" "first_weekday i w < month_first i + 7"
  using pos_mod_bound [of 7 "w - weekday (month_first i)"] by (simp_all add: first_weekday_def)

lemma weekday_congruent:
  assumes "0 \<le> w" "w \<le> 6"
  shows "weekday n = w \<longleftrightarrow> 7 dvd n - first_weekday i w"
proof -
  have "weekday (m + x) = ((m + 6) + x) mod 7" for m x by (simp add: weekday_def algebra_simps)
  then have "weekday (first_weekday i w) = ((month_first i + 6) + (w - weekday (month_first i)) mod 7) mod 7"
    unfolding first_weekday_def .
  also have "\<dots> = ((month_first i + 6) + (w - weekday (month_first i))) mod 7" by (rule mod_add_right_eq)
  also have "\<dots> = ((month_first i + 6) mod 7 + (w - weekday (month_first i))) mod 7" by (rule mod_add_left_eq [symmetric])
  also have "\<dots> = w" using assms by (simp add: weekday_def)
  finally have "w = (first_weekday i w + 6) mod 7" by (simp add: weekday_def)
  then have "weekday n = w \<longleftrightarrow> (n + 6) mod 7 = (first_weekday i w + 6) mod 7" by (simp add: weekday_def)
  also have "\<dots> \<longleftrightarrow> 7 dvd (n + 6) - (first_weekday i w + 6)" by (rule mod_eq_dvd_iff)
  finally show ?thesis by simp
qed

text \<open>All dates of the month on the weekday, one week apart.\<close>

definition weekday_count :: "int \<Rightarrow> int \<Rightarrow> nat" where
  "weekday_count i w = nat ((month_first (i + 1) - 1 - first_weekday i w) div 7 + 1)"

lemma weekday_dates:
  assumes "0 \<le> w" "w \<le> 6"
  shows "filter (\<lambda>d. weekday (month_first i + d - 1) = w) [1..month_length i]
     = map (\<lambda>j. first_weekday i w + 7 * int j - month_first i + 1) [0..<weekday_count i w]"
proof (rule strict_sorted_equal)
  define f where "f = first_weekday i w"
  define n where "n = weekday_count i w"
  have f: "month_first i \<le> f" "f < month_first i + 7" using first_weekday_bounds by (simp_all add: f_def)
  have len: "month_first (i + 1) = month_first i + month_length i" by (rule month_first_Suc)
  have n: "int n = (month_first (i + 1) - 1 - f) div 7 + 1"
    using f len month_length_bounds(1) [of i] by (simp add: n_def weekday_count_def f_def)
  have less: "int j < int n \<longleftrightarrow> f + 7 * int j < month_first (i + 1)" for j
    unfolding n by linarith
  show "set (filter (\<lambda>d. weekday (month_first i + d - 1) = w) [1..month_length i])
      = set (map (\<lambda>j. first_weekday i w + 7 * int j - month_first i + 1) [0..<weekday_count i w])"
  proof (intro set_eqI iffI)
    fix d
    assume "d \<in> set (filter (\<lambda>d. weekday (month_first i + d - 1) = w) [1..month_length i])"
    then have d: "1 \<le> d" "d \<le> month_length i" "7 dvd month_first i + d - 1 - f"
      using weekday_congruent [OF assms, of _ i] by (auto simp: f_def simp del: upto.simps)
    from d(3) obtain q where q: "month_first i + d - 1 - f = 7 * q" by (auto simp: dvd_def)
    with d f have "0 \<le> q" by linarith
    then obtain j where "q = int j" by (metis nonneg_int_cases)
    with q have "d = f + 7 * int j - month_first i + 1" by simp
    moreover from this have "int j < int n" unfolding less using d len by simp
    ultimately show "d \<in> set (map (\<lambda>j. first_weekday i w + 7 * int j - month_first i + 1) [0..<weekday_count i w])"
      by (auto simp: f_def n_def)
  next
    fix d
    assume "d \<in> set (map (\<lambda>j. first_weekday i w + 7 * int j - month_first i + 1) [0..<weekday_count i w])"
    then obtain j where j: "int j < int n" "d = f + 7 * int j - month_first i + 1" by (auto simp: f_def n_def)
    then have "1 \<le> d" "d \<le> month_length i" using less f len by auto
    moreover have "weekday (month_first i + d - 1) = w" using weekday_congruent [OF assms, of _ i] j by (simp add: f_def)
    ultimately show "d \<in> set (filter (\<lambda>d. weekday (month_first i + d - 1) = w) [1..month_length i])"
      by (simp del: upto.simps)
  qed
next
  show "sorted_wrt (<) (map (\<lambda>j. first_weekday i w + 7 * int j - month_first i + 1) [0..<weekday_count i w])"
    by (simp add: sorted_wrt_iff_nth_less)
qed (simp add: sorted_wrt_filter del: upto.simps)

lemma weekday_count_bounds: "4 \<le> weekday_count i w" "weekday_count i w \<le> 5"
  using first_weekday_bounds [of i w] month_length_bounds [of i] month_first_Suc [of i]
  by (simp_all add: weekday_count_def)

lemma month_date_weekday:
  assumes "0 \<le> w" "w \<le> 6" "ordi \<in> {1, 2, 3, 4, 5, -1}"
  shows "month_date (Monthly_weekday ordi w) i =
    (if ordi = -1 then Some (first_weekday i w + 7 * (int (weekday_count i w) - 1))
     else if ordi \<le> int (weekday_count i w) then Some (first_weekday i w + 7 * (ordi - 1)) else None)"
proof -
  have days: "filter (\<lambda>d. weekday (ordinal (i div 12) (i mod 12 + 1) d) = w) [1..month_days (i div 12) (i mod 12 + 1)]
      = map (\<lambda>j. first_weekday i w + 7 * int j - month_first i + 1) [0..<weekday_count i w]"
    using weekday_dates [OF assms(1,2), of i] by (simp add: month_first_def month_length_def ordinal_def algebra_simps)
  have "weekday_count i w \<noteq> 0" using weekday_count_bounds(1) [of i w] by linarith
  then have "last (map (\<lambda>j. first_weekday i w + 7 * int j - month_first i + 1) [0..<weekday_count i w])
      = first_weekday i w + 7 * (int (weekday_count i w) - 1) - month_first i + 1"
    by (simp add: last_map of_nat_diff)
  moreover have "ordi \<noteq> -1 \<Longrightarrow> ordi \<le> int (weekday_count i w) \<Longrightarrow>
      map (\<lambda>j. first_weekday i w + 7 * int j - month_first i + 1) [0..<weekday_count i w] ! nat (ordi - 1)
      = first_weekday i w + 7 * (ordi - 1) - month_first i + 1"
    using assms(3) by auto
  ultimately show ?thesis
    by (simp add: month_date_def monthly_day_def monthly_weekday_day_def days Let_def)
qed

text \<open>Within twelve months some month has five of the weekday.\<close>

lemma fifth_within_a_year:
  assumes "0 \<le> w" "w \<le> 6"
  shows "\<exists>j. i \<le> j \<and> j < i + 12 \<and> weekday_count j w = 5"
proof (rule ccontr)
  assume "\<not> ?thesis"
  then have four: "weekday_count j w = 4" if "i \<le> j" "j < i + 12" for j
    using weekday_count_bounds [of j w] that by force
  have step: "first_weekday (j + 1) w = first_weekday j w + 28" if "i \<le> j" "j < i + 12" for j
  proof -
    define f where "f = first_weekday j w"
    have "int (weekday_count j w) = (month_first (j + 1) - 1 - f) div 7 + 1"
      using first_weekday_bounds [of j w] month_first_Suc [of j] month_length_bounds(1) [of j]
      by (simp add: weekday_count_def f_def)
    then have lo: "month_first (j + 1) \<le> f + 28" using four [OF that] by simp
    have hi: "f + 28 < month_first (j + 1) + 7"
      using first_weekday_bounds [of j w] month_first_Suc [of j] month_length_bounds(1) [of j] by (simp add: f_def)
    have "weekday f = w" using weekday_congruent [OF assms, of f j] by (simp add: f_def)
    then have "weekday (f + 28) = w" by (simp add: weekday_def) presburger
    then have "7 dvd f + 28 - first_weekday (j + 1) w" using weekday_congruent [OF assms] by simp
    then obtain q where q: "f + 28 - first_weekday (j + 1) w = 7 * q" by (auto simp: dvd_def)
    with lo hi first_weekday_bounds [of "j + 1" w] have "-1 < q" "q < 1" by linarith+
    with q show ?thesis by (simp add: f_def)
  qed
  have run: "n \<le> 12 \<Longrightarrow> first_weekday (i + int n) w = first_weekday i w + 28 * int n" for n
  proof (induction n)
    case (Suc n)
    then show ?case using step [of "i + int n"] by (simp add: algebra_simps)
  qed simp
  have "first_weekday (i + 12) w = first_weekday i w + 336" using run [of 12] by simp
  then show False
    using first_weekday_bounds(1) [of "i + 12" w] first_weekday_bounds(2) [of i w] twelve_months [of i] by linarith
qed

lemma covers_monthly_weekday:
  assumes "0 \<le> w" "w \<le> 6" "ordi \<in> {1, 2, 3, 4, 5, -1}"
  shows "covers (rule_day (Monthly_weekday ordi w)) today (rule_dates (Monthly_weekday ordi w) today)"
proof (rule covers_monthly)
  note date = month_date_weekday [OF assms]
  have range: "first_weekday i w + 7 * int (weekday_count i w) - 7 < month_first (i + 1)"
    "month_first (i + 1) \<le> first_weekday i w + 7 * int (weekday_count i w)" for i
  proof -
    have "int (weekday_count i w) = (month_first (i + 1) - 1 - first_weekday i w) div 7 + 1"
      using first_weekday_bounds [of i w] month_first_Suc [of i] month_length_bounds(1) [of i]
      by (simp add: weekday_count_def)
    then show "first_weekday i w + 7 * int (weekday_count i w) - 7 < month_first (i + 1)"
      "month_first (i + 1) \<le> first_weekday i w + 7 * int (weekday_count i w)" by linarith+
  qed
  have pos: "ordi \<noteq> -1 \<Longrightarrow> 1 \<le> ordi" using assms(3) by auto
  show "rule_dates (Monthly_weekday ordi w) t = concat (map (\<lambda>i. case month_date (Monthly_weekday ordi w) i of None \<Rightarrow> [] | Some d \<Rightarrow> [d])
      [month_index t..month_index t + 35])" for t
    by (rule monthly_dates) simp
  show "month_first i \<le> d \<and> d < month_first (i + 1)" if "month_date (Monthly_weekday ordi w) i = Some d" for i d
    using that range [of i] first_weekday_bounds(1) [of i w] weekday_count_bounds(1) [of i w] pos
    by (auto simp: date split: if_splits)
  show "rule_day (Monthly_weekday ordi w) d \<longleftrightarrow> month_date (Monthly_weekday ordi w) (month_index d) = Some d" for d
  proof -
    define i f where "i = month_index d" and "f = first_weekday i w"
    have d: "month_first i \<le> d" "d < month_first (i + 1)"
      using month_index_holds [of d] by (simp_all add: i_def month_first_Suc)
    have f: "month_first i \<le> f" "f < month_first i + 7" using first_weekday_bounds by (simp_all add: f_def)
    show ?thesis
    proof (cases "weekday d = w")
      case False
      have "weekday (f + 7 * k) = w" for k using weekday_congruent [OF assms(1,2), of "f + 7 * k" i] by (simp add: f_def)
      then have no: "d \<noteq> f + 7 * k" for k using False by metis
      show ?thesis using False no [of "int (weekday_count i w) - 1"] no [of "ordi - 1"]
        by (auto simp: rule_day_def date simp flip: i_def f_def)
    next
      case True
      then obtain q where q: "d = f + 7 * q"
        using weekday_congruent [OF assms(1,2), of d i] by (auto simp: f_def dvd_def algebra_simps)
      have "month_index (d + 7) = i \<longleftrightarrow> d + 7 < month_first (i + 1)"
      proof
        assume "month_index (d + 7) = i"
        then show "d + 7 < month_first (i + 1)" using month_index_holds(2) [of "d + 7"] by (simp add: month_first_Suc)
      next
        assume "d + 7 < month_first (i + 1)"
        then show "month_index (d + 7) = i" using d by (intro month_index_unique) (simp_all add: month_first_Suc)
      qed
      then have "month_index (d + 7) \<noteq> month_index d \<longleftrightarrow> month_first (i + 1) \<le> d + 7" by (auto simp: i_def)
      also have "\<dots> \<longleftrightarrow> q = int (weekday_count i w) - 1"
        using range [of i] d q by (simp flip: f_def) linarith
      finally have last: "month_index (d + 7) \<noteq> month_index d \<longleftrightarrow> q = int (weekday_count i w) - 1" .
      have "day_of_month d - 1 = (f - month_first i) + 7 * q" using q by (simp add: day_of_month_def i_def)
      then have nth: "(day_of_month d - 1) div 7 = q" using f by simp
      have "q < int (weekday_count i w)" using range(2) [of i] d q by (simp flip: f_def)
      have "rule_day (Monthly_weekday ordi w) d \<longleftrightarrow> (if ordi = -1 then q = int (weekday_count i w) - 1 else q + 1 = ordi)"
        unfolding rule_day_def rule_when.case last nth using True by simp
      also have "\<dots> \<longleftrightarrow> month_date (Monthly_weekday ordi w) i = Some (f + 7 * q)"
        unfolding date f_def [symmetric] using \<open>q < int (weekday_count i w)\<close> by auto
      finally show ?thesis unfolding i_def [symmetric] q [symmetric] .
    qed
  qed
  show "\<exists>j d. i + 2 \<le> j \<and> j \<le> i + 35 \<and> month_date (Monthly_weekday ordi w) j = Some d" for i
  proof -
    from fifth_within_a_year [OF assms(1,2), of "i + 2"] obtain j where
      j: "i + 2 \<le> j" "j < i + 14" "weekday_count j w = 5" by auto
    have "ordi \<le> 5" using assms(3) by auto
    then have "month_date (Monthly_weekday ordi w) j \<noteq> None" using j(3) by (simp add: date)
    then obtain d where "month_date (Monthly_weekday ordi w) j = Some d" by blast
    then show ?thesis using j by (intro exI [of _ j] exI [of _ d]) simp
  qed
qed

section \<open>The next occurrence of a rule\<close>

lemma covers_rule: "rule_ok r \<Longrightarrow> covers (rule_day (ru_when r)) today (rule_dates (ru_when r) today)"
  using covers_once covers_daily covers_weekly covers_interval covers_monthly_date covers_monthly_weekday
  by (cases "ru_when r") (auto simp: rule_ok_def)

lemma next_rule_exact:
  assumes "civil_zone z" "rule_ok r"
  obtains x where "next_rule_occurrence z after r = Inr x" "earliest {u. after < u \<and> occurs_at z r u} x"
proof -
  define f where "f = day_instant z (ru_hour r) (ru_minute r)"
  define today where "today = wall_at z after div day_us"
  have res: "resolve_local z (wall_time d (ru_hour r) (ru_minute r)) = Inr (f d)" for d
    unfolding f_def by (rule day_instant_resolves [OF assms(1)])
  have hm: "ru_hour r < 24" "ru_minute r < 60" using assms(2) by (simp_all add: rule_ok_def)
  have "earliest {u. after < u \<and> (\<exists>d. rule_day (ru_when r) d \<and> f d = u)}
      (List.find (\<lambda>u. after < u) (map f (rule_dates (ru_when r) today)))"
  proof (rule scan_is_earliest)
    show "covers (rule_day (ru_when r)) today (rule_dates (ru_when r) today)" using covers_rule [OF assms(2)] .
    show "f d < f e" if "d < e" for d e using day_instant_mono [OF assms(1) that] by (simp add: f_def)
    show "f d \<le> after" if "d < today" for d
      using day_instant_past [OF assms(1) hm] that by (simp add: f_def today_def)
    show "after < f d" if "today + 2 \<le> d" for d
      using day_instant_future [OF assms(1)] that by (simp add: f_def today_def)
  qed
  moreover have "{u. after < u \<and> (\<exists>d. rule_day (ru_when r) d \<and> f d = u)} = {u. after < u \<and> occurs_at z r u}"
    by (auto simp: occurs_at_def res)
  moreover have "next_rule_occurrence z after r = Inr (List.find (\<lambda>u. after < u) (map f (rule_dates (ru_when r) today)))"
    using first_after_find [of z "\<lambda>d. wall_time d (ru_hour r) (ru_minute r)" f, OF res]
    by (simp add: next_rule_occurrence_def today_def)
  ultimately show thesis using that by simp
qed

end
