(* ===== verification/Schedule_Results.thy ===== *)
theory Schedule_Results
  imports Schedule_Dates
begin

text \<open>
  The occurrences of a whole schedule: which instant \<open>schedule_occurrence\<close> returns and for which rules,
  that occurrences only move forward, and a zone with summer time on which the statements are applied.
\<close>

section \<open>Validated rules\<close>

definition iso_times_ok :: "iso_reader \<Rightarrow> bool" where
  "iso_times_ok rd \<longleftrightarrow> (\<forall>t hour minute. iso_time rd t = Some (hour, minute) \<longrightarrow> hour < 24 \<and> minute < 60)"

lemma integer_list_range: "integer_list v lo hi label = Inr ns \<Longrightarrow> set ns \<subseteq> {lo..hi}"
  by (auto simp: integer_list_def Let_def list_ex_iff not_less split: json.splits if_splits)

lemma validate_when_ok:
  assumes "validate_when rd index t raw = Inr w" "hour < 24" "minute < 60"
  shows "rule_ok \<lparr>ru_id = i, ru_hour = hour, ru_minute = minute, ru_when = w\<rparr>"
proof -
  consider "t = ''weekly''" | "t = ''interval_weeks''" | "t = ''monthly_date''" | "t = ''monthly_weekday''"
    | "t \<notin> {''weekly'', ''interval_weeks'', ''monthly_date'', ''monthly_weekday''}" by blast
  then show ?thesis
  proof cases
    case 1
    with assms obtain ns where
      "integer_list (get_or raw ''weekdays'' (JList [])) 0 6 (''rule '' @ show_nat index @ '' weekdays'') = Inr ns"
      "ns \<noteq> []" "w = Weekly (sort (remdups ns))"
      by (auto simp: validate_when_def bindE_eq_Inr split: if_splits)
    moreover from this have "set ns \<subseteq> {0..6}" using integer_list_range by blast
    moreover have "sort (remdups ns) \<noteq> []" using \<open>ns \<noteq> []\<close> by (metis set_empty set_remdups set_sort)
    ultimately show ?thesis using assms by (simp add: rule_ok_def)
  next
    case 5
    with assms show ?thesis
      by (auto simp: validate_when_def rule_ok_def bindE_eq_Inr split: if_splits)
  qed (use assms in \<open>auto simp: validate_when_def rule_ok_def bindE_eq_Inr split: if_splits option.splits\<close>)
qed

lemma validate_rule_ok: "iso_times_ok rd \<Longrightarrow> validate_rule rd fresh raw index = Inr r \<Longrightarrow> rule_ok r"
  using validate_when_ok
  by (fastforce simp: validate_rule_def validate_time_def iso_times_ok_def Let_def bindE_eq_Inr
      split: json.splits if_splits option.splits)

lemma validate_rules_ok:
  "iso_times_ok rd \<Longrightarrow> validate_rules rd fresh index raws = Inr rs \<Longrightarrow> r \<in> set rs \<Longrightarrow> rule_ok r"
proof (induction raws arbitrary: index rs)
  case Nil
  then show ?case by simp
next
  case (Cons raw raws)
  then show ?case using validate_rule_ok by (auto simp: bindE_eq_Inr)
qed

lemma validated_config:
  assumes "validate_schedule_config env config = Inr sd"
  obtains raws where "validate_rules (se_iso env) (se_fresh env) 1 raws = Inr (sd_rules sd)"
    "distinct (map ru_id (sd_rules sd))"
    "1 \<le> sd_grace sd" "sd_grace sd \<le> 1440"
proof -
  show thesis
  proof (cases "get_or config ''rules'' (JList [])")
    case (JList js)
    show thesis
      using assms that [of js] JList
      by (cases js)
        (auto simp: validate_schedule_config_def Let_def bindE_eq_Inr split: option.splits if_splits)
  qed (use assms in \<open>auto simp: validate_schedule_config_def Let_def split: option.splits if_splits\<close>)
qed

section \<open>Instants and timestamps\<close>

lemma instant_of_timestamp: "instant_of (timestamp_of u + of_int k / 1000000) = u + k"
proof -
  have "(timestamp_of u + of_int k / 1000000) * 1000000 = of_int (u - epoch_us + k)"
    by (simp add: timestamp_of_def field_simps)
  then show ?thesis unfolding instant_of_def by (simp add: round_half_even_def)
qed

lemma instant_of_exact: "instant_of (timestamp_of u) = u"
  using instant_of_timestamp [of u 0] by simp

lemma timestamp_less [simp]: "timestamp_of u < timestamp_of v \<longleftrightarrow> u < v"
  by (simp add: timestamp_of_def field_simps)

lemma timestamp_eq [simp]: "timestamp_of u = timestamp_of v \<longleftrightarrow> u = v"
  by (simp add: timestamp_of_def field_simps)

section \<open>The earliest occurrence of all rules\<close>

lemma collect_total:
  "(\<And>x. x \<in> set xs \<Longrightarrow> \<exists>y. f x = Inr y \<and> P x y) \<Longrightarrow> \<exists>ys. collect f xs = Inr ys \<and> list_all2 P xs ys"
proof (induction xs)
  case Nil
  then show ?case by simp
next
  case (Cons x xs)
  from Cons.prems [of x] obtain y where "f x = Inr y" "P x y" by auto
  moreover from Cons.IH Cons.prems obtain ys where "collect f xs = Inr ys" "list_all2 P xs ys" by auto
  ultimately show ?case by auto
qed

lemma collect_all2: "collect f xs = Inr ys \<Longrightarrow> list_all2 (\<lambda>x y. f x = Inr y) xs ys"
  by (induction xs arbitrary: ys) (auto simp: bindE_eq_Inr)

definition soonest :: "int option list \<Rightarrow> int option" where
  "soonest nexts = (let us = map the (filter (\<lambda>x. x \<noteq> None) nexts) in if us = [] then None else Some (min_list us))"

definition matching_rules :: "int \<Rightarrow> int option list \<Rightarrow> sched_rule list \<Rightarrow> sched_rule list" where
  "matching_rules u nexts rules = map snd (filter (\<lambda>(x, r). x = Some u) (zip nexts rules))"

lemma candidate_times:
  "length nexts = length rules \<Longrightarrow>
     map (\<lambda>(x, r). the x) (filter (\<lambda>(x, r). x \<noteq> None) (zip nexts rules)) = map the (filter (\<lambda>x. x \<noteq> None) nexts)"
  by (induction rule: list_induct2) auto

lemma candidate_rules:
  "length nexts = length rules \<Longrightarrow>
     map snd (filter (\<lambda>(x, r). the x = u) (filter (\<lambda>(x, r). x \<noteq> None) (zip nexts rules))) = matching_rules u nexts rules"
  unfolding matching_rules_def by (induction rule: list_induct2) auto

lemma schedule_occurrence_cases:
  assumes "validate_schedule_config env config = Inr sd"
    "collect (next_rule_occurrence (sd_zone sd) (instant_of t)) (sd_rules sd) = Inr nexts"
  shows "schedule_occurrence env config t = Inr (map_option (\<lambda>u.
     \<lparr>oc_timestamp = timestamp_of u, oc_utc = isoformat u 0,
      oc_local = isoformat (wall_at (sd_zone sd) u) (zn_offset (sd_zone sd) u),
      oc_display = display_text (sd_zone sd) u, oc_timezone = zn_name (sd_zone sd),
      oc_rule_ids = map ru_id (matching_rules u nexts (sd_rules sd)),
      oc_rules = map describe_schedule_rule (matching_rules u nexts (sd_rules sd))\<rparr>) (soonest nexts))"
proof -
  have len: "length nexts = length (sd_rules sd)"
    using list_all2_lengthD [OF collect_all2 [OF assms(2)]] by simp
  have none: "filter (\<lambda>(x, r). x \<noteq> None) (zip nexts (sd_rules sd)) = [] \<longleftrightarrow> filter (\<lambda>x. x \<noteq> None) nexts = []"
    using candidate_times [OF len] by (metis map_is_Nil_conv)
  show ?thesis
    unfolding schedule_occurrence_def assms bindE_simps Let_def none soonest_def candidate_times [OF len]
      candidate_rules [OF len] by simp
qed

lemma soonest_min:
  "soonest nexts = Some u \<Longrightarrow> Some u \<in> set nexts \<and> (\<forall>v. Some v \<in> set nexts \<longrightarrow> u \<le> v)"
proof -
  assume s: "soonest nexts = Some u"
  let ?us = "map the (filter (\<lambda>x. x \<noteq> None) nexts)"
  from s have ne: "?us \<noteq> []" and u: "u = min_list ?us" by (auto simp: soonest_def Let_def split: if_splits)
  then have u: "u = Min (set ?us)" using min_list_Min [OF ne] by simp
  have mem: "v \<in> set ?us \<longleftrightarrow> Some v \<in> set nexts" for v by force
  have "set ?us \<noteq> {}" using ne by (simp only: set_empty not_False_eq_True)
  then have "u \<in> set ?us" unfolding u by (intro Min_in) (rule finite_set)
  moreover have "u \<le> v" if "v \<in> set ?us" for v unfolding u using that by (intro Min_le) (rule finite_set)
  ultimately show ?thesis unfolding mem by blast
qed

lemma soonest_None: "soonest nexts = None \<longleftrightarrow> (\<forall>v. Some v \<notin> set nexts)"
  by (auto simp: soonest_def Let_def filter_empty_conv)

text \<open>Occurrences lie after the instant asked for, whatever the zone.\<close>

lemma first_after_later: "first_after z after ws = Inr (Some u) \<Longrightarrow> after < u"
  by (induction ws) (auto simp: bindE_eq_Inr split: if_splits)

lemma occurrence_is_later:
  assumes "schedule_occurrence env config t = Inr (Some oc)"
  obtains u where "oc_timestamp oc = timestamp_of u" "instant_of t < u"
proof -
  from assms obtain sd nexts where sd: "validate_schedule_config env config = Inr sd"
    and nexts: "collect (next_rule_occurrence (sd_zone sd) (instant_of t)) (sd_rules sd) = Inr nexts"
    by (auto simp: schedule_occurrence_def bindE_eq_Inr)
  with assms obtain u where u: "soonest nexts = Some u" "oc_timestamp oc = timestamp_of u"
    by (auto simp: schedule_occurrence_cases)
  then have "Some u \<in> set nexts" using soonest_min by blast
  with collect_all2 [OF nexts] obtain r where "next_rule_occurrence (sd_zone sd) (instant_of t) r = Inr (Some u)"
    by (auto simp: list_all2_conv_all_nth in_set_conv_nth)
  then show thesis using that u first_after_later by (auto simp: next_rule_occurrence_def Let_def)
qed

section \<open>The earliest occurrence of all rules\<close>

definition schedule_occurs :: "schedule \<Rightarrow> int \<Rightarrow> bool" where
  "schedule_occurs sd u \<longleftrightarrow> list_ex (\<lambda>r. occurs_at (sd_zone sd) r u) (sd_rules sd)"

lemma matching_occurs:
  "list_all2 (\<lambda>r x. x = Some u \<longleftrightarrow> P r) rules nexts \<Longrightarrow> matching_rules u nexts rules = filter P rules"
  unfolding matching_rules_def by (induction rule: list_all2_induct) auto

text \<open>
  C31: in a civil time zone a valid schedule always has an answer.  It is \<open>None\<close> only if no rule
  occurs after the given time; otherwise it is an instant after the given time at which exactly the
  reported rules occur (at least one), and no rule occurs in between.  A rule occurs on the dates its
  declarative reading names, at its wall time or the first minute after a gap.
\<close>

theorem schedule_occurrence_exact:
  assumes "validate_schedule_config env config = Inr sd" "civil_zone (sd_zone sd)" "iso_times_ok (se_iso env)"
  shows "\<exists>answer. schedule_occurrence env config t = Inr answer \<and>
    (case answer of
       None \<Rightarrow> \<forall>u. instant_of t < u \<longrightarrow> \<not> schedule_occurs sd u
     | Some oc \<Rightarrow> \<exists>u. oc_timestamp oc = timestamp_of u \<and> instant_of t < u \<and> schedule_occurs sd u
         \<and> (\<forall>v. instant_of t < v \<and> v < u \<longrightarrow> \<not> schedule_occurs sd v)
         \<and> oc_rule_ids oc = map ru_id (filter (\<lambda>r. occurs_at (sd_zone sd) r u) (sd_rules sd)))"
proof -
  define z rules after where "z = sd_zone sd" and "rules = sd_rules sd" and "after = instant_of t"
  have ok: "rule_ok r" if "r \<in> set rules" for r
    using validated_config [OF assms(1)] validate_rules_ok [OF assms(3)] that by (metis rules_def)
  have "\<exists>nexts. collect (next_rule_occurrence z after) rules = Inr nexts
      \<and> list_all2 (\<lambda>r x. earliest {u. after < u \<and> occurs_at z r u} x) rules nexts"
    using next_rule_exact [of z _ after] assms(2) ok by (intro collect_total) (metis z_def)
  then obtain nexts where nexts: "collect (next_rule_occurrence z after) rules = Inr nexts"
    and each: "list_all2 (\<lambda>r x. earliest {u. after < u \<and> occurs_at z r u} x) rules nexts" by blast
  note ans = schedule_occurrence_cases [OF assms(1) nexts [unfolded z_def rules_def after_def]]
  have occ: "schedule_occurs sd u \<longleftrightarrow> (\<exists>r\<in>set rules. occurs_at z r u)" for u
    by (simp add: schedule_occurs_def z_def rules_def list_ex_iff)
  have later: "\<exists>v\<le>u. Some v \<in> set nexts" if "after < u" "schedule_occurs sd u" for u
    using that each list_all2_left [OF each] by (fastforce simp: occ earliest_def split: option.splits)
  show ?thesis
  proof (cases "soonest nexts")
    case None
    then have "\<forall>u. after < u \<longrightarrow> \<not> schedule_occurs sd u" using later soonest_None by blast
    then show ?thesis using ans None by (simp add: after_def)
  next
    case (Some u)
    have min: "Some u \<in> set nexts" "\<And>v. Some v \<in> set nexts \<Longrightarrow> u \<le> v" using soonest_min [OF Some] by auto
    then obtain r where "r \<in> set rules" "earliest {u. after < u \<and> occurs_at z r u} (Some u)"
      using each by (metis (no_types, lifting) in_set_conv_nth list_all2_conv_all_nth)
    then have u: "after < u" "schedule_occurs sd u" by (auto simp: earliest_def occ)
    have between: "\<not> schedule_occurs sd v" if "after < v" "v < u" for v
      using later [OF that(1)] min(2) that(2) by force
    have "list_all2 (\<lambda>r x. x = Some u \<longleftrightarrow> occurs_at z r u) rules nexts"
    proof (rule list_all2_all_nthI)
      show "length rules = length nexts" using each by (rule list_all2_lengthD)
      fix i
      assume i: "i < length rules"
      have e: "earliest {u. after < u \<and> occurs_at z (rules ! i) u} (nexts ! i)" using list_all2_nthD [OF each i] .
      have n: "nexts ! i = Some v \<Longrightarrow> u \<le> v" for v
        using min(2) [of v] i list_all2_lengthD [OF each] by (metis nth_mem)
      show "nexts ! i = Some u \<longleftrightarrow> occurs_at z (rules ! i) u"
        using e n u(1) by (force simp: earliest_def split: option.splits)
    qed
    then have "matching_rules u nexts rules = filter (\<lambda>r. occurs_at z r u) rules" by (rule matching_occurs)
    then show ?thesis using ans Some u between by (simp add: after_def z_def rules_def)
  qed
qed

section \<open>A zone with summer time\<close>

text \<open>Summer time from minute \<open>first\<close> to minute \<open>last'\<close> of the UTC clock; offsets in minutes.\<close>

definition summer_zone :: "string \<Rightarrow> int \<Rightarrow> int \<Rightarrow> int \<Rightarrow> int \<Rightarrow> zone" where
  "summer_zone name std dst first last' = \<lparr>zn_name = name,
     zn_offset = (\<lambda>u. if first * minute_us \<le> u \<and> u < last' * minute_us then dst * minute_us else std * minute_us),
     zn_wall_offset = (\<lambda>w. if (first + dst) * minute_us \<le> w \<and> w < (last' + dst) * minute_us then dst * minute_us else std * minute_us),
     zn_abbreviation = (\<lambda>u. if first * minute_us \<le> u \<and> u < last' * minute_us then ''EDT'' else ''EST'')\<rparr>"

lemma summer_zone_civil:
  assumes "std \<le> dst" "dst \<le> std + 180" "first + dst < last' + std"
  shows "civil_zone (summer_zone name std dst first last')"
proof -
  define z where "z = summer_zone name std dst first last'"
  define F L S D where "F = first * minute_us" and "L = last' * minute_us" and "S = std * minute_us" and "D = dst * minute_us"
  have wall: "wall_at z u = (if F \<le> u \<and> u < L then u + D else u + S)" for u
    by (simp add: wall_at_def z_def summer_zone_def F_def L_def S_def D_def)
  have woff: "zn_wall_offset z w = (if F + D \<le> w \<and> w < L + D then D else S)" for w
    by (simp add: z_def summer_zone_def F_def L_def S_def D_def algebra_simps)
  have SD: "S \<le> D" "D \<le> S + 180 * minute_us" "F + D < L + S"
    using assms by (simp_all add: F_def L_def S_def D_def minute_us_def)
  have pos: "0 < minute_us" by (simp add: minute_us_def)
  have off: "zn_offset z u = (if F \<le> u \<and> u < L then D else S)" for u
    by (simp add: z_def summer_zone_def F_def L_def S_def D_def)
  have "S \<le> zn_offset z u \<and> zn_offset z u \<le> S + 1200 * minute_us" for u
    using SD pos by (simp add: off)
  moreover have "w - zn_wall_offset z w \<le> u \<and> wall_at z (w - zn_wall_offset z w) = w" if "wall_at z u = w" for u w
    using that SD by (auto simp: wall woff split: if_splits)
  moreover have "\<exists>k\<le>180. (\<exists>u\<le>a. wall_at z u = (m + int k) * minute_us) \<and> (\<forall>j<k. \<forall>u. wall_at z u \<noteq> (m + int j) * minute_us)"
    if passed: "m * minute_us \<le> wall_at z a" for m a
  proof (cases "F + S \<le> m * minute_us \<and> m * minute_us < F + D")
    case gap: True
    define k where "k = nat (first + dst - m)"
    have lt: "m < first + dst" "first + std \<le> m"
      using gap pos by (simp_all add: F_def S_def D_def flip: distrib_right)
    have "int k \<le> 180" "int k = first + dst - m" using lt assms(2) by (simp_all add: k_def)
    moreover have "F \<le> a" using passed gap SD by (auto simp: wall split: if_splits)
    moreover have "wall_at z F = (m + int k) * minute_us"
      using \<open>int k = _\<close> SD by (simp add: wall F_def D_def algebra_simps)
    moreover have "wall_at z u \<noteq> (m + int j) * minute_us" if "j < k" for j u
    proof -
      have "m + int j < first + dst" using that \<open>int k = _\<close> by simp
      then have "(m + int j) * minute_us < F + D" using pos by (simp add: F_def D_def flip: distrib_right)
      moreover have "m * minute_us \<le> (m + int j) * minute_us" using pos by simp
      moreover define X where "X = (m + int j) * minute_us"
      ultimately have "F + S \<le> X" "X < F + D" using gap by simp_all
      then have "wall_at z u \<noteq> X" using SD by (auto simp: wall split: if_splits)
      then show ?thesis by (simp add: X_def)
    qed
    ultimately show ?thesis by (intro exI [of _ k]) auto
  next
    case False
    have "\<exists>u\<le>a. wall_at z u = m * minute_us"
      using passed SD False
      by (intro exI [of _ "m * minute_us - (if F + D \<le> m * minute_us \<and> m * minute_us < L + D then D else S)"])
        (auto simp: wall split: if_splits)
    then show ?thesis by (intro exI [of _ 0]) auto
  qed
  ultimately show ?thesis unfolding civil_zone_def z_def [symmetric] by blast
qed

section \<open>A sample schedule\<close>

text \<open>Eastern time in 2026: summer time from the 8th of March, 07:00 UTC, to the 1st of November, 06:00 UTC.\<close>

definition eastern :: zone where
  "eastern = summer_zone ''America/New_York'' (-300) (-240) 1065143940 1065486600"

lemma eastern_civil: "civil_zone eastern"
  unfolding eastern_def by (rule summer_zone_civil) simp_all

definition sample_env :: sched_env where
  "sample_env = \<lparr>se_zones = (\<lambda>n. if n = ''America/New_York'' then Some eastern else None), se_local = ''America/New_York'',
     se_iso = \<lparr>iso_date = (\<lambda>_. None), iso_time = (\<lambda>t. if t = ''02:30'' then Some (2, 30) else None)\<rparr>,
     se_fresh = (\<lambda>_. ''r'')\<rparr>"

definition sample_config :: "(string \<times> json) list" where
  "sample_config = [(''rules'', JList [
     JObj [(''id'', JStr ''night''), (''type'', JStr ''daily''), (''time'', JStr ''02:30'')],
     JObj [(''id'', JStr ''fifth''), (''type'', JStr ''monthly_weekday''), (''ordinal'', JInt 5), (''time'', JStr ''02:30'')]])]"

definition sample_rules :: "sched_rule list" where
  "sample_rules = [\<lparr>ru_id = ''night'', ru_hour = 2, ru_minute = 30, ru_when = Daily\<rparr>,
     \<lparr>ru_id = ''fifth'', ru_hour = 2, ru_minute = 30, ru_when = Monthly_weekday 5 0\<rparr>]"

lemma sample_valid:
  "validate_schedule_config sample_env sample_config
     = Inr \<lparr>sd_zone = eastern, sd_policy = ''grace'', sd_grace = 30, sd_rules = sample_rules\<rparr>"
proof -
  have strip: "py_strip [] = []" "py_strip ''night'' = ''night''" "py_strip ''fifth'' = ''fifth''" by code_simp+
  have ids: "rule_id_ok ''night''" "rule_id_ok ''fifth''" by code_simp+
  show ?thesis
    by (simp add: validate_schedule_config_def sample_env_def sample_config_def sample_rules_def get_or_def Let_def strip
        validate_rule_def ids rule_types_def validate_time_def validate_when_def py_str_def json_int_def)
qed

lemma schedule_occurrence_exact_witness:
  "\<exists>answer. schedule_occurrence sample_env sample_config 0 = Inr answer \<and>
    (case answer of
       None \<Rightarrow> \<forall>u. instant_of 0 < u \<longrightarrow> \<not> schedule_occurs \<lparr>sd_zone = eastern, sd_policy = ''grace'', sd_grace = 30, sd_rules = sample_rules\<rparr> u
     | Some oc \<Rightarrow> \<exists>u. oc_timestamp oc = timestamp_of u \<and> instant_of 0 < u)"
proof -
  have "iso_times_ok (se_iso sample_env)" by (simp add: iso_times_ok_def sample_env_def)
  from schedule_occurrence_exact [OF sample_valid _ this, of 0] eastern_civil
  show ?thesis by (fastforce split: option.splits)
qed

end
