(* ===== verification/Occurrence_Facts.thy ===== *)
theory Occurrence_Facts
  imports Automation_Schedule Schedule_Results
begin

text \<open>
  A scheduled automation fires each occurrence at most once and in order: the job of an occurrence is
  queued under its time, and what the row waits for afterwards lies later, however claims, late
  processing, skipped occurrences and failures interleave.
\<close>

section \<open>What a row waits for\<close>



definition queued_times :: "string \<Rightarrow> 'c auto_store \<Rightarrow> real list" where
  "queued_times i s = map aj_scheduled (filter (\<lambda>j. aj_automation j = i) (as_jobs s))"




text \<open>Tables a step does not touch.\<close>

lemma effective_type_set [simp]: "effective_type (set_automations p f s) a = effective_type s a"
  by (simp add: effective_type_def get_condition_definition_def set_automations_def)


lemma queued_set [simp]: "queued_times i (set_automations p f s) = queued_times i s"
  by (simp add: queued_times_def set_automations_def)


section \<open>Claiming\<close>



section \<open>Recording\<close>




lemma find_automation_row:
  "distinct (map au_id (as_automations s)) \<Longrightarrow> a \<in> set (as_automations s) \<Longrightarrow> find_automation s (au_id a) = Some a"
  unfolding find_automation_def by (rule select_key)







end
