(* ===== verification/Schedule_Witnesses.thy ===== *)
theory Schedule_Witnesses
  imports Automation_Witnesses Occurrence_Facts
begin



end
