(* ===== verification/Telnet_Channel.thy ===== *)
theory Telnet_Channel
  imports Prelude
begin

text \<open>
  \<open>TelnetChannel\<close> of \<open>telnet_client.py\<close>: the client side of a Telnet connection, shaped like an
  interactive channel.  Received bytes pass through a state machine that answers option
  negotiation and hands on what the terminal shows; bytes of an incomplete command wait in
  \<open>tn_pending\<close> for the next read.

  The socket is the argument \<open>accepts\<close>: whether \<open>connection.sendall\<close> takes a text after the ones
  it has already taken, which \<open>tn_sent\<close> lists.  An exception leaves \<open>_consume\<close> where it is raised,
  so every operation returns the channel together with the result.
\<close>

section \<open>Codes\<close>

definition iac :: byte where "iac = 255"
definition dont_cmd :: byte where "dont_cmd = 254"
definition do_cmd :: byte where "do_cmd = 253"
definition wont_cmd :: byte where "wont_cmd = 252"
definition will_cmd :: byte where "will_cmd = 251"
definition sb_cmd :: byte where "sb_cmd = 250"
definition se_cmd :: byte where "se_cmd = 240"

definition opt_binary :: byte where "opt_binary = 0"
definition opt_echo :: byte where "opt_echo = 1"
definition opt_suppress_go_ahead :: byte where "opt_suppress_go_ahead = 3"
definition opt_terminal_type :: byte where "opt_terminal_type = 24"
definition opt_window_size :: byte where "opt_window_size = 31"
definition terminal_type_is :: byte where "terminal_type_is = 0"
definition terminal_type_send :: byte where "terminal_type_send = 1"

lemmas telnet_codes = iac_def dont_cmd_def do_cmd_def wont_cmd_def will_cmd_def sb_cmd_def se_cmd_def
  opt_binary_def opt_echo_def opt_suppress_go_ahead_def opt_terminal_type_def opt_window_size_def
  terminal_type_is_def terminal_type_send_def

section \<open>Searching and replacing bytes\<close>

text \<open>\<open>data.find(needle)\<close>; \<open>None\<close> stands for -1.\<close>

fun find_bytes :: "'a list \<Rightarrow> 'a list \<Rightarrow> nat option" where
  "find_bytes needle [] = (if needle = [] then Some 0 else None)"
| "find_bytes needle (x # xs) =
     (if take (length needle) (x # xs) = needle then Some 0 else map_option Suc (find_bytes needle xs))"

text \<open>\<open>data.replace(old, new)\<close> for an \<open>old\<close> that is not empty: occurrences from the left, not overlapping.\<close>

function replace_bytes :: "'a list \<Rightarrow> 'a list \<Rightarrow> 'a list \<Rightarrow> 'a list" where
  "replace_bytes old new [] = []"
| "replace_bytes old new (x # xs) =
     (if old \<noteq> [] \<and> take (length old) (x # xs) = old
      then new @ replace_bytes old new (drop (length old) (x # xs)) else x # replace_bytes old new xs)"
  by pat_completeness auto
termination by (relation "measure (length \<circ> snd \<circ> snd)") auto

section \<open>The channel\<close>

record telnet =
  tn_width :: int
  tn_height :: int
  tn_closed :: bool
  tn_pending :: bytes
  tn_local :: "byte set"
  tn_remote :: "byte set"
  tn_sent :: "bytes list"

definition new_channel :: "int \<Rightarrow> int \<Rightarrow> telnet" where
  "new_channel width height = \<lparr>tn_width = width, tn_height = height, tn_closed = False, tn_pending = [],
     tn_local = {}, tn_remote = {}, tn_sent = []\<rparr>"

type_synonym acceptance = "bytes list \<Rightarrow> bytes \<Rightarrow> bool"
type_synonym 'a telnet_step = "'a result \<times> telnet"

text \<open>Two operations in a row: an exception of the first leaves at once.\<close>

definition andthen :: "'a telnet_step \<Rightarrow> ('a \<Rightarrow> telnet \<Rightarrow> 'b telnet_step) \<Rightarrow> 'b telnet_step" where
  "andthen r f = (case r of (Inl e, t) \<Rightarrow> (Inl e, t) | (Inr x, t) \<Rightarrow> f x t)"

lemma andthen_simps [simp]: "andthen (Inl e, t) f = (Inl e, t)" "andthen (Inr x, t) f = f x t"
  by (simp_all add: andthen_def)

definition socket_send :: "acceptance \<Rightarrow> bytes \<Rightarrow> telnet \<Rightarrow> unit telnet_step" where
  "socket_send accepts data t =
     (if accepts (tn_sent t) data then (Inr (), t\<lparr>tn_sent := tn_sent t @ [data]\<rparr>)
      else (Inl (OSError ''send failed''), t))"

definition send_raw :: "acceptance \<Rightarrow> bytes \<Rightarrow> telnet \<Rightarrow> unit telnet_step" where
  "send_raw accepts data t =
     (if tn_closed t then (Inl (OSError ''Telnet connection is closed''), t) else socket_send accepts data t)"

definition send_command :: "acceptance \<Rightarrow> byte \<Rightarrow> byte \<Rightarrow> telnet \<Rightarrow> unit telnet_step" where
  "send_command accepts command option t = send_raw accepts [iac, command, option] t"

text \<open>\<open>int.to_bytes(2, 'big')\<close>.\<close>

definition to_bytes2 :: "int \<Rightarrow> bytes result" where
  "to_bytes2 n = (if 0 \<le> n \<and> n < 65536 then Inr (be16 (nat n)) else Inl OverflowError)"

definition send_window_size :: "acceptance \<Rightarrow> telnet \<Rightarrow> unit telnet_step" where
  "send_window_size accepts t =
     (case bindE (to_bytes2 (tn_width t)) (\<lambda>w. bindE (to_bytes2 (tn_height t)) (\<lambda>h. Inr (w @ h))) of
        Inl e \<Rightarrow> (Inl e, t)
      | Inr payload \<Rightarrow>
          send_raw accepts ([iac, sb_cmd, opt_window_size] @ replace_bytes [iac] [iac, iac] payload @ [iac, se_cmd]) t)"

definition supported_local :: "byte list" where
  "supported_local = [opt_binary, opt_suppress_go_ahead, opt_terminal_type, opt_window_size]"

definition supported_remote :: "byte list" where
  "supported_remote = [opt_binary, opt_echo, opt_suppress_go_ahead]"

definition negotiate :: "acceptance \<Rightarrow> byte \<Rightarrow> byte \<Rightarrow> telnet \<Rightarrow> unit telnet_step" where
  "negotiate accepts command option t =
     (if command = do_cmd then
        (if option \<in> set supported_local then
           (if option \<in> tn_local t then (Inr (), t)
            else andthen (send_command accepts will_cmd option (t\<lparr>tn_local := insert option (tn_local t)\<rparr>))
              (\<lambda>_ t. if option = opt_window_size then send_window_size accepts t else (Inr (), t)))
         else send_command accepts wont_cmd option t)
      else if command = dont_cmd then
        (if option \<in> tn_local t then send_command accepts wont_cmd option (t\<lparr>tn_local := tn_local t - {option}\<rparr>)
         else (Inr (), t))
      else if command = will_cmd then
        (if option \<in> set supported_remote then
           (if option \<in> tn_remote t then (Inr (), t)
            else send_command accepts do_cmd option (t\<lparr>tn_remote := insert option (tn_remote t)\<rparr>))
         else send_command accepts dont_cmd option t)
      else if option \<in> tn_remote t
        then send_command accepts dont_cmd option (t\<lparr>tn_remote := tn_remote t - {option}\<rparr>)
      else (Inr (), t))"

text \<open>The bytes of \<open>b"xterm-256color"\<close>.\<close>

definition terminal_name :: bytes where
  "terminal_name = [120, 116, 101, 114, 109, 45, 50, 53, 54, 99, 111, 108, 111, 114]"

definition subnegotiate :: "acceptance \<Rightarrow> bytes \<Rightarrow> telnet \<Rightarrow> unit telnet_step" where
  "subnegotiate accepts payload t =
     (if 2 \<le> length payload \<and> payload ! 0 = opt_terminal_type \<and> payload ! 1 = terminal_type_send
         \<and> opt_terminal_type \<in> tn_local t
      then send_raw accepts ([iac, sb_cmd, opt_terminal_type, terminal_type_is] @ terminal_name @ [iac, se_cmd]) t
      else (Inr (), t))"

section \<open>Reading\<close>

text \<open>
  The loop of \<open>_consume\<close> over \<open>data[index:]\<close>; \<open>visible\<close> is what the terminal shows so far.  A
  command that is not complete is kept for the next read.
\<close>

definition keep_pending :: "bytes \<Rightarrow> bytes \<Rightarrow> telnet \<Rightarrow> bytes telnet_step" where
  "keep_pending visible rest t = (Inr visible, t\<lparr>tn_pending := tn_pending t @ rest\<rparr>)"

function consume_loop :: "acceptance \<Rightarrow> bytes \<Rightarrow> bytes \<Rightarrow> telnet \<Rightarrow> bytes telnet_step" where
  "consume_loop accepts visible [] t = (Inr visible, t)"
| "consume_loop accepts visible (b # rest) t =
     (if b \<noteq> iac then consume_loop accepts (visible @ [b]) rest t
      else case rest of [] \<Rightarrow> keep_pending visible (b # rest) t
      | command # args \<Rightarrow>
          if command = iac then consume_loop accepts (visible @ [iac]) args t
          else if command \<in> set [do_cmd, dont_cmd, will_cmd, wont_cmd] then
            (case args of [] \<Rightarrow> keep_pending visible (b # rest) t
             | option # others \<Rightarrow>
                 andthen (negotiate accepts command option t) (\<lambda>_. consume_loop accepts visible others))
          else if command = sb_cmd then
            (case find_bytes [iac, se_cmd] args of None \<Rightarrow> keep_pending visible (b # rest) t
             | Some n \<Rightarrow>
                 andthen (subnegotiate accepts (take n args) t)
                   (\<lambda>_. consume_loop accepts visible (drop (n + 2) args)))
          else consume_loop accepts visible args t)"
  by pat_completeness auto
termination by (relation "measure (\<lambda>(a, v, r, t). length r)") auto

declare consume_loop.simps [simp del]

definition consume :: "acceptance \<Rightarrow> bytes \<Rightarrow> telnet \<Rightarrow> bytes telnet_step" where
  "consume accepts raw t = consume_loop accepts [] (tn_pending t @ raw) (t\<lparr>tn_pending := []\<rparr>)"

text \<open>\<open>recv\<close>, given what the socket returned: \<open>None\<close> when nothing of it is visible.\<close>

definition recv :: "acceptance \<Rightarrow> bytes \<Rightarrow> telnet \<Rightarrow> bytes option telnet_step" where
  "recv accepts raw t =
     (if raw = [] then (Inr (Some []), t\<lparr>tn_closed := True\<rparr>)
      else andthen (consume accepts raw t) (\<lambda>visible t. (Inr (if visible = [] then None else Some visible), t)))"

section \<open>Writing\<close>

definition cr :: byte where "cr = 13"
definition lf :: byte where "lf = 10"

definition unix_lines :: "bytes \<Rightarrow> bytes" where
  "unix_lines data = replace_bytes [cr] [lf] (replace_bytes [cr, lf] [lf] data)"

definition wire_text :: "bytes \<Rightarrow> bytes" where
  "wire_text data = replace_bytes [iac] [iac, iac] (replace_bytes [lf] [cr, lf] (unix_lines data))"

definition send_all :: "acceptance \<Rightarrow> bytes \<Rightarrow> telnet \<Rightarrow> unit telnet_step" where
  "send_all accepts data t =
     (if tn_closed t then (Inl (OSError ''Telnet connection is closed''), t)
      else socket_send accepts (wire_text data) t)"

definition resize_pty :: "acceptance \<Rightarrow> int \<Rightarrow> int \<Rightarrow> telnet \<Rightarrow> unit telnet_step" where
  "resize_pty accepts width height t =
     (let t = t\<lparr>tn_width := width, tn_height := height\<rparr>
      in if opt_window_size \<in> tn_local t then send_window_size accepts t else (Inr (), t))"

definition close_channel :: "telnet \<Rightarrow> telnet" where
  "close_channel t = (if tn_closed t then t else t\<lparr>tn_closed := True\<rparr>)"

end
