(* ===== verification/Telnet_Facts.thy ===== *)
theory Telnet_Facts
  imports Telnet_Channel
begin

text \<open>
  What the Telnet channel guarantees: reading does not depend on how the network cuts the stream
  into reads, bytes that are written are read back by the same machine, and the option sets stay
  within what the client supports.
\<close>

section \<open>Effects of answering\<close>

text \<open>Everything an answer may touch is the option sets and the list of sent texts.\<close>

definition channel_evolves :: "telnet \<Rightarrow> telnet \<Rightarrow> bool" where
  "channel_evolves t u \<longleftrightarrow> tn_pending u = tn_pending t \<and> tn_closed u = tn_closed t
     \<and> tn_local u \<subseteq> tn_local t \<union> set supported_local \<and> tn_remote u \<subseteq> tn_remote t \<union> set supported_remote"

named_theorems evolve "operations whose channel channel_evolves from the first one"

lemma channel_evolves_refl [evolve]: "channel_evolves t t"
  by (simp add: channel_evolves_def)

lemma channel_evolves_send [evolve]: "channel_evolves t u \<Longrightarrow> channel_evolves t (snd (send_raw acc d u))"
  by (simp add: channel_evolves_def send_raw_def socket_send_def)

lemma channel_evolves_window [evolve]: "channel_evolves t u \<Longrightarrow> channel_evolves t (snd (send_window_size acc u))"
  by (simp add: send_window_size_def channel_evolves_send split: sum.splits)

lemma channel_evolves_andthen [evolve]:
  "channel_evolves t (snd r) \<Longrightarrow> (\<And>x u. channel_evolves t u \<Longrightarrow> channel_evolves t (snd (f x u))) \<Longrightarrow> channel_evolves t (snd (andthen r f))"
  by (cases r) (auto simp: andthen_def split: sum.splits)

lemma channel_evolves_options [evolve]:
  "opt \<in> set supported_local \<Longrightarrow> channel_evolves t (t\<lparr>tn_local := insert opt (tn_local t)\<rparr>)"
  "opt \<in> set supported_remote \<Longrightarrow> channel_evolves t (t\<lparr>tn_remote := insert opt (tn_remote t)\<rparr>)"
  "channel_evolves t (t\<lparr>tn_local := tn_local t - {opt}\<rparr>)" "channel_evolves t (t\<lparr>tn_remote := tn_remote t - {opt}\<rparr>)"
  by (auto simp: channel_evolves_def)

lemma channel_evolves_if [evolve]: "channel_evolves t (snd r) \<Longrightarrow> channel_evolves t (snd r') \<Longrightarrow> channel_evolves t (snd (if c then r else r'))"
  by simp

lemma negotiate_evolves: "channel_evolves t (snd (negotiate acc c opt t))"
  unfolding negotiate_def send_command_def
  by (cases "opt \<in> set supported_local"; cases "opt \<in> set supported_remote") (simp_all add: evolve)

lemma subnegotiate_evolves: "channel_evolves t (snd (subnegotiate acc p t))"
  by (simp add: subnegotiate_def evolve)

section \<open>One step of the reading loop\<close>

text \<open>The cases of the loop, once for all proofs about it.\<close>

lemma loop_plain: "b \<noteq> iac \<Longrightarrow> consume_loop acc v (b # r) t = consume_loop acc (v @ [b]) r t"
  by (simp add: consume_loop.simps)

lemma loop_alone: "consume_loop acc v [iac] t = keep_pending v [iac] t"
  by (simp add: consume_loop.simps)

lemma loop_escaped: "consume_loop acc v (iac # iac # r) t = consume_loop acc (v @ [iac]) r t"
  by (simp add: consume_loop.simps)

definition negotiates :: "byte \<Rightarrow> bool" where
  "negotiates c \<longleftrightarrow> c \<in> set [do_cmd, dont_cmd, will_cmd, wont_cmd]"

lemma loop_negotiate:
  assumes "negotiates c"
  shows "consume_loop acc v [iac, c] t = keep_pending v [iac, c] t"
    "consume_loop acc v (iac # c # opt # r) t = andthen (negotiate acc c opt t) (\<lambda>_. consume_loop acc v r)"
  using assms by (auto simp: consume_loop.simps negotiates_def telnet_codes)

lemma loop_sub:
  "consume_loop acc v (iac # sb_cmd # r) t = (case find_bytes [iac, se_cmd] r of
       None \<Rightarrow> keep_pending v (iac # sb_cmd # r) t
     | Some n \<Rightarrow> andthen (subnegotiate acc (take n r) t) (\<lambda>_. consume_loop acc v (drop (n + 2) r)))"
proof -
  have "sb_cmd \<noteq> iac" "sb_cmd \<notin> set [do_cmd, dont_cmd, will_cmd, wont_cmd]" by (simp_all add: telnet_codes)
  then show ?thesis by (simp add: consume_loop.simps)
qed

lemma loop_other:
  "c \<noteq> iac \<Longrightarrow> \<not> negotiates c \<Longrightarrow> c \<noteq> sb_cmd \<Longrightarrow> consume_loop acc v (iac # c # r) t = consume_loop acc v r t"
  by (simp add: consume_loop.simps negotiates_def)

lemmas loop_steps = loop_plain loop_alone loop_escaped loop_negotiate loop_sub loop_other

text \<open>Induction over the commands of the input, whatever the accumulator and the channel.\<close>

lemma loop_induct [case_names Nil plain alone escaped cut negotiate sub other]:
  assumes "P []"
    and "\<And>b r. b \<noteq> iac \<Longrightarrow> P r \<Longrightarrow> P (b # r)"
    and "P [iac]"
    and "\<And>r. P r \<Longrightarrow> P (iac # iac # r)"
    and "\<And>c. negotiates c \<Longrightarrow> P [iac, c]"
    and "\<And>c opt r. negotiates c \<Longrightarrow> P r \<Longrightarrow> P (iac # c # opt # r)"
    and "\<And>r. (\<And>n. find_bytes [iac, se_cmd] r = Some n \<Longrightarrow> P (drop (n + 2) r)) \<Longrightarrow> P (iac # sb_cmd # r)"
    and "\<And>c r. c \<noteq> iac \<Longrightarrow> \<not> negotiates c \<Longrightarrow> c \<noteq> sb_cmd \<Longrightarrow> P r \<Longrightarrow> P (iac # c # r)"
  shows "P r"
proof (induction "length r" arbitrary: r rule: less_induct)
  case less
  show ?case
  proof (cases r)
    case Nil
    then show ?thesis using assms(1) by simp
  next
    case (Cons b rest)
    show ?thesis
    proof (cases "b = iac")
      case False
      then show ?thesis using Cons less assms(2) by simp
    next
      case b: True
      show ?thesis
      proof (cases rest)
        case Nil
        then show ?thesis using Cons b assms(3) by simp
      next
        case (Cons c args)
        have r: "r = iac # c # args" using \<open>r = b # rest\<close> b Cons by simp
        consider "c = iac" | "negotiates c" | "c = sb_cmd" | "c \<noteq> iac" "\<not> negotiates c" "c \<noteq> sb_cmd" by blast
        then show ?thesis
        proof cases
          case 2
          then show ?thesis using r less assms(5, 6) by (cases args) simp_all
        next
          case 3
          have "P (drop (n + 2) args)" for n using less r by simp
          then show ?thesis using r 3 assms(7) by blast
        qed (use r less assms(4, 8) in simp_all)
      qed
    qed
  qed
qed

section \<open>Reads may be cut anywhere\<close>

definition shift_visible :: "bytes \<Rightarrow> bytes telnet_step \<Rightarrow> bytes telnet_step" where
  "shift_visible u r = andthen r (\<lambda>v t. (Inr (u @ v), t))"

lemma shift_andthen: "shift_visible u (andthen r f) = andthen r (\<lambda>x t. shift_visible u (f x t))"
  by (cases r) (auto simp: shift_visible_def andthen_def split: sum.splits)

lemma andthen_cong: "(\<And>x t. f x t = g x t) \<Longrightarrow> andthen r f = andthen r g"
  by (cases r) (auto simp: andthen_def split: sum.splits)

lemma loop_shift: "consume_loop acc (u @ v) r t = shift_visible u (consume_loop acc v r t)"
proof (induction r arbitrary: v t rule: loop_induct)
  case (plain b r)
  then show ?case using plain(2) [of "v @ [b]"] by (simp add: loop_plain)
next
  case (escaped r)
  then show ?case using escaped [of "v @ [iac]"] by (simp add: loop_escaped)
next
  case (negotiate c opt r)
  show ?case unfolding loop_negotiate(2) [OF negotiate(1)] shift_andthen
    by (rule andthen_cong) (rule negotiate(2))
next
  case (sub r)
  show ?case
  proof (cases "find_bytes [iac, se_cmd] r")
    case None
    then show ?thesis by (simp add: loop_sub keep_pending_def shift_visible_def [of u "(_, _)"])
  next
    case (Some n)
    show ?thesis unfolding loop_sub Some option.case shift_andthen
      by (rule andthen_cong) (rule sub [OF Some])
  qed
qed (simp_all add: loop_steps consume_loop.simps(1) keep_pending_def shift_visible_def [of u "(_, _)"])

lemma loop_from: "consume_loop acc v r t = shift_visible v (consume_loop acc [] r t)"
  using loop_shift [of acc v "[]"] by simp

lemma find_bytes_append:
  "find_bytes needle xs = Some n \<Longrightarrow> find_bytes needle (xs @ ys) = Some n \<and> n + length needle \<le> length xs"
proof (induction xs arbitrary: n)
  case Nil
  then show ?case by (cases ys) (auto split: if_splits)
next
  case (Cons x xs)
  show ?case
  proof (cases "take (length needle) (x # xs) = needle")
    case True
    then have "length needle \<le> length (x # xs)"
      by (metis length_take min.absorb_iff2 min.commute nle_le)
    moreover from this True have "take (length needle) (x # xs @ ys) = needle"
      by (simp flip: append_Cons)
    ultimately show ?thesis using True Cons.prems by simp
  next
    case False
    with Cons.prems obtain m where m: "find_bytes needle xs = Some m" "n = Suc m" by auto
    have no: "take (length needle) (x # (xs @ ys)) \<noteq> needle"
    proof
      assume eq: "take (length needle) (x # xs @ ys) = needle"
      have "length needle \<le> length (x # xs)" using Cons.IH [OF m(1)] by simp
      then have "take (length needle) (x # xs) = needle" using eq by (simp flip: append_Cons)
      with False show False by simp
    qed
    show ?thesis using Cons.IH [OF m(1)] m no by simp
  qed
qed

text \<open>The channel between two reads: what was not complete is put back in front.\<close>

definition resume :: "acceptance \<Rightarrow> bytes \<Rightarrow> bytes telnet_step \<Rightarrow> bytes telnet_step" where
  "resume acc b r = andthen r (\<lambda>v t. consume_loop acc v (tn_pending t @ b) (t\<lparr>tn_pending := []\<rparr>))"

lemma resume_andthen: "resume acc b (andthen r f) = andthen r (\<lambda>x t. resume acc b (f x t))"
  by (cases r) (auto simp: resume_def andthen_def split: sum.splits)

lemma andthen_cong_pending:
  "tn_pending (snd r) = [] \<Longrightarrow> (\<And>x t. tn_pending t = [] \<Longrightarrow> f x t = g x t) \<Longrightarrow> andthen r f = andthen r g"
  by (cases r) (auto simp: andthen_def split: sum.splits)

lemma no_pending_update: "tn_pending t = [] \<Longrightarrow> t\<lparr>tn_pending := []\<rparr> = t"
  by (cases t) simp

lemma pending_again: "tn_pending t = [] \<Longrightarrow> t\<lparr>tn_pending := xs, tn_pending := []\<rparr> = t"
  by (cases t) simp

lemma resume_kept: "tn_pending t = [] \<Longrightarrow> resume acc b (keep_pending v r t) = consume_loop acc v (r @ b) t"
  by (simp add: resume_def keep_pending_def no_pending_update)

lemma loop_append:
  "tn_pending t = [] \<Longrightarrow> consume_loop acc v (r @ b) t = resume acc b (consume_loop acc v r t)"
proof (induction r arbitrary: v t rule: loop_induct)
  case Nil
  then show ?case by (simp add: resume_def consume_loop.simps(1) no_pending_update)
next
  case (negotiate c opt r)
  have "tn_pending (snd (negotiate acc c opt t)) = []" using negotiate_evolves negotiate.prems by (simp add: channel_evolves_def)
  then show ?case
    using negotiate by (simp add: loop_negotiate resume_andthen) (rule andthen_cong_pending, simp_all)
next
  case (sub r)
  show ?case
  proof (cases "find_bytes [iac, se_cmd] r")
    case None
    then show ?thesis using resume_kept [OF sub.prems, of acc b v "iac # sb_cmd # r"] by (simp add: loop_sub)
  next
    case (Some n)
    have n: "find_bytes [iac, se_cmd] (r @ b) = Some n" "n + 2 \<le> length r"
      using find_bytes_append [OF Some, of b] by simp_all
    have "tn_pending (snd (subnegotiate acc (take n r) t)) = []" using subnegotiate_evolves sub.prems by (simp add: channel_evolves_def)
    then show ?thesis
      using sub.IH [OF Some] n Some by (simp add: loop_sub resume_andthen) (rule andthen_cong_pending, simp_all)
  qed
qed (simp_all add: loop_steps resume_kept)

lemma consume_append:
  "consume acc (a @ b) t =
     andthen (consume acc a t) (\<lambda>v t. andthen (consume acc b t) (\<lambda>w t. (Inr (v @ w), t)))"
proof -
  have "consume acc (a @ b) t = resume acc b (consume acc a t)"
    using loop_append [of "t\<lparr>tn_pending := []\<rparr>" acc "[]" "tn_pending t @ a" b] by (simp add: consume_def)
  also have "\<dots> = andthen (consume acc a t) (\<lambda>v t. shift_visible v (consume acc b t))"
    unfolding resume_def consume_def [of acc b] by (intro andthen_cong) (rule loop_from)
  finally show ?thesis by (simp add: shift_visible_def)
qed

text \<open>Reading a list of chunks one after the other.\<close>

fun read_all :: "acceptance \<Rightarrow> bytes list \<Rightarrow> telnet \<Rightarrow> bytes telnet_step" where
  "read_all acc [] t = (Inr [], t)"
| "read_all acc (c # cs) t =
     andthen (consume acc c t) (\<lambda>v t. andthen (read_all acc cs t) (\<lambda>w t. (Inr (v @ w), t)))"

lemma andthen_assoc: "andthen (andthen r f) g = andthen r (\<lambda>x t. andthen (f x t) g)"
  by (cases r) (auto simp: andthen_def split: sum.splits)

lemma andthen_return [simp]: "andthen r (\<lambda>x t. (Inr x, t)) = r"
  by (cases r) (auto simp: andthen_def split: sum.splits)

lemma read_all_joins: "read_all acc (c # cs) t = consume acc (c @ concat cs) t"
proof (induction cs arbitrary: c t)
  case Nil
  then show ?case by simp
next
  case (Cons d cs)
  have "read_all acc (c # d # cs) t
      = andthen (consume acc c t) (\<lambda>v t. andthen (consume acc (d @ concat cs) t) (\<lambda>w t. (Inr (v @ w), t)))"
    unfolding read_all.simps(2) [of acc c "d # cs"] by (intro andthen_cong) (simp only: Cons.IH)
  also have "\<dots> = consume acc (c @ d @ concat cs) t" by (rule consume_append [symmetric])
  finally show ?case by simp
qed

text \<open>
  C30: reading the chunks of a connection one after the other shows the same text, sends the same
  answers, ends with the same exception or none, and leaves the same channel, as reading all of
  them at once: where the network cuts the stream does not matter, even inside a command.
\<close>

theorem telnet_reads_compose:
  "read_all acc (c # cs) t = consume acc (c @ concat cs) t"
  by (rule read_all_joins)

section \<open>What is written is read back\<close>

text \<open>The text \<open>sendall\<close> puts on the wire, before its IAC bytes are doubled.\<close>

definition network_lines :: "bytes \<Rightarrow> bytes" where
  "network_lines data = replace_bytes [lf] [cr, lf] (unix_lines data)"

lemma loop_doubled:
  "consume_loop acc v (replace_bytes [iac] [iac, iac] d @ r) t = consume_loop acc (v @ d) r t"
  by (induction d arbitrary: v) (simp_all add: loop_escaped loop_plain)

lemma written_text_reads_back:
  assumes "tn_pending t = []"
  shows "consume acc (wire_text d) t = (Inr (network_lines d), t)"
  using loop_doubled [of acc "[]" "network_lines d" "[]" t] assms
  by (simp add: consume_def wire_text_def network_lines_def consume_loop.simps(1) no_pending_update)

lemma written_text_reads_back_in_chunks:
  assumes "tn_pending t = []" "c @ concat cs = wire_text d"
  shows "read_all acc (c # cs) t = (Inr (network_lines d), t)"
  using read_all_joins [of acc c cs t] written_text_reads_back [OF assms(1)] assms(2) by simp

section \<open>The options\<close>

definition options_known :: "telnet \<Rightarrow> bool" where
  "options_known t \<longleftrightarrow> tn_local t \<subseteq> set supported_local \<and> tn_remote t \<subseteq> set supported_remote"

lemma channel_evolves_known: "channel_evolves t u \<Longrightarrow> options_known t \<Longrightarrow> options_known u"
  by (auto simp: channel_evolves_def options_known_def)

lemma loop_options: "options_known t \<Longrightarrow> options_known (snd (consume_loop acc v r t))"
proof (induction r arbitrary: v t rule: loop_induct)
  case (negotiate c opt r)
  from channel_evolves_known [OF negotiate_evolves negotiate.prems, of acc c opt] negotiate.IH show ?case using negotiate.hyps
    by (cases "negotiate acc c opt t") (auto simp: loop_negotiate andthen_def split: sum.splits)
next
  case (sub r)
  show ?case
  proof (cases "find_bytes [iac, se_cmd] r")
    case None
    then show ?thesis using sub.prems by (simp add: loop_sub keep_pending_def options_known_def)
  next
    case (Some n)
    then show ?thesis using channel_evolves_known [OF subnegotiate_evolves sub.prems, of acc "take n r"] sub.IH [OF Some]
      by (cases "subnegotiate acc (take n r) t") (auto simp: loop_sub andthen_def split: sum.splits)
  qed
qed (simp_all add: loop_steps consume_loop.simps(1) keep_pending_def options_known_def)

text \<open>A request that repeats what is already in force is not answered.\<close>

lemma settled_options_are_silent:
  "options_known t \<Longrightarrow> opt \<in> tn_local t \<Longrightarrow> negotiate acc do_cmd opt t = (Inr (), t)"
  "opt \<notin> tn_local t \<Longrightarrow> negotiate acc dont_cmd opt t = (Inr (), t)"
  "options_known t \<Longrightarrow> opt \<in> tn_remote t \<Longrightarrow> negotiate acc will_cmd opt t = (Inr (), t)"
  "opt \<notin> tn_remote t \<Longrightarrow> negotiate acc wont_cmd opt t = (Inr (), t)"
  by (auto simp: negotiate_def options_known_def telnet_codes)

end
