(* ===== verification/Uploads.thy ===== *)
theory Uploads
  imports Prelude
begin

text \<open>
  \<open>uploads.py\<close>: an upload is written to a private staging file under a reservation in a registry that
  all processes share, and becomes visible only when \<open>commit\<close> links it into place.  Every step that
  looks at the registry holds its lock, so the steps of several uploads interleave whole.

  The state is what the lock protects (the published files and the registry) together with the
  private fields of each upload object.  What the system answers is an argument of each step: the free
  disk space, whether the destination folder is still the one that was opened, whether a write goes
  through.  Symbolic links, the check that staging and destination share a file system, multipart
  reading and external writers are left out; an owner that died is an upload that is closed.
\<close>

section \<open>State\<close>

text \<open>Roots that are accounted: the datastore, the artifact areas, and the runtime folders.\<close>

datatype upload_root = Datastore_root | Artifact_root string | Runtime_root string

text \<open>\<open>_identity\<close> of a file: the stamp of its inode and times, and its size.\<close>

type_synonym identity = "nat \<times> nat"

record stored_file =
  sf_root :: upload_root
  sf_path :: string
  sf_stamp :: nat
  sf_content :: bytes

record upload =
  up_token :: string
  up_root :: upload_root
  up_path :: string
  up_original :: "identity option"
  up_capacity :: int
  up_staging :: bool
  up_max :: int
  up_overwrite :: bool
  up_expected :: "int option"
  up_total :: int
  up_closed :: bool
  up_committed :: bool
  up_buffer :: bytes
  up_file :: bytes

record upload_world =
  uw_files :: "stored_file list"
  uw_uploads :: "upload list"
  uw_stamp :: nat

record upload_env =
  ue_quota_gib :: int
  ue_artifact_gib :: int
  ue_free_gib :: int
  ue_free :: int
  ue_parent_ok :: bool
  ue_write_ok :: bool

definition buffer_bytes :: nat where "buffer_bytes = 262144"
definition reservation_bytes :: int where "reservation_bytes = 1048576"
definition max_reservation_step :: int where "max_reservation_step = 67108864"
definition gib :: int where "gib = 1073741824"

section \<open>Accounting\<close>

definition file_at :: "upload_world \<Rightarrow> upload_root \<Rightarrow> string \<Rightarrow> stored_file option" where
  "file_at w r p = select_first (\<lambda>f. sf_root f = r \<and> sf_path f = p) (uw_files w)"

definition identity_at :: "upload_world \<Rightarrow> upload_root \<Rightarrow> string \<Rightarrow> identity option" where
  "identity_at w r p = map_option (\<lambda>f. (sf_stamp f, length (sf_content f))) (file_at w r p)"

text \<open>\<open>_credit\<close>: an unchanged destination is going to be replaced.\<close>

definition credit :: "upload_world \<Rightarrow> upload \<Rightarrow> int" where
  "credit w u = (case up_original u of None \<Rightarrow> 0
     | Some i \<Rightarrow> if identity_at w (up_root u) (up_path u) = Some i then int (snd i) else 0)"

text \<open>\<open>directory_bytes\<close> of a root.\<close>

definition root_bytes :: "(upload_root \<Rightarrow> bool) \<Rightarrow> upload_world \<Rightarrow> int" where
  "root_bytes p w = sum_list (map (\<lambda>f. int (length (sf_content f))) (filter (\<lambda>f. p (sf_root f)) (uw_files w)))"

definition is_artifact :: "upload_root \<Rightarrow> bool" where
  "is_artifact r = (case r of Artifact_root _ \<Rightarrow> True | _ \<Rightarrow> False)"

text \<open>\<open>_records\<close>: what the registry holds of live owners.\<close>

definition live_records :: "upload_world \<Rightarrow> upload list" where
  "live_records w = filter (\<lambda>u. \<not> up_closed u) (uw_uploads w)"

definition same_account :: "upload \<Rightarrow> upload \<Rightarrow> bool" where
  "same_account u r = ((if is_artifact (up_root u) then is_artifact (up_root r) else up_root r = up_root u) \<and> \<not> up_staging r)"

definition pending_bytes :: "upload_world \<Rightarrow> upload \<Rightarrow> int" where
  "pending_bytes w u = sum_list (map (\<lambda>r. max 0 (up_capacity r - int (length (up_file r))))
     (filter (\<lambda>r. up_token r \<noteq> up_token u) (live_records w)))"

definition growth_bytes :: "upload_world \<Rightarrow> upload \<Rightarrow> int" where
  "growth_bytes w u = sum_list (map (\<lambda>r. max 0 (up_capacity r - credit w r))
     (filter (\<lambda>r. up_token r \<noteq> up_token u \<and> same_account u r) (live_records w)))"

text \<open>\<open>_capacity\<close>.\<close>

definition logical_limit :: "upload_env \<Rightarrow> upload_world \<Rightarrow> upload \<Rightarrow> int" where
  "logical_limit e w u =
     (if up_root u = Datastore_root \<and> \<not> up_staging u
      then ue_quota_gib e * gib - root_bytes (\<lambda>r. r = Datastore_root) w + credit w u - growth_bytes w u
      else if is_artifact (up_root u) \<and> \<not> up_staging u
      then ue_artifact_gib e * gib - root_bytes is_artifact w + credit w u - growth_bytes w u
      else up_max u)"

definition physical_limit :: "upload_env \<Rightarrow> upload_world \<Rightarrow> upload \<Rightarrow> int" where
  "physical_limit e w u = int (length (up_file u)) + ue_free e - ue_free_gib e * gib - pending_bytes w u"

text \<open>\<open>_reserve\<close>: the upload with its new capacity.\<close>

definition reserve :: "upload_env \<Rightarrow> upload_world \<Rightarrow> int \<Rightarrow> bool \<Rightarrow> upload \<Rightarrow> upload result" where
  "reserve e w needed exact u =
     (if logical_limit e w u < needed then Inl (ValueError ''The configured storage quota would be exceeded.'')
      else if physical_limit e w u < needed
        then Inl (ValueError ''The upload would cross the configured minimum free-disk reserve.'')
      else let step = min max_reservation_step (max reservation_bytes (up_capacity u));
               desired = (if exact then needed else max needed (up_capacity u + step))
        in Inr (u\<lparr>up_capacity := (if desired \<le> min (min (logical_limit e w u) (physical_limit e w u)) (up_max u)
             then desired else needed)\<rparr>))"

section \<open>Operations on the registry\<close>

definition put_upload :: "upload \<Rightarrow> upload_world \<Rightarrow> upload_world" where
  "put_upload u w = w\<lparr>uw_uploads := update_rows (\<lambda>r. up_token r = up_token u) (\<lambda>_. u) (uw_uploads w)\<rparr>"

definition find_upload :: "upload_world \<Rightarrow> string \<Rightarrow> upload option" where
  "find_upload w t = select_first (\<lambda>u. up_token u = t) (uw_uploads w)"

text \<open>\<open>abort\<close> and \<open>_finish\<close>: the record and the staging file are gone.\<close>

definition finished :: "upload \<Rightarrow> upload" where
  "finished u = u\<lparr>up_closed := True, up_buffer := []\<rparr>"

definition abort_upload :: "upload \<Rightarrow> upload_world \<Rightarrow> upload_world" where
  "abort_upload u w = (if up_closed u then w else put_upload (finished u) w)"

text \<open>\<open>Upload(...)\<close>; \<open>token\<close> is fresh.\<close>

definition new_upload :: "string \<Rightarrow> upload_world \<Rightarrow> upload_root \<Rightarrow> string \<Rightarrow> int \<Rightarrow> bool \<Rightarrow> int option \<Rightarrow> bool \<Rightarrow> upload" where
  "new_upload token w r p maximum overwrite expected staging =
     \<lparr>up_token = token, up_root = r, up_path = p, up_original = identity_at w r p, up_capacity = 0, up_staging = staging,
      up_max = maximum, up_overwrite = overwrite, up_expected = expected, up_total = 0, up_closed = False,
      up_committed = False, up_buffer = [], up_file = []\<rparr>"

definition open_upload ::
    "upload_env \<Rightarrow> string \<Rightarrow> upload_root \<Rightarrow> string \<Rightarrow> int \<Rightarrow> bool \<Rightarrow> int option \<Rightarrow> bool \<Rightarrow> upload_world \<Rightarrow> upload_world \<times> string result" where
  "open_upload e token r p maximum overwrite expected staging w =
     (let u = new_upload token w r p maximum overwrite expected staging in
      if token \<in> set (map up_token (uw_uploads w)) then (w, Inl (OSError ''File exists''))
      else if \<exists>x\<in>set (live_records w). up_root x = r \<and> up_path x = p
        then (w, Inl (ValueError ''Another upload is already writing this destination.''))
      else if \<not> overwrite \<and> file_at w r p \<noteq> None
        then (w, Inl (ValueError (p @ '' already exists. Rename or remove it first.'')))
      else if (case expected of None \<Rightarrow> False | Some n \<Rightarrow> \<not> (0 \<le> n \<and> n \<le> maximum))
        then (w, Inl (ValueError ''Declared upload size exceeds the file limit.''))
      else (case reserve e w (case expected of None \<Rightarrow> 0 | Some n \<Rightarrow> n) True u of
          Inl err \<Rightarrow> (w, Inl err)
        | Inr u' \<Rightarrow> (w\<lparr>uw_uploads := uw_uploads w @ [u']\<rparr>, Inr token)))"

text \<open>\<open>flush\<close>; an exception aborts the upload.\<close>

definition flush_upload :: "upload_env \<Rightarrow> upload \<Rightarrow> upload result" where
  "flush_upload e u =
     (if up_closed u then Inl (ValueError ''The upload is closed.'')
      else if up_buffer u = [] then Inr u
      else if \<not> ue_parent_ok e then Inl (ValueError ''The upload destination folder changed during the transfer.'')
      else if ue_free e - int (length (up_buffer u)) < ue_free_gib e * gib
        then Inl (ValueError ''The upload would cross the configured minimum free-disk reserve.'')
      else if \<not> ue_write_ok e then Inl (OSError ''Upload write made no progress.'')
      else Inr (u\<lparr>up_file := up_file u @ up_buffer u, up_buffer := []\<rparr>))"

text \<open>The loop over the view of the data: fill the buffer, flush it when it is full.\<close>

function buffer_loop :: "upload_env \<Rightarrow> bytes \<Rightarrow> upload \<Rightarrow> upload result" where
  "buffer_loop e [] u = Inr u"
| "buffer_loop e (b # data) u =
     (let count = min (length (b # data)) (buffer_bytes - length (up_buffer u));
          u' = u\<lparr>up_buffer := up_buffer u @ take count (b # data), up_total := up_total u + int count\<rparr>
      in if count = 0 then Inl (RuntimeError ''no progress'')
         else if length (up_buffer u') = buffer_bytes
         then bindE (flush_upload e u') (buffer_loop e (drop count (b # data)))
         else buffer_loop e (drop count (b # data)) u')"
  by pat_completeness auto
termination by (relation "measure (\<lambda>(e, data, u). length data)") (auto simp: buffer_bytes_def)

declare buffer_loop.simps [simp del]

definition write_data :: "upload_env \<Rightarrow> upload_world \<Rightarrow> bytes \<Rightarrow> upload \<Rightarrow> upload result" where
  "write_data e w data u =
     (let needed = up_total u + int (length data) in
      if up_max u < needed then Inl (ValueError (''Uploads may not exceed '' @ show_nat (nat (up_max u div 1048576)) @ '' MiB per file.''))
      else if (case up_expected u of None \<Rightarrow> False | Some n \<Rightarrow> n < needed)
        then Inl (ValueError ''Upload exceeds its declared size.'')
      else bindE (if up_capacity u < needed then reserve e w needed False u else Inr u) (buffer_loop e data))"

definition write_upload :: "upload_env \<Rightarrow> string \<Rightarrow> bytes \<Rightarrow> upload_world \<Rightarrow> upload_world \<times> unit result" where
  "write_upload e t data w = (case find_upload w t of
       None \<Rightarrow> (w, Inl (ValueError ''The upload is closed.''))
     | Some u \<Rightarrow>
         if up_closed u then (w, Inl (ValueError ''The upload is closed.''))
         else (case write_data e w data u of
             Inl err \<Rightarrow> (abort_upload u w, Inl err)
           | Inr u' \<Rightarrow> (put_upload u' w, Inr ())))"

text \<open>\<open>flush\<close> called from outside (a multipart spool that is read).\<close>

definition flush_open :: "upload_env \<Rightarrow> string \<Rightarrow> upload_world \<Rightarrow> upload_world \<times> unit result" where
  "flush_open e t w = (case find_upload w t of
       None \<Rightarrow> (w, Inl (ValueError ''The upload is closed.''))
     | Some u \<Rightarrow>
         if up_closed u then (w, Inl (ValueError ''The upload is closed.''))
         else (case flush_upload e u of
             Inl err \<Rightarrow> (abort_upload u w, Inl err)
           | Inr u' \<Rightarrow> (put_upload u' w, Inr ())))"

text \<open>\<open>os.replace\<close> and \<open>os.link\<close>: the published file is a new inode.\<close>

definition publish :: "upload \<Rightarrow> upload_world \<Rightarrow> upload_world" where
  "publish u w = w\<lparr>uw_files := delete_rows (\<lambda>f. sf_root f = up_root u \<and> sf_path f = up_path u) (uw_files w)
       @ [\<lparr>sf_root = up_root u, sf_path = up_path u, sf_stamp = uw_stamp w, sf_content = up_file u\<rparr>],
     uw_stamp := Suc (uw_stamp w)\<rparr>"

definition ready_to_publish :: "upload_env \<Rightarrow> upload_world \<Rightarrow> upload \<Rightarrow> upload result" where
  "ready_to_publish e w u =
     (if up_staging u then Inl (ValueError ''Multipart staging must have a destination before publication.'')
      else if (case up_expected u of None \<Rightarrow> False | Some n \<Rightarrow> up_total u \<noteq> n)
        then Inl (ValueError ''Upload ended before its declared size was received.'')
      else bindE (flush_upload e u) (\<lambda>u1.
        if \<not> ue_parent_ok e then Inl (ValueError ''The upload destination folder changed during the transfer.'')
        else bindE (reserve e w (up_total u1) True u1) (\<lambda>u2.
          if up_overwrite u2 \<and> identity_at w (up_root u2) (up_path u2) \<noteq> up_original u2
            then Inl (ValueError ''The destination changed during the upload.'')
          else if \<not> up_overwrite u2 \<and> file_at w (up_root u2) (up_path u2) \<noteq> None
            then Inl (ValueError ''The upload destination already exists.'')
          else Inr u2)))"

definition commit_upload :: "upload_env \<Rightarrow> string \<Rightarrow> upload_world \<Rightarrow> upload_world \<times> (string \<times> int) result" where
  "commit_upload e t w = (case find_upload w t of
       None \<Rightarrow> (w, Inl (ValueError ''The upload is closed; it cannot be published.''))
     | Some u \<Rightarrow>
         if up_committed u then (w, Inr (up_path u, up_total u))
         else if up_closed u then (w, Inl (ValueError ''The upload is closed; it cannot be published.''))
         else (case ready_to_publish e w u of
             Inl err \<Rightarrow> (abort_upload u w, Inl err)
           | Inr u2 \<Rightarrow> (put_upload (finished (u2\<lparr>up_committed := True\<rparr>)) (publish u2 w), Inr (up_path u2, up_total u2))))"

text \<open>\<open>promote\<close>: a multipart spool gets its destination.\<close>

definition promoted_terms :: "upload_world \<Rightarrow> upload_root \<Rightarrow> string \<Rightarrow> int option \<Rightarrow> bool \<Rightarrow> upload \<Rightarrow> upload" where
  "promoted_terms w r p maximum overwrite u =
     u\<lparr>up_root := r, up_path := p, up_max := (case maximum of None \<Rightarrow> up_max u | Some m \<Rightarrow> min (up_max u) m),
       up_overwrite := overwrite, up_original := identity_at w r p, up_staging := False\<rparr>"

definition promote_upload ::
    "upload_env \<Rightarrow> string \<Rightarrow> upload_root \<Rightarrow> string \<Rightarrow> int option \<Rightarrow> bool \<Rightarrow> upload_world \<Rightarrow> upload_world \<times> unit result" where
  "promote_upload e t r p maximum overwrite w = (case find_upload w t of
       None \<Rightarrow> (w, Inl (ValueError ''Only an open multipart spool can be promoted.''))
     | Some u \<Rightarrow>
         if up_closed u \<or> \<not> up_staging u then (w, Inl (ValueError ''Only an open multipart spool can be promoted.''))
         else (case bindE (flush_upload e u) (\<lambda>u1.
             if \<exists>x\<in>set (live_records w). up_token x \<noteq> t \<and> up_root x = r \<and> up_path x = p
               then Inl (ValueError ''Another upload is already writing this destination.'')
             else if \<not> overwrite \<and> file_at w r p \<noteq> None
               then Inl (ValueError (p @ '' already exists. Rename or remove it first.''))
             else if up_max (promoted_terms w r p maximum overwrite u1) < up_total u1
               then Inl (ValueError ''Upload exceeds the configured file limit.'')
             else reserve e w (up_total u1) True (promoted_terms w r p maximum overwrite u1)) of
             Inl err \<Rightarrow> (abort_upload u w, Inl err)
           | Inr u2 \<Rightarrow> (put_upload u2 w, Inr ())))"

definition close_upload :: "string \<Rightarrow> upload_world \<Rightarrow> upload_world" where
  "close_upload t w = (case find_upload w t of None \<Rightarrow> w | Some u \<Rightarrow> abort_upload u w)"

text \<open>What else happens to the files of a root: deleting and renaming (\<open>LocalDatastore\<close>).\<close>

definition delete_stored :: "upload_root \<Rightarrow> string \<Rightarrow> upload_world \<Rightarrow> upload_world" where
  "delete_stored r p w = w\<lparr>uw_files := delete_rows (\<lambda>f. sf_root f = r \<and> sf_path f = p) (uw_files w)\<rparr>"

definition rename_stored :: "upload_root \<Rightarrow> string \<Rightarrow> string \<Rightarrow> upload_world \<Rightarrow> upload_world" where
  "rename_stored r p q w = (if file_at w r q \<noteq> None then w
     else w\<lparr>uw_files := update_rows (\<lambda>f. sf_root f = r \<and> sf_path f = p) (\<lambda>f. f\<lparr>sf_path := q\<rparr>) (uw_files w)\<rparr>)"

section \<open>Interleavings\<close>

datatype upload_op =
    Open upload_env string upload_root string int bool "int option" bool
  | Write upload_env string bytes
  | Flush upload_env string
  | Promote upload_env string upload_root string "int option" bool
  | Commit upload_env string
  | Close string
  | Delete upload_root string
  | Rename upload_root string string

fun run_op :: "upload_world \<Rightarrow> upload_op \<Rightarrow> upload_world" where
  "run_op w (Open e t r p m ov ex st) = fst (open_upload e t r p m ov ex st w)"
| "run_op w (Write e t data) = fst (write_upload e t data w)"
| "run_op w (Flush e t) = fst (flush_open e t w)"
| "run_op w (Promote e t r p m ov) = fst (promote_upload e t r p m ov w)"
| "run_op w (Commit e t) = fst (commit_upload e t w)"
| "run_op w (Close t) = close_upload t w"
| "run_op w (Delete r p) = delete_stored r p w"
| "run_op w (Rename r p q) = rename_stored r p q w"

text \<open>The settings an operation reads.\<close>

fun op_env :: "upload_op \<Rightarrow> upload_env option" where
  "op_env (Open e t r p m ov ex st) = Some e"
| "op_env (Write e t data) = Some e"
| "op_env (Flush e t) = Some e"
| "op_env (Promote e t r p m ov) = Some e"
| "op_env (Commit e t) = Some e"
| "op_env op = None"

end
