(* ===== verification/Upload_Facts.thy ===== *)
theory Upload_Facts
  imports Uploads
begin

text \<open>
  What the reservation registry guarantees for any interleaving of uploads: the configured quota is
  never exceeded, an upload whose bytes were accepted is never refused publication for want of quota, and
  what is published is what was written.
\<close>

section \<open>Accounts\<close>

text \<open>The datastore and the artifact areas are accounted, each against a quota of its own.\<close>

definition in_account :: "bool \<Rightarrow> upload_root \<Rightarrow> bool" where
  "in_account b r = (if b then is_artifact r else r = Datastore_root)"

definition quota :: "bool \<Rightarrow> upload_env \<Rightarrow> int" where
  "quota b e = (if b then ue_artifact_gib e else ue_quota_gib e) * gib"

definition used :: "bool \<Rightarrow> upload_world \<Rightarrow> int" where
  "used b w = root_bytes (in_account b) w"

text \<open>What a reservation may still add to the account.\<close>

definition growth_of :: "bool \<Rightarrow> upload_world \<Rightarrow> upload \<Rightarrow> int" where
  "growth_of b w u = (if \<not> up_closed u \<and> \<not> up_staging u \<and> in_account b (up_root u)
     then max 0 (up_capacity u - credit w u) else 0)"

definition growth_of_others :: "bool \<Rightarrow> upload_world \<Rightarrow> string \<Rightarrow> int" where
  "growth_of_others b w t = sum_list (map (growth_of b w) (filter (\<lambda>u. up_token u \<noteq> t) (uw_uploads w)))"

definition growth_of_all :: "bool \<Rightarrow> upload_world \<Rightarrow> int" where
  "growth_of_all b w = sum_list (map (growth_of b w) (uw_uploads w))"

definition file_key :: "stored_file \<Rightarrow> upload_root \<times> string" where
  "file_key f = (sf_root f, sf_path f)"

definition destination :: "upload \<Rightarrow> upload_root \<times> string" where
  "destination u = (up_root u, up_path u)"

lemma growth_of_nonneg [simp]: "0 \<le> growth_of b w u"
  by (simp add: growth_of_def)

lemma growth_sum_nonneg: "0 \<le> sum_list (map (growth_of b w) us)"
  by (induction us) (simp_all add: add_nonneg_nonneg)

lemma growth_of_others_nonneg [simp]: "0 \<le> growth_of_others b w t"
  by (simp add: growth_of_others_def growth_sum_nonneg)

lemma growth_filter: 
  "sum_list (map (\<lambda>r. max 0 (up_capacity r - credit w r)) (filter (\<lambda>r. up_token r \<noteq> t \<and> \<not> up_staging r \<and> in_account b (up_root r))
      (filter (\<lambda>r. \<not> up_closed r) us))) =
   sum_list (map (growth_of b w) (filter (\<lambda>u. up_token u \<noteq> t) us))"
  by (induction us) (auto simp: growth_of_def)

lemma logical_limit_account:
  assumes "in_account b (up_root u)" "\<not> up_staging u"
  shows "logical_limit e w u = quota b e - used b w + credit w u - growth_of_others b w (up_token u)"
proof -
  have same: "(up_token r \<noteq> up_token u \<and> same_account u r) = (up_token r \<noteq> up_token u \<and> \<not> up_staging r \<and> in_account b (up_root r))" for r
    using assms by (auto simp: same_account_def in_account_def is_artifact_def split: upload_root.splits if_splits)
  have g: "growth_bytes w u = growth_of_others b w (up_token u)"
    unfolding growth_bytes_def live_records_def same growth_filter growth_of_others_def ..
  have p: "in_account b = (if b then is_artifact else (\<lambda>r. r = Datastore_root))"
    by (auto simp: in_account_def fun_eq_iff)
  show ?thesis
    using assms by (auto simp: logical_limit_def g used_def quota_def p is_artifact_def split: if_splits)
qed

lemma growth_split:
  assumes "distinct (map up_token us)" "u \<in> set us"
  shows "sum_list (map f us) = f u + sum_list (map f (filter (\<lambda>x. up_token x \<noteq> up_token u) us :: upload list) :: int list)"
  using assms
proof (induction us)
  case Nil
  then show ?case by simp
next
  case (Cons x us)
  show ?case
  proof (cases "x = u")
    case True
    then have "filter (\<lambda>x. up_token x \<noteq> up_token u) us = us"
      using Cons.prems by (auto simp: filter_id_conv image_iff)
    with True show ?thesis by simp
  next
    case False
    then have "up_token x \<noteq> up_token u" "u \<in> set us" using Cons.prems by (auto simp: image_iff)
    with Cons show ?thesis by simp
  qed
qed

lemma growth_all_split:
  "distinct (map up_token (uw_uploads w)) \<Longrightarrow> u \<in> set (uw_uploads w) \<Longrightarrow>
     growth_of_all b w = growth_of b w u + growth_of_others b w (up_token u)"
  unfolding growth_of_all_def growth_of_others_def by (rule growth_split)

section \<open>Files\<close>

lemma file_at_key: "file_at w r p = select_first (\<lambda>f. file_key f = (r, p)) (uw_files w)"
  by (simp add: file_at_def file_key_def)

definition bytes_at :: "upload_world \<Rightarrow> upload_root \<Rightarrow> string \<Rightarrow> int" where
  "bytes_at w r p = (case file_at w r p of None \<Rightarrow> 0 | Some f \<Rightarrow> int (length (sf_content f)))"

lemma bytes_at_nonneg [simp]: "0 \<le> bytes_at w r p"
  by (simp add: bytes_at_def split: option.split)

lemma credit_bytes: "credit w u = (if up_original u \<noteq> None \<and> identity_at w (up_root u) (up_path u) = up_original u
    then bytes_at w (up_root u) (up_path u) else 0)"
  by (auto simp: credit_def identity_at_def bytes_at_def split: option.splits)

lemma credit_bounds: "0 \<le> credit w u" "credit w u \<le> bytes_at w (up_root u) (up_path u)"
  by (simp_all add: credit_bytes)

lemma sum_delete_key:
  assumes "distinct (map file_key fs)"
  shows "sum_list (map (\<lambda>f. int (length (sf_content f))) (filter (\<lambda>f. P (sf_root f)) (delete_rows (\<lambda>f. sf_root f = r \<and> sf_path f = p) fs)))
     = sum_list (map (\<lambda>f. int (length (sf_content f))) (filter (\<lambda>f. P (sf_root f)) fs))
       - (if P r then (case select_first (\<lambda>f. sf_root f = r \<and> sf_path f = p) fs of None \<Rightarrow> 0 | Some f \<Rightarrow> int (length (sf_content f))) else 0)"
  using assms
proof (induction fs)
  case Nil
  then show ?case by (simp add: select_first_def)
next
  case (Cons f fs)
  show ?case
  proof (cases "sf_root f = r \<and> sf_path f = p")
    case True
    have "file_key f \<notin> file_key ` set fs" using Cons.prems by simp
    with True have "\<forall>x\<in>set fs. \<not> (sf_root x = r \<and> sf_path x = p)"
      by (auto simp: file_key_def image_iff)
    then have "delete_rows (\<lambda>f. sf_root f = r \<and> sf_path f = p) fs = fs"
      by (auto simp: delete_rows_def filter_id_conv)
    with True show ?thesis by (auto simp: select_first_def)
  next
    case False
    then show ?thesis using Cons by (auto simp: select_first_def)
  qed
qed

lemma used_delete:
  "distinct (map file_key (uw_files w)) \<Longrightarrow>
     used b (delete_stored r p w) = used b w - (if in_account b r then bytes_at w r p else 0)"
  by (simp add: used_def root_bytes_def delete_stored_def sum_delete_key bytes_at_def file_at_def)

lemma used_publish:
  assumes "distinct (map file_key (uw_files w))"
  shows "used b (publish u w) = used b w
     + (if in_account b (up_root u) then int (length (up_file u)) - bytes_at w (up_root u) (up_path u) else 0)"
  using assms by (simp add: used_def root_bytes_def publish_def sum_delete_key bytes_at_def file_at_def)

lemma select_first_delete_key:
  "select_first (\<lambda>f. sf_root f = r' \<and> sf_path f = p') (delete_rows (\<lambda>f. sf_root f = r \<and> sf_path f = p) fs)
     = (if (r', p') = (r, p) then None else select_first (\<lambda>f. sf_root f = r' \<and> sf_path f = p') fs)"
  by (induction fs) (auto simp: select_first_def)

lemma file_at_delete: "file_at (delete_stored r p w) r' p' = (if (r', p') = (r, p) then None else file_at w r' p')"
  by (simp add: file_at_def delete_stored_def select_first_delete_key)

lemma select_first_append:
  "select_first p (xs @ ys) = (case select_first p xs of None \<Rightarrow> select_first p ys | Some x \<Rightarrow> Some x)"
  by (induction xs) (auto simp: select_first_def)

lemma file_at_publish:
  "file_at (publish u w) r p = (if (r, p) = destination u
     then Some \<lparr>sf_root = r, sf_path = p, sf_stamp = uw_stamp w, sf_content = up_file u\<rparr> else file_at w r p)"
proof -
  have "file_at (publish u w) r p = (case file_at (delete_stored (up_root u) (up_path u) w) r p of
      None \<Rightarrow> select_first (\<lambda>f. sf_root f = r \<and> sf_path f = p)
        [\<lparr>sf_root = up_root u, sf_path = up_path u, sf_stamp = uw_stamp w, sf_content = up_file u\<rparr>]
    | Some f \<Rightarrow> Some f)"
    by (simp add: file_at_def publish_def delete_stored_def select_first_append)
  then show ?thesis
    by (auto simp: file_at_delete destination_def select_first_def split: option.split)
qed

section \<open>Well-formed registries\<close>

text \<open>
  Live uploads have pairwise different destinations; each counts the bytes it was given, which are in its
  staging file and its buffer, and holds a reservation for all of them.
\<close>

definition accounted :: "upload \<Rightarrow> bool" where
  "accounted u \<longleftrightarrow> \<not> up_staging u \<and> (in_account False (up_root u) \<or> in_account True (up_root u))"

definition upload_ok :: "upload \<Rightarrow> bool" where
  "upload_ok u \<longleftrightarrow> \<not> up_closed u \<longrightarrow>
     up_total u = int (length (up_file u) + length (up_buffer u)) \<and> length (up_buffer u) < buffer_bytes \<and>
     up_total u \<le> up_capacity u \<and> (up_total u \<le> up_max u \<or> accounted u) \<and> \<not> up_committed u"

definition registry_ok :: "upload_world \<Rightarrow> bool" where
  "registry_ok w \<longleftrightarrow> distinct (map up_token (uw_uploads w)) \<and> distinct (map destination (live_records w)) \<and>
     distinct (map file_key (uw_files w)) \<and> (\<forall>u\<in>set (uw_uploads w). upload_ok u)"

lemma registry_okD:
  assumes "registry_ok w"
  shows "distinct (map up_token (uw_uploads w))" "distinct (map destination (live_records w))"
    "distinct (map file_key (uw_files w))" "u \<in> set (uw_uploads w) \<Longrightarrow> upload_ok u"
  using assms by (auto simp: registry_ok_def)

lemma find_upload_Some: "find_upload w t = Some u \<Longrightarrow> u \<in> set (uw_uploads w) \<and> up_token u = t"
  using select_first_Some unfolding find_upload_def by fastforce

lemma put_upload_tokens: "map up_token (uw_uploads (put_upload u w)) = map up_token (uw_uploads w)"
  using update_rows_map [of "\<lambda>r. up_token r = up_token u" up_token "\<lambda>_. u"] by (simp add: put_upload_def)

lemma put_upload_files [simp]: "uw_files (put_upload u w) = uw_files w" "uw_stamp (put_upload u w) = uw_stamp w"
  by (simp_all add: put_upload_def)

lemma in_put_upload: "x \<in> set (uw_uploads (put_upload u w)) \<Longrightarrow> x = u \<or> x \<in> set (uw_uploads w) \<and> up_token x \<noteq> up_token u"
  by (auto simp: put_upload_def elim!: update_rows_cases)

lemma others_put_upload: "filter (\<lambda>x. up_token x \<noteq> up_token u) (uw_uploads (put_upload u w)) = filter (\<lambda>x. up_token x \<noteq> up_token u) (uw_uploads w)"
proof -
  have "filter (\<lambda>x. up_token x \<noteq> up_token u) (update_rows (\<lambda>r. up_token r = up_token u) (\<lambda>_. u) us) = filter (\<lambda>x. up_token x \<noteq> up_token u) us" for us
    by (induction us) auto
  then show ?thesis by (simp add: put_upload_def)
qed

lemma put_upload_in: "v \<in> set (uw_uploads w) \<Longrightarrow> up_token v = up_token u \<Longrightarrow> u \<in> set (uw_uploads (put_upload u w))"
  unfolding put_upload_def by (simp add: update_rows_in [where f = "\<lambda>_. u"])

text \<open>Replacing a record keeps destinations apart if the new one is closed or its destination is free.\<close>

definition destination_free :: "upload_world \<Rightarrow> upload \<Rightarrow> bool" where
  "destination_free w u \<longleftrightarrow> (\<forall>x\<in>set (live_records w). up_token x \<noteq> up_token u \<longrightarrow> destination x \<noteq> destination u)"

lemma destinations_update:
  assumes "distinct (map up_token us)" "distinct (map destination (filter (\<lambda>u. \<not> up_closed u) us))"
    and "up_closed u \<or> (\<forall>x\<in>set us. \<not> up_closed x \<longrightarrow> up_token x \<noteq> up_token u \<longrightarrow> destination x \<noteq> destination u)"
  shows "distinct (map destination (filter (\<lambda>u. \<not> up_closed u) (update_rows (\<lambda>r. up_token r = up_token u) (\<lambda>_. u) us)))"
  using assms
proof (induction us)
  case Nil
  then show ?case by simp
next
  case (Cons x us)
  show ?case
  proof (cases "up_token x = up_token u")
    case True
    then have other: "\<forall>y\<in>set us. up_token y \<noteq> up_token u"
      using Cons.prems by (auto simp: image_iff)
    then have "update_rows (\<lambda>r. up_token r = up_token u) (\<lambda>_. u) us = us"
      by (intro update_rows_none) auto
    with True other Cons.prems show ?thesis by (auto simp: image_iff split: if_splits)
  next
    case False
    then show ?thesis
      using Cons by (auto simp: in_update_rows image_iff split: if_splits)
  qed
qed

lemma registry_put_upload:
  assumes "registry_ok w" "upload_ok u" "up_closed u \<or> destination_free w u"
  shows "registry_ok (put_upload u w)"
  using assms destinations_update [of "uw_uploads w" u] in_put_upload [of _ u w]
  by (auto simp: registry_ok_def live_records_def destination_free_def put_upload_tokens) (auto simp: put_upload_def)

lemma live_destination_free:
  assumes "registry_ok w" "u \<in> set (uw_uploads w)" "\<not> up_closed u" "up_token u' = up_token u" "destination u' = destination u"
  shows "destination_free w u'"
proof -
  have "u \<in> set (live_records w)" using assms by (simp add: live_records_def)
  with assms show ?thesis
    by (auto simp: destination_free_def dest: registry_okD(2) [THEN key_unique])
qed

section \<open>What a step of an upload does\<close>

definition quota_error :: py_error where
  "quota_error = ValueError ''The configured storage quota would be exceeded.''"

lemma logical_limit_other: "\<not> accounted u \<Longrightarrow> logical_limit e w u = up_max u"
  by (auto simp: logical_limit_def accounted_def in_account_def split: if_splits)

lemma reserve_Inr:
  assumes "reserve e w n ex u = Inr u'"
  obtains c where "u' = u\<lparr>up_capacity := c\<rparr>" "n \<le> c" "ex \<Longrightarrow> c = n" "c \<le> logical_limit e w u"
proof -
  define c where "c = up_capacity u'"
  have "u' = u\<lparr>up_capacity := c\<rparr> \<and> n \<le> c \<and> (ex \<longrightarrow> c = n) \<and> c \<le> logical_limit e w u"
    using assms unfolding c_def reserve_def Let_def by (auto split: if_splits)
  then show ?thesis using that by blast
qed

lemma flush_Inr:
  assumes "flush_upload e u = Inr u'"
  shows "u' = u\<lparr>up_file := up_file u @ up_buffer u, up_buffer := []\<rparr>" "\<not> up_closed u"
  using assms by (auto simp: flush_upload_def split: if_splits)

lemma flush_not_quota: "flush_upload e u = Inl err \<Longrightarrow> err \<noteq> quota_error"
  by (auto simp: flush_upload_def quota_error_def split: if_splits)

lemma buffer_loop_Inr:
  "buffer_loop e data u = Inr u' \<Longrightarrow> length (up_buffer u) < buffer_bytes \<Longrightarrow>
     \<exists>fil buf. u' = u\<lparr>up_file := fil, up_buffer := buf, up_total := up_total u + int (length data)\<rparr> \<and>
       fil @ buf = up_file u @ up_buffer u @ data \<and> length buf < buffer_bytes"
proof (induction e data u arbitrary: u' rule: buffer_loop.induct)
  case (1 e u)
  then show ?case by (intro exI [of _ "up_file u"] exI [of _ "up_buffer u"]) (simp add: buffer_loop.simps)
next
  case (2 e b data u)
  define k where "k = min (length (b # data)) (buffer_bytes - length (up_buffer u))"
  define front where "front = take k (b # data)"
  define tail where "tail = drop k (b # data)"
  define v where "v = u\<lparr>up_buffer := up_buffer u @ front, up_total := up_total u + int k\<rparr>"
  have step: "buffer_loop e (b # data) u = (if k = 0 then Inl (RuntimeError ''no progress'')
      else if length (up_buffer v) = buffer_bytes then bindE (flush_upload e v) (buffer_loop e tail)
      else buffer_loop e tail v)"
    unfolding k_def v_def front_def tail_def by (simp only: buffer_loop.simps(2) Let_def)
  have k0: "k \<noteq> 0" using 2(4) by (simp add: k_def)
  have whole: "front @ tail = b # data" by (simp add: front_def tail_def)
  have fl: "length front = k" by (simp add: front_def k_def)
  have cat: "up_file u @ up_buffer u @ front @ tail = up_file u @ up_buffer u @ b # data" by (simp only: whole)
  have tot: "up_total u + int k + int (length tail) = up_total u + int (length (b # data))"
    unfolding whole [symmetric] by (simp add: fl)
  note IH = 2(1,2) [OF k_def refl, folded front_def tail_def, folded v_def, OF k0]
  show ?case
  proof (cases "length (up_buffer v) = buffer_bytes")
    case True
    then obtain v1 where fl: "flush_upload e v = Inr v1" and rest: "buffer_loop e tail v1 = Inr u'"
      using 2(3) k0 unfolding step by (auto simp: bindE_eq_Inr)
    have v1: "v1 = v\<lparr>up_file := up_file v @ up_buffer v, up_buffer := []\<rparr>" using fl by (rule flush_Inr)
    have "length (up_buffer v1) < buffer_bytes" by (simp add: v1 buffer_bytes_def)
    then obtain fil buf where u': "u' = v1\<lparr>up_file := fil, up_buffer := buf, up_total := up_total v1 + int (length tail)\<rparr>"
        and fb: "fil @ buf = up_file v1 @ up_buffer v1 @ tail" and len: "length buf < buffer_bytes"
      using IH(1) [OF True rest] by blast
    have "u' = u\<lparr>up_file := fil, up_buffer := buf, up_total := up_total u + int (length (b # data))\<rparr>"
      unfolding tot [symmetric] by (simp add: u' v1 v_def)
    moreover have "fil @ buf = up_file u @ up_buffer u @ b # data"
      unfolding cat [symmetric] by (simp add: fb v1 v_def)
    ultimately show ?thesis using len by blast
  next
    case False
    have "length (up_buffer v) < buffer_bytes" using False 2(4) fl by (auto simp: v_def k_def)
    moreover have "buffer_loop e tail v = Inr u'" using 2(3) k0 False unfolding step by simp
    ultimately obtain fil buf where u': "u' = v\<lparr>up_file := fil, up_buffer := buf, up_total := up_total v + int (length tail)\<rparr>"
        and fb: "fil @ buf = up_file v @ up_buffer v @ tail" and len: "length buf < buffer_bytes"
      using IH(2) [OF False] by blast
    have "u' = u\<lparr>up_file := fil, up_buffer := buf, up_total := up_total u + int (length (b # data))\<rparr>"
      unfolding tot [symmetric] by (simp add: u' v_def)
    moreover have "fil @ buf = up_file u @ up_buffer u @ b # data"
      unfolding cat [symmetric] by (simp add: fb v_def)
    ultimately show ?thesis using len by blast
  qed
qed

lemma write_data_Inr:
  assumes "write_data e w data u = Inr u'" "upload_ok u" "\<not> up_closed u"
  obtains c fil buf where "u' = u\<lparr>up_capacity := c, up_file := fil, up_buffer := buf, up_total := up_total u + int (length data)\<rparr>"
    "fil @ buf = up_file u @ up_buffer u @ data" "length buf < buffer_bytes" "up_total u + int (length data) \<le> c"
    "up_total u + int (length data) \<le> up_max u" "c = up_capacity u \<or> (\<exists>n ex. reserve e w n ex u = Inr (u\<lparr>up_capacity := c\<rparr>))"
proof -
  define n where "n = up_total u + int (length data)"
  obtain v where v: "(if up_capacity u < n then reserve e w n False u else Inr u) = Inr v" and loop: "buffer_loop e data v = Inr u'"
    and le: "n \<le> up_max u"
    using assms(1) by (auto simp: write_data_def n_def [symmetric] Let_def bindE_eq_Inr split: if_splits)
  obtain c where c: "v = u\<lparr>up_capacity := c\<rparr>" "n \<le> c" "c = up_capacity u \<or> (\<exists>n ex. reserve e w n ex u = Inr v)"
  proof (cases "up_capacity u < n")
    case True
    with v have r: "reserve e w n False u = Inr v" by simp
    obtain c where "v = u\<lparr>up_capacity := c\<rparr>" "n \<le> c" using reserve_Inr [OF r] by metis
    with r show ?thesis using that [of c] by auto
  next
    case False
    with v show ?thesis using that [of "up_capacity u"] by simp
  qed
  have "length (up_buffer v) < buffer_bytes" using assms(2,3) c by (simp add: upload_ok_def)
  from buffer_loop_Inr [OF loop this] obtain fil buf
    where u': "u' = v\<lparr>up_file := fil, up_buffer := buf, up_total := up_total v + int (length data)\<rparr>"
      and cat: "fil @ buf = up_file v @ up_buffer v @ data" and len: "length buf < buffer_bytes" by blast
  show ?thesis
  proof (rule that)
    show "u' = u\<lparr>up_capacity := c, up_file := fil, up_buffer := buf, up_total := up_total u + int (length data)\<rparr>"
      by (simp add: u' c(1))
    show "fil @ buf = up_file u @ up_buffer u @ data" using cat by (simp add: c(1))
    show "c = up_capacity u \<or> (\<exists>n ex. reserve e w n ex u = Inr (u\<lparr>up_capacity := c\<rparr>))"
      using c(3) unfolding c(1) .
  qed (use len c(2) le in \<open>simp_all only: n_def\<close>)
qed

end
