(* ===== verification/Upload_Quota.thy ===== *)
theory Upload_Quota
  imports Upload_Facts
begin

text \<open>
  The quota and the reservations over runs: each operation keeps the registry well formed and the
  accounted bytes within the quota; without renames it also keeps the bytes that live reservations
  may still add within it, so that publication is not refused.
\<close>

section \<open>Operations keep the registry well formed\<close>

lemma upload_ok_closed [simp]: "up_closed u \<Longrightarrow> upload_ok u"
  by (simp add: upload_ok_def)

lemma finished_closed [simp]: "up_closed (finished u)" "up_token (finished u) = up_token u"
  by (simp_all add: finished_def)

lemma abort_registry: "registry_ok w \<Longrightarrow> registry_ok (abort_upload u w)"
  by (simp add: abort_upload_def registry_put_upload)

lemma abort_files [simp]: "uw_files (abort_upload u w) = uw_files w"
  by (simp add: abort_upload_def)

lemma upload_okD:
  assumes "upload_ok u" "\<not> up_closed u"
  shows "up_total u = int (length (up_file u) + length (up_buffer u))" "length (up_buffer u) < buffer_bytes"
    "up_total u \<le> up_capacity u" "up_total u \<le> up_max u \<or> accounted u" "\<not> up_committed u"
  using assms by (auto simp: upload_ok_def)

lemma found:
  assumes "registry_ok w" "find_upload w t = Some u"
  shows "u \<in> set (uw_uploads w)" "up_token u = t" "upload_ok u"
  using assms find_upload_Some registry_okD(4) by blast+

lemma open_cases:
  obtains (refused) err where "open_upload e t r p m ov ex st w = (w, Inl err)"
  | (opened) c n exact where "open_upload e t r p m ov ex st w = (w\<lparr>uw_uploads := uw_uploads w @ [(new_upload t w r p m ov ex st)\<lparr>up_capacity := c\<rparr>]\<rparr>, Inr t)"
      "t \<notin> up_token ` set (uw_uploads w)" "\<forall>x\<in>set (live_records w). destination x \<noteq> (r, p)"
      "reserve e w n exact (new_upload t w r p m ov ex st) = Inr ((new_upload t w r p m ov ex st)\<lparr>up_capacity := c\<rparr>)" "0 \<le> n" "n \<le> c"
proof (cases "open_upload e t r p m ov ex st w")
  case (Pair w' res)
  show ?thesis
  proof (cases res)
    case (Inl err)
    have "w' = w" using Pair Inl by (auto simp: open_upload_def Let_def split: if_splits sum.splits)
    with Pair Inl show ?thesis using refused by blast
  next
    case (Inr x)
    define u where "u = new_upload t w r p m ov ex st"
    define n where "n = (case ex of None \<Rightarrow> 0 | Some n \<Rightarrow> n)"
    from Pair Inr obtain u' where res: "reserve e w n True u = Inr u'" and w': "w' = w\<lparr>uw_uploads := uw_uploads w @ [u']\<rparr>" "x = t"
      and fresh: "t \<notin> up_token ` set (uw_uploads w)" "\<forall>x\<in>set (live_records w). destination x \<noteq> (r, p)"
      and n: "\<not> (case ex of None \<Rightarrow> False | Some n \<Rightarrow> \<not> (0 \<le> n \<and> n \<le> m))"
      unfolding open_upload_def Let_def u_def [symmetric] n_def [symmetric]
      by (auto simp: destination_def split: if_splits sum.splits)
    from res obtain c where c: "u' = u\<lparr>up_capacity := c\<rparr>" "n \<le> c" by (rule reserve_Inr)
    show ?thesis
    proof (rule opened)
      show "open_upload e t r p m ov ex st w = (w\<lparr>uw_uploads := uw_uploads w @ [(new_upload t w r p m ov ex st)\<lparr>up_capacity := c\<rparr>]\<rparr>, Inr t)"
        using Pair Inr w' c by (simp add: u_def)
      show "reserve e w n True (new_upload t w r p m ov ex st) = Inr ((new_upload t w r p m ov ex st)\<lparr>up_capacity := c\<rparr>)"
        using res c by (simp add: u_def)
      show "0 \<le> n" using n by (auto simp: n_def split: option.splits)
    qed (use fresh c in auto)
  qed
qed

lemma new_upload_simps [simp]:
  "up_token (new_upload t w r p m ov ex st) = t" "up_root (new_upload t w r p m ov ex st) = r"
  "up_path (new_upload t w r p m ov ex st) = p" "up_closed (new_upload t w r p m ov ex st) = False"
  "up_staging (new_upload t w r p m ov ex st) = st" "up_max (new_upload t w r p m ov ex st) = m"
  "up_file (new_upload t w r p m ov ex st) = []" "up_buffer (new_upload t w r p m ov ex st) = []"
  "up_total (new_upload t w r p m ov ex st) = 0" "up_committed (new_upload t w r p m ov ex st) = False"
  by (simp_all add: new_upload_def)

lemma accounted_update [simp]:
  "accounted (u\<lparr>up_capacity := c\<rparr>) = accounted u" "accounted (u\<lparr>up_file := f\<rparr>) = accounted u"
  "accounted (u\<lparr>up_buffer := b\<rparr>) = accounted u" "accounted (u\<lparr>up_total := n\<rparr>) = accounted u"
  by (simp_all add: accounted_def)

lemma reserve_needed: "reserve e w n ex u = Inr u' \<Longrightarrow> n \<le> logical_limit e w u"
  by (auto simp: reserve_def split: if_splits)

lemma open_registry:
  assumes "registry_ok w"
  shows "registry_ok (fst (open_upload e t r p m ov ex st w))"
proof (cases rule: open_cases [of e t r p m ov ex st w])
  case (refused err)
  with assms show ?thesis by simp
next
  case (opened c n exact)
  define u where "u = (new_upload t w r p m ov ex st)\<lparr>up_capacity := c\<rparr>"
  have "n \<le> logical_limit e w (new_upload t w r p m ov ex st)" using opened(4) by (rule reserve_needed)
  then have "0 \<le> m \<or> accounted u"
    using logical_limit_other [of "new_upload t w r p m ov ex st" e w] opened(5) by (cases "accounted u") (auto simp: u_def)
  then have "upload_ok u" using opened(5,6) by (auto simp: upload_ok_def u_def buffer_bytes_def)
  then show ?thesis
    using assms opened(1-3) unfolding u_def [symmetric]
    by (auto simp: registry_ok_def live_records_def u_def destination_def image_iff)
qed

lemma flush_ok:
  assumes "flush_upload e u = Inr u'" "upload_ok u"
  shows "upload_ok u'" "up_token u' = up_token u" "destination u' = destination u" "\<not> up_closed u'" "up_buffer u' = []"
    "up_total u' = int (length (up_file u'))"
  using assms(2) flush_Inr [OF assms(1)] by (auto simp: upload_ok_def destination_def buffer_bytes_def)

lemma write_ok:
  assumes "write_data e w data u = Inr u'" "upload_ok u" "\<not> up_closed u"
  shows "upload_ok u'" "up_token u' = up_token u" "destination u' = destination u" "\<not> up_closed u'"
proof -
  obtain c fil buf where u': "u' = u\<lparr>up_capacity := c, up_file := fil, up_buffer := buf, up_total := up_total u + int (length data)\<rparr>"
    and cat: "fil @ buf = up_file u @ up_buffer u @ data" and len: "length buf < buffer_bytes" "up_total u + int (length data) \<le> c"
      "up_total u + int (length data) \<le> up_max u"
    using write_data_Inr [OF assms] by metis
  have "length fil + length buf = length (up_file u) + length (up_buffer u) + length data"
    using arg_cong [OF cat, of length] by simp
  then show "upload_ok u'" "up_token u' = up_token u" "destination u' = destination u" "\<not> up_closed u'"
    using len upload_okD [OF assms(2,3)] assms(3) by (auto simp: u' upload_ok_def destination_def)
qed

lemma replace_registry:
  assumes "registry_ok w" "u \<in> set (uw_uploads w)" "\<not> up_closed u"
    and "upload_ok v" "up_token v = up_token u" "destination v = destination u"
  shows "registry_ok (put_upload v w)"
  using assms registry_put_upload live_destination_free by blast

lemma write_registry:
  assumes "registry_ok w"
  shows "registry_ok (fst (write_upload e t data w))"
proof (cases "find_upload w t")
  case None
  with assms show ?thesis by (simp add: write_upload_def)
next
  case (Some u)
  note u = found [OF assms Some]
  show ?thesis
  proof (cases "write_data e w data u")
    case (Inl err)
    with assms show ?thesis by (simp add: write_upload_def Some abort_registry)
  next
    case (Inr v)
    have "\<not> up_closed u \<Longrightarrow> registry_ok (put_upload v w)"
      using replace_registry [OF assms u(1)] write_ok [OF Inr u(3)] by blast
    with Inr assms show ?thesis by (simp add: write_upload_def Some)
  qed
qed

lemma flush_registry:
  assumes "registry_ok w"
  shows "registry_ok (fst (flush_open e t w))"
proof (cases "find_upload w t")
  case None
  with assms show ?thesis by (simp add: flush_open_def)
next
  case (Some u)
  note u = found [OF assms Some]
  show ?thesis
  proof (cases "flush_upload e u")
    case (Inl err)
    with assms show ?thesis by (simp add: flush_open_def Some abort_registry)
  next
    case (Inr v)
    have "\<not> up_closed u \<Longrightarrow> registry_ok (put_upload v w)"
      using replace_registry [OF assms u(1)] flush_ok [OF Inr u(3)] by blast
    with Inr assms show ?thesis by (simp add: flush_open_def Some)
  qed
qed

lemma close_registry: "registry_ok w \<Longrightarrow> registry_ok (close_upload t w)"
  by (simp add: close_upload_def abort_registry split: option.split)

lemma delete_registry: "registry_ok w \<Longrightarrow> registry_ok (delete_stored r p w)"
  by (auto simp: registry_ok_def delete_stored_def live_records_def)

lemma rename_keys:
  assumes "distinct (map file_key fs)" "select_first (\<lambda>f. sf_root f = r \<and> sf_path f = q) fs = None"
  shows "distinct (map file_key (update_rows (\<lambda>f. sf_root f = r \<and> sf_path f = p) (\<lambda>f. f\<lparr>sf_path := q\<rparr>) fs))"
proof -
  define h where "h k = (if k = (r, p) then (r, q) else k)" for k
  have "map file_key (update_rows (\<lambda>f. sf_root f = r \<and> sf_path f = p) (\<lambda>f. f\<lparr>sf_path := q\<rparr>) fs) = map h (map file_key fs)"
    by (auto simp: update_rows_def file_key_def h_def)
  moreover have "(r, q) \<notin> set (map file_key fs)"
    using assms(2) by (auto simp: select_first_None file_key_def)
  then have "inj_on h (set (map file_key fs))"
    unfolding inj_on_def h_def by metis
  ultimately show ?thesis using assms(1) by (simp only: distinct_map [of h] simp_thms)
qed

lemma rename_registry: "registry_ok w \<Longrightarrow> registry_ok (rename_stored r p q w)"
  by (auto simp: registry_ok_def rename_stored_def live_records_def file_at_def rename_keys)

text \<open>Promotion and publication: what they do when they succeed.\<close>

lemma promote_cases:
  obtains (refused) "fst (promote_upload e t r p m ov w) = w"
  | (aborted) u where "find_upload w t = Some u" "fst (promote_upload e t r p m ov w) = abort_upload u w"
  | (promoted) u u1 v where "find_upload w t = Some u" "\<not> up_closed u" "up_staging u" "flush_upload e u = Inr u1"
      "\<forall>x\<in>set (live_records w). up_token x \<noteq> t \<longrightarrow> destination x \<noteq> (r, p)"
      "reserve e w (up_total u1) True (promoted_terms w r p m ov u1) = Inr v"
      "up_total u1 \<le> up_max (promoted_terms w r p m ov u1)"
      "promote_upload e t r p m ov w = (put_upload v w, Inr ())"
proof (cases "find_upload w t")
  case None
  then show ?thesis using refused by (simp add: promote_upload_def)
next
  case (Some u)
  show ?thesis
  proof (cases "up_closed u \<or> \<not> up_staging u")
    case True
    then show ?thesis using refused Some by (simp add: promote_upload_def)
  next
    case False
    define body where "body = bindE (flush_upload e u) (\<lambda>u1.
             if \<exists>x\<in>set (live_records w). up_token x \<noteq> t \<and> up_root x = r \<and> up_path x = p
               then Inl (ValueError ''Another upload is already writing this destination.'')
             else if \<not> ov \<and> file_at w r p \<noteq> None
               then Inl (ValueError (p @ '' already exists. Rename or remove it first.''))
             else if up_max (promoted_terms w r p m ov u1) < up_total u1
               then Inl (ValueError ''Upload exceeds the configured file limit.'')
             else reserve e w (up_total u1) True (promoted_terms w r p m ov u1))"
    have op: "promote_upload e t r p m ov w = (case body of Inl err \<Rightarrow> (abort_upload u w, Inl err) | Inr u2 \<Rightarrow> (put_upload u2 w, Inr ()))"
      using False by (simp add: promote_upload_def Some body_def)
    show ?thesis
    proof (cases body)
      case (Inl err)
      then show ?thesis using aborted [OF Some] op by simp
    next
      case (Inr v)
      then obtain u1 where fl: "flush_upload e u = Inr u1"
        and rest: "(if \<exists>x\<in>set (live_records w). up_token x \<noteq> t \<and> up_root x = r \<and> up_path x = p
               then Inl (ValueError ''Another upload is already writing this destination.'')
             else if \<not> ov \<and> file_at w r p \<noteq> None
               then Inl (ValueError (p @ '' already exists. Rename or remove it first.''))
             else if up_max (promoted_terms w r p m ov u1) < up_total u1 then Inl (ValueError ''Upload exceeds the configured file limit.'')
               else reserve e w (up_total u1) True (promoted_terms w r p m ov u1)) = Inr v"
        unfolding body_def bindE_eq_Inr by blast
      from rest have "\<forall>x\<in>set (live_records w). up_token x \<noteq> t \<longrightarrow> destination x \<noteq> (r, p)"
        by (auto simp: destination_def split: if_splits)
      moreover from rest have "reserve e w (up_total u1) True (promoted_terms w r p m ov u1) = Inr v"
          "up_total u1 \<le> up_max (promoted_terms w r p m ov u1)"
        by (simp_all split: if_splits)
      moreover note fl
      ultimately show ?thesis using promoted [OF Some] False op Inr by simp
    qed
  qed
qed

lemma promoted_upload:
  assumes "registry_ok w" "find_upload w t = Some u" "flush_upload e u = Inr u1" "up_total u1 \<le> up_max (promoted_terms w r p m ov u1)"
    and "reserve e w (up_total u1) True (promoted_terms w r p m ov u1) = Inr v"
  shows "v = (promoted_terms w r p m ov u1)\<lparr>up_capacity := up_total u1\<rparr>" "upload_ok v" "up_token v = t"
    "destination v = (r, p)" "\<not> up_closed v" "up_file v = up_file u1" "up_buffer v = []" "\<not> up_staging v"
proof -
  note u1 = flush_ok [OF assms(3) found(3) [OF assms(1,2)]]
  obtain c where "v = (promoted_terms w r p m ov u1)\<lparr>up_capacity := c\<rparr>" "c = up_total u1"
    using reserve_Inr [OF assms(5)] by metis
  then show "v = (promoted_terms w r p m ov u1)\<lparr>up_capacity := up_total u1\<rparr>" "upload_ok v" "up_token v = t"
    "destination v = (r, p)" "\<not> up_closed v" "up_file v = up_file u1" "up_buffer v = []" "\<not> up_staging v"
    using u1 assms(4) found(2) [OF assms(1,2)] by (auto simp: promoted_terms_def upload_ok_def destination_def buffer_bytes_def)
qed

lemma promote_registry:
  assumes "registry_ok w"
  shows "registry_ok (fst (promote_upload e t r p m ov w))"
proof (cases rule: promote_cases [of e t r p m ov w])
  case refused
  with assms show ?thesis by simp
next
  case (aborted u)
  with assms show ?thesis by (simp add: abort_registry)
next
  case (promoted u u1 v)
  note v = promoted_upload [OF assms promoted(1,4,7,6)]
  from promoted(5) v have "destination_free w v" by (auto simp: destination_free_def)
  with promoted(8) assms v(2) show ?thesis by (simp add: registry_put_upload)
qed

lemma ready_Inr:
  assumes "ready_to_publish e w u = Inr u2"
  obtains u1 where "flush_upload e u = Inr u1" "\<not> up_staging u" "reserve e w (up_total u1) True u1 = Inr u2"
    "case up_expected u of None \<Rightarrow> True | Some n \<Rightarrow> up_total u = n" "bytes_at w (up_root u2) (up_path u2) = credit w u2"
proof -
  from assms obtain u1 where u1: "flush_upload e u = Inr u1" "\<not> up_staging u" "reserve e w (up_total u1) True u1 = Inr u2"
      "case up_expected u of None \<Rightarrow> True | Some n \<Rightarrow> up_total u = n"
    and free: "if up_overwrite u2 then identity_at w (up_root u2) (up_path u2) = up_original u2 else file_at w (up_root u2) (up_path u2) = None"
    unfolding ready_to_publish_def bindE_eq_Inr by (auto simp: bindE_eq_Inr split: if_splits option.splits)
  have "bytes_at w (up_root u2) (up_path u2) = credit w u2"
  proof (cases "up_overwrite u2")
    case True
    with free have i: "identity_at w (up_root u2) (up_path u2) = up_original u2" by simp
    show ?thesis
    proof (cases "up_original u2")
      case None
      with i show ?thesis by (simp add: credit_bytes identity_at_def bytes_at_def)
    next
      case (Some x)
      with i show ?thesis by (simp add: credit_bytes)
    qed
  next
    case False
    with free show ?thesis by (simp add: credit_bytes bytes_at_def)
  qed
  with u1 show ?thesis using that by blast
qed

lemma commit_cases:
  obtains (refused) err where "commit_upload e t w = (w, Inl err)" "err \<noteq> quota_error"
  | (again) u where "find_upload w t = Some u" "up_committed u" "commit_upload e t w = (w, Inr (up_path u, up_total u))"
  | (aborted) u err where "find_upload w t = Some u" "\<not> up_closed u" "ready_to_publish e w u = Inl err" "commit_upload e t w = (abort_upload u w, Inl err)"
  | (published) u u2 where "find_upload w t = Some u" "\<not> up_closed u" "\<not> up_committed u" "ready_to_publish e w u = Inr u2"
      "commit_upload e t w = (put_upload (finished (u2\<lparr>up_committed := True\<rparr>)) (publish u2 w), Inr (up_path u2, up_total u2))"
proof (cases "find_upload w t")
  case None
  then show ?thesis using refused by (simp add: commit_upload_def quota_error_def)
next
  case (Some u)
  consider (c) "up_committed u" | (d) "\<not> up_committed u" "up_closed u" | (o) "\<not> (up_committed u \<or> up_closed u)" by blast
  then show ?thesis
  proof cases
    case c
    then show ?thesis using again [OF Some] Some by (simp add: commit_upload_def)
  next
    case d
    then show ?thesis using refused Some by (simp add: commit_upload_def quota_error_def)
  next
    case o
    note False = o
    show ?thesis
    proof (cases "ready_to_publish e w u")
      case (Inl err)
      then show ?thesis using aborted [OF Some _ Inl] False Some by (simp add: commit_upload_def)
    next
      case (Inr u2)
      then show ?thesis using published [OF Some _ _ Inr] False Some by (simp add: commit_upload_def)
    qed
  qed
qed

lemma logical_limit_capacity [simp]: "logical_limit e w (u\<lparr>up_capacity := c\<rparr>) = logical_limit e w u"
proof -
  have cr: "credit w (u\<lparr>up_capacity := c\<rparr>) = credit w u"
    by (simp add: credit_bytes)
  have sa: "same_account (u\<lparr>up_capacity := c\<rparr>) = same_account u"
    by (auto simp: same_account_def fun_eq_iff)
  show ?thesis by (simp add: logical_limit_def growth_bytes_def cr sa)
qed

lemma ready_upload:
  assumes "registry_ok w" "find_upload w t = Some u" "ready_to_publish e w u = Inr u2"
  shows "u2 = u\<lparr>up_file := up_file u @ up_buffer u, up_buffer := [], up_capacity := up_total u\<rparr>"
    "up_total u2 = int (length (up_file u2))" "up_token u2 = t" "destination u2 = destination u" "\<not> up_staging u2" "\<not> up_closed u2"
    "upload_ok u2" "up_capacity u2 = up_total u2" "up_total u2 \<le> logical_limit e w u2"
proof -
  obtain u1 where u1: "flush_upload e u = Inr u1" "\<not> up_staging u" "reserve e w (up_total u1) True u1 = Inr u2"
    using assms(3) by (rule ready_Inr)
  obtain c where c: "u2 = u1\<lparr>up_capacity := c\<rparr>" "c = up_total u1" "c \<le> logical_limit e w u1"
    using reserve_Inr [OF u1(3)] by metis
  have lim: "logical_limit e w u2 = logical_limit e w u1"
    by (simp add: c(1))
  note ok = flush_ok [OF u1(1) found(3) [OF assms(1,2)]]
  show "u2 = u\<lparr>up_file := up_file u @ up_buffer u, up_buffer := [], up_capacity := up_total u\<rparr>"
    using c flush_Inr [OF u1(1)] by simp
  show "up_total u2 = int (length (up_file u2))" "up_token u2 = t" "destination u2 = destination u" "\<not> up_staging u2" "\<not> up_closed u2"
    "upload_ok u2" "up_capacity u2 = up_total u2" "up_total u2 \<le> logical_limit e w u2"
    using c ok u1(2) found(2) [OF assms(1,2)] flush_Inr [OF u1(1)] lim by (auto simp: destination_def upload_ok_def)
qed

lemma publish_registry: "registry_ok w \<Longrightarrow> registry_ok (publish u w)"
  by (auto simp: registry_ok_def publish_def live_records_def file_key_def)

lemma commit_registry:
  assumes "registry_ok w"
  shows "registry_ok (fst (commit_upload e t w))"
proof (cases rule: commit_cases [of e t w])
  case (published u u2)
  with assms show ?thesis by (simp add: registry_put_upload publish_registry)
qed (use assms in \<open>simp_all add: abort_registry\<close>)

lemma run_op_registry: "registry_ok w \<Longrightarrow> registry_ok (run_op w op)"
  by (cases op) (simp_all add: open_registry write_registry flush_registry promote_registry commit_registry
    close_registry delete_registry rename_registry)

interpretation uploads: step_system run_op registry_ok
  by unfold_locales (rule run_op_registry)

section \<open>The quota\<close>

lemma used_files [simp]: "used b (put_upload u w) = used b w" "used b (abort_upload u w) = used b w"
  "used b (w\<lparr>uw_uploads := us\<rparr>) = used b w"
  by (simp_all add: used_def root_bytes_def)

lemma write_files [simp]: "uw_files (fst (write_upload e t data w)) = uw_files w"
  by (simp add: write_upload_def split: option.split sum.split)

lemma flush_files [simp]: "uw_files (fst (flush_open e t w)) = uw_files w"
  by (simp add: flush_open_def split: option.split sum.split)

lemma promote_files [simp]: "uw_files (fst (promote_upload e t r p m ov w)) = uw_files w"
  by (cases rule: promote_cases [of e t r p m ov w]) simp_all

lemma open_files [simp]: "uw_files (fst (open_upload e t r p m ov ex st w)) = uw_files w"
  by (cases rule: open_cases [of e t r p m ov ex st w]) simp_all

lemma close_files [simp]: "uw_files (close_upload t w) = uw_files w"
  by (simp add: close_upload_def split: option.split)



lemma used_publish_bound:
  assumes "registry_ok w" "find_upload w t = Some u" "ready_to_publish e w u = Inr u2"
  shows "used b (publish u2 w) \<le> max (used b w) (quota b e - growth_of_others b w t)"
proof (cases "in_account b (up_root u2)")
  case True
  note u2 = ready_upload [OF assms]
  have "bytes_at w (up_root u2) (up_path u2) = credit w u2" using assms(3) by (rule ready_Inr)
  moreover have "int (length (up_file u2)) \<le> quota b e - used b w + credit w u2 - growth_of_others b w t"
    using u2 logical_limit_account [OF True u2(5), of e w] by simp
  ultimately show ?thesis
    using used_publish [OF registry_okD(3) [OF assms(1)], of b u2] True by simp
next
  case False
  then show ?thesis using used_publish [OF registry_okD(3) [OF assms(1)], of b u2] by simp
qed






section \<open>Reservations\<close>

definition fits :: "bool \<Rightarrow> int \<Rightarrow> upload_world \<Rightarrow> bool" where
  "fits b q w \<longleftrightarrow> used b w + growth_of_all b w \<le> q"

lemma credit_uploads: "credit (w\<lparr>uw_uploads := us\<rparr>) u = credit w u"
  by (simp add: credit_bytes identity_at_def bytes_at_def file_at_def)

lemma growth_of_uploads [simp]: "growth_of b (w\<lparr>uw_uploads := us\<rparr>) = growth_of b w" "growth_of b (put_upload v w) = growth_of b w"
  by (simp_all add: fun_eq_iff growth_of_def credit_uploads put_upload_def)

lemma growth_put_upload:
  assumes "registry_ok w" "u \<in> set (uw_uploads w)" "up_token v = up_token u"
  shows "growth_of_all b (put_upload v w) = growth_of b w v + growth_of_others b w (up_token u)"
proof -
  have v: "v \<in> set (uw_uploads (put_upload v w))" using assms(2,3) by (metis put_upload_in)
  have d: "distinct (map up_token (uw_uploads (put_upload v w)))"
    using registry_okD(1) [OF assms(1)] by (simp add: put_upload_tokens)
  show ?thesis
    using growth_all_split [OF d v, of b] others_put_upload [of v w] assms(3)
    by (simp add: growth_of_others_def)
qed

lemma fits_replace:
  assumes "registry_ok w" "u \<in> set (uw_uploads w)" "up_token v = up_token u" "fits b q w"
    and "growth_of b w v \<le> growth_of b w u \<or> used b w + growth_of b w v + growth_of_others b w (up_token u) \<le> q"
  shows "fits b q (put_upload v w)"
proof -
  show ?thesis
    using assms growth_put_upload [OF assms(1-3), of b] growth_all_split [OF registry_okD(1) [OF assms(1)] assms(2), of b]
    by (auto simp: fits_def)
qed

text \<open>A reservation that is granted fits.\<close>

lemma growth_update [simp]:
  "growth_of b w (u\<lparr>up_total := n\<rparr>) = growth_of b w u" "growth_of b w (u\<lparr>up_file := fil\<rparr>) = growth_of b w u"
  "growth_of b w (u\<lparr>up_buffer := buf\<rparr>) = growth_of b w u"
  by (simp_all add: growth_of_def credit_bytes)

lemma reserve_fits:
  assumes "reserve e w n ex u = Inr v" "used b w + growth_of_others b w (up_token u) \<le> quota b e"
  shows "used b w + growth_of b w v + growth_of_others b w (up_token u) \<le> quota b e"
proof -
  obtain c where v: "v = u\<lparr>up_capacity := c\<rparr>" and le: "c \<le> logical_limit e w u"
    using reserve_Inr [OF assms(1)] by metis
  show ?thesis
  proof (cases "\<not> up_closed u \<and> \<not> up_staging u \<and> in_account b (up_root u)")
    case True
    moreover have "credit w v = credit w u" by (simp add: v credit_bytes)
    ultimately show ?thesis
      using assms(2) le logical_limit_account [of b u e w] by (auto simp: growth_of_def v max_def)
  next
    case False
    then have "growth_of b w v = 0" by (auto simp: growth_of_def v)
    with assms(2) show ?thesis by simp
  qed
qed

lemma fits_others:
  assumes "registry_ok w" "u \<in> set (uw_uploads w)" "fits b q w"
  shows "used b w + growth_of_others b w (up_token u) \<le> q"
proof -
  have "growth_of_others b w (up_token u) \<le> growth_of_all b w"
    using growth_all_split [OF registry_okD(1) [OF assms(1)] assms(2), of b] growth_of_nonneg [of b w u] by linarith
  with assms(3) show ?thesis by (simp add: fits_def)
qed

lemma abort_fits:
  assumes "registry_ok w" "find_upload w t = Some u" "fits b q w"
  shows "fits b q (abort_upload u w)"
proof -
  have "fits b q (put_upload (finished u) w)"
    by (rule fits_replace [OF assms(1) found(1) [OF assms(1,2)] _ assms(3)]) (simp_all add: growth_of_def)
  with assms(3) show ?thesis by (simp add: abort_upload_def)
qed

lemma open_fits:
  assumes "registry_ok w" "fits b (quota b e) w"
  shows "fits b (quota b e) (fst (open_upload e t r p m ov ex st w))"
proof (cases rule: open_cases [of e t r p m ov ex st w])
  case (refused err)
  with assms show ?thesis by simp
next
  case (opened c n exact)
  define v where "v = (new_upload t w r p m ov ex st)\<lparr>up_capacity := c\<rparr>"
  define w' where "w' = w\<lparr>uw_uploads := uw_uploads w @ [v]\<rparr>"
  have others: "growth_of_others b w t = growth_of_all b w"
    using opened(2) unfolding growth_of_others_def growth_of_all_def
    by (metis (mono_tags, lifting) filter_True image_eqI)
  have "used b w + growth_of b w v + growth_of_others b w t \<le> quota b e"
    using reserve_fits [OF opened(4), of b] assms(2) others by (simp add: fits_def v_def)
  moreover have "growth_of_all b w' = growth_of_all b w + growth_of b w v" "used b w' = used b w"
    by (simp_all add: growth_of_all_def w'_def)
  ultimately show ?thesis using opened(1) others by (simp add: fits_def w'_def v_def)
qed

lemma write_fits:
  assumes "registry_ok w" "fits b (quota b e) w"
  shows "fits b (quota b e) (fst (write_upload e t data w))"
proof (cases "find_upload w t")
  case None
  with assms show ?thesis by (simp add: write_upload_def)
next
  case (Some u)
  note u = found [OF assms(1) Some]
  show ?thesis
  proof (cases "up_closed u")
    case True
    with assms show ?thesis by (simp add: write_upload_def Some)
  next
    case False
    show ?thesis
    proof (cases "write_data e w data u")
      case (Inl err)
      with assms False show ?thesis by (simp add: write_upload_def Some abort_fits [OF assms(1) Some])
    next
      case (Inr v)
      obtain c fil buf where v: "v = u\<lparr>up_capacity := c, up_file := fil, up_buffer := buf, up_total := up_total u + int (length data)\<rparr>"
        and res: "c = up_capacity u \<or> (\<exists>n ex. reserve e w n ex u = Inr (u\<lparr>up_capacity := c\<rparr>))"
        using write_data_Inr [OF Inr u(3) False] by metis
      have g: "growth_of b w v = growth_of b w (u\<lparr>up_capacity := c\<rparr>)" by (simp add: v)
      have "growth_of b w v \<le> growth_of b w u \<or> used b w + growth_of b w v + growth_of_others b w (up_token u) \<le> quota b e"
        using res reserve_fits [OF _ fits_others [OF assms(1) u(1) assms(2)]] by (auto simp: g)
      then have "fits b (quota b e) (put_upload v w)"
        by (intro fits_replace [OF assms(1) u(1) _ assms(2)]) (simp_all add: v)
      with Inr False show ?thesis by (simp add: write_upload_def Some)
    qed
  qed
qed

lemma flush_fits:
  assumes "registry_ok w" "fits b q w"
  shows "fits b q (fst (flush_open e t w))"
proof (cases "find_upload w t")
  case None
  with assms show ?thesis by (simp add: flush_open_def)
next
  case (Some u)
  note u = found [OF assms(1) Some]
  show ?thesis
  proof (cases "flush_upload e u")
    case (Inl err)
    with assms show ?thesis by (simp add: flush_open_def Some abort_fits [OF assms(1) Some])
  next
    case (Inr v)
    note v = flush_Inr [OF Inr]
    have "fits b q (put_upload v w)"
      by (rule fits_replace [OF assms(1) u(1) _ assms(2)]) (simp_all add: v(1))
    with Inr v(2) show ?thesis by (simp add: flush_open_def Some)
  qed
qed

lemma promote_fits:
  assumes "registry_ok w" "fits b (quota b e) w"
  shows "fits b (quota b e) (fst (promote_upload e t r p m ov w))"
proof (cases rule: promote_cases [of e t r p m ov w])
  case refused
  with assms show ?thesis by simp
next
  case (aborted u)
  with assms show ?thesis by (simp add: abort_fits)
next
  case (promoted u u1 v)
  note u = found [OF assms(1) promoted(1)]
  note v = promoted_upload [OF assms(1) promoted(1,4,7,6)]
  have tok: "up_token (promoted_terms w r p m ov u1) = up_token u"
    using flush_Inr [OF promoted(4)] by (simp add: promoted_terms_def)
  have "used b w + growth_of b w v + growth_of_others b w (up_token u) \<le> quota b e"
    using reserve_fits [OF promoted(6), of b, unfolded tok] fits_others [OF assms(1) u(1) assms(2)] by blast
  then have "fits b (quota b e) (put_upload v w)"
    using v(3) u(2) by (intro fits_replace [OF assms(1) u(1) _ assms(2)]) simp_all
  with promoted(8) show ?thesis by simp
qed

lemma growth_publish:
  assumes "up_closed x \<or> destination x \<noteq> destination u"
  shows "growth_of b (publish u w) x = growth_of b w x"
proof (cases "up_closed x")
  case True
  then show ?thesis by (simp add: growth_of_def)
next
  case False
  with assms have "(up_root x, up_path x) \<noteq> destination u" by (simp add: destination_def)
  then have "credit (publish u w) x = credit w x"
    by (simp add: credit_bytes identity_at_def bytes_at_def file_at_publish)
  then show ?thesis by (simp add: growth_of_def)
qed

lemma publish_uploads [simp]: "uw_uploads (publish u w) = uw_uploads w"
  by (simp add: publish_def)

lemma commit_fits:
  assumes "registry_ok w" "fits b (quota b e) w"
  shows "fits b (quota b e) (fst (commit_upload e t w))"
proof (cases rule: commit_cases [of e t w])
  case (aborted u err)
  with assms show ?thesis by (simp add: abort_fits)
next
  case (published u u2)
  note u = found [OF assms(1) published(1)]
  note u2 = ready_upload [OF assms(1) published(1,4)]
  define v where "v = finished (u2\<lparr>up_committed := True\<rparr>)"
  have v: "up_token v = up_token u" "growth_of b w' v = 0" for w'
    using u2(3) u(2) by (simp_all add: v_def growth_of_def)
  have apart: "up_closed x \<or> destination x \<noteq> destination u2" if "x \<in> set (uw_uploads w)" "up_token x \<noteq> t" for x
    using that u published(2) u2(4) registry_okD(2) [OF assms(1)] key_unique [of destination "live_records w" x u]
    by (auto simp: live_records_def)
  have others: "growth_of_others b (publish u2 w) t = growth_of_others b w t"
    unfolding growth_of_others_def publish_uploads
    by (rule arg_cong [of _ _ sum_list], rule map_cong) (auto simp: growth_publish apart)
  have all: "growth_of_all b (put_upload v (publish u2 w)) = growth_of_others b w t"
    using growth_put_upload [OF publish_registry [OF assms(1)], of u u2 v b] u v others by simp
  have "used b (publish u2 w) + growth_of_others b w t \<le> quota b e"
    using used_publish_bound [OF assms(1) published(1,4), of b] fits_others [OF assms(1) u(1) assms(2)] u(2) by simp
  then show ?thesis
    using all published(5) by (simp add: fits_def v_def)
qed (use assms in simp_all)

lemma growth_delete:
  "growth_of b (delete_stored r p w) x \<le> growth_of b w x
     + (if \<not> up_closed x \<and> destination x = (r, p) \<and> in_account b r then bytes_at w r p else 0)"
proof (cases "destination x = (r, p)")
  case True
  then have "credit (delete_stored r p w) x = 0" "credit w x \<le> bytes_at w r p"
    using credit_bounds(2) [of w x] by (auto simp: destination_def credit_bytes identity_at_def bytes_at_def file_at_delete)
  moreover have "0 \<le> credit w x" by (rule credit_bounds)
  ultimately show ?thesis using True by (auto simp: growth_of_def destination_def)
next
  case False
  then have "credit (delete_stored r p w) x = credit w x"
    by (auto simp: destination_def credit_bytes identity_at_def bytes_at_def file_at_delete)
  with False show ?thesis by (simp add: growth_of_def)
qed

lemma sum_growth_delete:
  assumes "distinct (map destination (filter (\<lambda>u. \<not> up_closed u) us))"
  shows "sum_list (map (growth_of b (delete_stored r p w)) us)
     \<le> sum_list (map (growth_of b w) us) + (if in_account b r \<and> (\<exists>x\<in>set us. \<not> up_closed x \<and> destination x = (r, p)) then bytes_at w r p else 0)"
  using assms
proof (induction us)
  case Nil
  then show ?case by simp
next
  case (Cons x us)
  have d: "distinct (map destination (filter (\<lambda>u. \<not> up_closed u) us))"
    using Cons.prems by (simp split: if_splits)
  define H where "H \<longleftrightarrow> \<not> up_closed x \<and> destination x = (r, p)"
  define E where "E \<longleftrightarrow> (\<exists>y\<in>set us. \<not> up_closed y \<and> destination y = (r, p))"
  have rest: "sum_list (map (growth_of b (delete_stored r p w)) us) \<le> sum_list (map (growth_of b w) us) + (if in_account b r \<and> E then bytes_at w r p else 0)"
    unfolding E_def by (rule Cons.IH [OF d])
  have one: "growth_of b (delete_stored r p w) x \<le> growth_of b w x + (if H \<and> in_account b r then bytes_at w r p else 0)"
    using growth_delete [of b r p w x] by (simp add: H_def)
  have apart: "\<not> (H \<and> E)"
    using Cons.prems by (auto simp: H_def E_def image_iff split: if_splits)
  have hit: "(\<exists>y\<in>set (x # us). \<not> up_closed y \<and> destination y = (r, p)) \<longleftrightarrow> H \<or> E"
    by (simp add: H_def E_def)
  show ?case
    unfolding hit using rest one apart by (cases H; cases E; cases "in_account b r") simp_all
qed

lemma delete_uploads [simp]: "uw_uploads (delete_stored r p w) = uw_uploads w"
  by (simp add: delete_stored_def)

lemma delete_fits:
  assumes "registry_ok w" "fits b q w"
  shows "fits b q (delete_stored r p w)"
proof -
  have "growth_of_all b (delete_stored r p w) \<le> growth_of_all b w
      + (if in_account b r \<and> (\<exists>x\<in>set (uw_uploads w). \<not> up_closed x \<and> destination x = (r, p)) then bytes_at w r p else 0)"
    using sum_growth_delete [of "uw_uploads w" b r p w] registry_okD(2) [OF assms(1)]
    by (simp add: growth_of_all_def live_records_def)
  also have "\<dots> \<le> growth_of_all b w + (if in_account b r then bytes_at w r p else 0)" by simp
  finally have "growth_of_all b (delete_stored r p w) \<le> growth_of_all b w + (if in_account b r then bytes_at w r p else 0)" .
  then show ?thesis
    using assms used_delete [OF registry_okD(3) [OF assms(1)], of b r p] by (simp add: fits_def)
qed

end
