(* ===== verification/Upload_Results.thy ===== *)
theory Upload_Results
  imports Upload_Quota
begin

text \<open>
  Over runs: reservations that were granted are honoured, and a published file holds what its
  upload was given, byte for byte.
\<close>

section \<open>Reservations over runs\<close>

text \<open>The settings stay as they are and nobody renames a file.\<close>

fun steady :: "(bool \<Rightarrow> int) \<Rightarrow> upload_op \<Rightarrow> bool" where
  "steady q (Rename r p p') = False"
| "steady q op = (case op_env op of None \<Rightarrow> True | Some e \<Rightarrow> quota True e = q True \<and> quota False e = q False)"

lemma steady_env: "steady q op \<Longrightarrow> op_env op = Some e \<Longrightarrow> quota b e = q b"
  by (cases op; cases b) auto

lemma run_op_fits:
  assumes "registry_ok w" "fits b (q b) w" "steady q op"
  shows "fits b (q b) (run_op w op)"
proof (cases op)
  case (Open e t r p m ov ex st)
  then show ?thesis using steady_env [OF assms(3), of e b] open_fits [OF assms(1), of b e] assms(2) by simp
next
  case (Write e t data)
  then show ?thesis using steady_env [OF assms(3), of e b] write_fits [OF assms(1), of b e] assms(2) by simp
next
  case (Flush e t)
  then show ?thesis using flush_fits [OF assms(1,2)] by simp
next
  case (Promote e t r p m ov)
  then show ?thesis using steady_env [OF assms(3), of e b] promote_fits [OF assms(1), of b e] assms(2) by simp
next
  case (Commit e t)
  then show ?thesis using steady_env [OF assms(3), of e b] commit_fits [OF assms(1), of b e] assms(2) by simp
next
  case (Close t)
  then show ?thesis using assms(2) abort_fits [OF assms(1) _ assms(2)] by (simp add: close_upload_def split: option.split)
next
  case (Delete r p)
  then show ?thesis using delete_fits [OF assms(1,2)] by simp
next
  case (Rename r p p')
  with assms(3) show ?thesis by simp
qed

lemma run_fits:
  assumes "registry_ok w" "fits b (q b) w" "\<forall>op\<in>set ops. steady q op"
  shows "fits b (q b) (foldl run_op w ops)"
  using assms
proof (induction ops arbitrary: w)
  case Nil
  then show ?case by simp
next
  case (Cons op ops)
  then show ?case using run_op_fits run_op_registry by auto
qed

lemma reserve_not_quota:
  assumes "reserve e w n ex u = Inl err" "n \<le> logical_limit e w u"
  shows "err \<noteq> quota_error"
  using assms by (auto simp: reserve_def quota_error_def Let_def split: if_splits)

lemma held_capacity:
  assumes "registry_ok w" "u \<in> set (uw_uploads w)" "\<not> up_closed u" "fits True (quota True e) w" "fits False (quota False e) w"
  shows "up_total u \<le> logical_limit e w u"
proof (cases "accounted u")
  case True
  then obtain b where b: "in_account b (up_root u)" "\<not> up_staging u" by (auto simp: accounted_def)
  have "fits b (quota b e) w" using assms(4,5) by (cases b) simp_all
  then have "used b w + (growth_of b w u + growth_of_others b w (up_token u)) \<le> quota b e"
    using growth_all_split [OF registry_okD(1) [OF assms(1)] assms(2), of b] by (simp add: fits_def)
  then show ?thesis
    using logical_limit_account [OF b] b assms(3) upload_okD(3) [OF registry_okD(4) [OF assms(1,2)] assms(3)]
    by (auto simp: growth_of_def max_def split: if_splits)
next
  case False
  then show ?thesis
    using logical_limit_other upload_okD(4) [OF registry_okD(4) [OF assms(1,2)] assms(3)] by simp
qed

lemma logical_limit_flush: "logical_limit e w (u\<lparr>up_file := f, up_buffer := g\<rparr>) = logical_limit e w u"
proof -
  have cr: "credit w (u\<lparr>up_file := f, up_buffer := g\<rparr>) = credit w u"
    by (simp add: credit_bytes)
  have sa: "same_account (u\<lparr>up_file := f, up_buffer := g\<rparr>) = same_account u"
    by (auto simp: same_account_def fun_eq_iff)
  show ?thesis by (simp add: logical_limit_def growth_bytes_def cr sa)
qed

lemma ready_not_quota:
  assumes "ready_to_publish e w u = Inl err" "up_total u \<le> logical_limit e w u"
  shows "err \<noteq> quota_error"
proof (cases "flush_upload e u")
  case (Inl err')
  with assms(1) flush_not_quota [OF Inl] show ?thesis
    by (auto simp: ready_to_publish_def quota_error_def split: if_splits option.splits)
next
  case (Inr u1)
  have u1: "u1 = u\<lparr>up_file := up_file u @ up_buffer u, up_buffer := []\<rparr>" using Inr by (rule flush_Inr)
  have le: "up_total u1 \<le> logical_limit e w u1" using assms(2) by (simp add: u1 logical_limit_flush)
  show ?thesis
  proof (cases "reserve e w (up_total u1) True u1")
    case (Inl err')
    with assms(1) Inr reserve_not_quota [OF Inl le] show ?thesis
      by (auto simp: ready_to_publish_def quota_error_def split: if_splits option.splits)
  next
    case (Inr u2)
    with assms(1) \<open>flush_upload e u = Inr u1\<close> show ?thesis
      by (auto simp: ready_to_publish_def quota_error_def split: if_splits option.splits)
  qed
qed

lemma commit_not_quota:
  assumes "registry_ok w" "fits True (quota True e) w" "fits False (quota False e) w"
  shows "snd (commit_upload e t w) \<noteq> Inl quota_error"
proof (cases rule: commit_cases [of e t w])
  case (aborted u err)
  have "up_total u \<le> logical_limit e w u"
    using held_capacity [OF assms(1) found(1) [OF assms(1) aborted(1)] aborted(2)] assms(2,3) by blast
  from ready_not_quota [OF aborted(3) this] aborted(4) show ?thesis by simp
qed auto

text \<open>
  C34: While the settings stay as they are and nobody renames a file, publishing an upload is
  never refused for want of quota, whatever other uploads and deletions run in between: the bytes that
  were accepted are covered by the reservation of the upload.
\<close>

theorem accepted_bytes_can_be_published:
  assumes "registry_ok w" "fits True (q True) w" "fits False (q False) w" "\<forall>op\<in>set ops. steady q op"
    and "quota True e = q True" "quota False e = q False"
  shows "snd (commit_upload e t (foldl run_op w ops)) \<noteq> Inl (ValueError ''The configured storage quota would be exceeded.'')"
  using commit_not_quota [OF uploads.run_invar [OF assms(1)], of e ops t]
    run_fits [OF assms(1,2,4)] run_fits [OF assms(1,3,4)] assms(5,6)
  by (simp add: quota_error_def)

section \<open>What is published\<close>

fun sent_by :: "string \<Rightarrow> upload_op \<Rightarrow> bytes" where
  "sent_by t (Write e t' data) = (if t' = t then data else [])"
| "sent_by t op = []"

definition sent :: "string \<Rightarrow> upload_op list \<Rightarrow> bytes" where
  "sent t ops = concat (map (sent_by t) ops)"

lemma find_put_upload:
  "find_upload (put_upload v w) t = (if t = up_token v \<and> find_upload w t \<noteq> None then Some v else find_upload w t)"
proof -
  have "select_first (\<lambda>u. up_token u = t) (update_rows (\<lambda>r. up_token r = up_token v) (\<lambda>_. v) us)
     = (if t = up_token v \<and> select_first (\<lambda>u. up_token u = t) us \<noteq> None then Some v else select_first (\<lambda>u. up_token u = t) us)" for us
    by (induction us) (auto simp: select_first_def)
  from this [of "uw_uploads w"] show ?thesis by (auto simp: find_upload_def put_upload_def)
qed

lemma find_files [simp]: "find_upload (w\<lparr>uw_files := fs\<rparr>) t = find_upload w t"
  by (simp add: find_upload_def)

lemma find_publish [simp]: "find_upload (publish u w) t = find_upload w t"
  by (simp add: find_upload_def)

text \<open>An upload goes on from \<open>u\<close> to \<open>v\<close> with the bytes \<open>d\<close>, or it is closed.\<close>

definition continues :: "upload \<Rightarrow> bytes \<Rightarrow> upload \<Rightarrow> bool" where
  "continues u d v \<longleftrightarrow> (up_closed u \<longrightarrow> up_closed v) \<and> (\<not> up_closed v \<longrightarrow> up_file v @ up_buffer v = up_file u @ up_buffer u @ d)"

lemma continues_refl [simp]: "continues u [] u"
  by (simp add: continues_def)

lemma continues_finished [simp]: "continues u d (finished v)"
  by (simp add: continues_def)

lemma continues_trans: "continues u d v \<Longrightarrow> continues v d' x \<Longrightarrow> continues u (d @ d') x"
  unfolding continues_def by (metis append_assoc)


lemma keeps_token: "t \<in> up_token ` set (uw_uploads w) \<longleftrightarrow> find_upload w t \<noteq> None"
  by (auto simp: find_upload_def select_first_None image_iff)

lemma continues_put:
  assumes "find_upload w t = Some u" "up_token x = up_token v" "find_upload w (up_token x) = Some x"
    and "up_token x = t \<Longrightarrow> continues u d v" "up_token x \<noteq> t \<Longrightarrow> d = []"
  shows "\<exists>u'. find_upload (put_upload v w) t = Some u' \<and> continues u d u'"
  using assms by (cases "up_token x = t") (simp_all add: find_put_upload)

lemma continues_abort:
  assumes "find_upload w t = Some u" "find_upload w t' = Some x" "registry_ok w" "t' = t \<or> d = []" "\<not> up_closed x \<or> d = [] \<or> t' = t"
  shows "\<exists>u'. find_upload (abort_upload x w) t = Some u' \<and> continues u d u'"
proof (cases "up_closed x")
  case True
  then show ?thesis using assms by (auto simp: abort_upload_def continues_def)
next
  case False
  then show ?thesis
    using assms found(2) [OF assms(3,2)] by (auto simp: abort_upload_def find_put_upload)
qed

text \<open>Each operation, seen by one upload.\<close>

lemma append_find: "find_upload w t = Some u \<Longrightarrow> find_upload (w\<lparr>uw_uploads := uw_uploads w @ [v]\<rparr>) t = Some u"
  by (simp add: find_upload_def select_first_append)

lemma write_continues:
  assumes "registry_ok w" "find_upload w t = Some u"
  shows "\<exists>u'. find_upload (fst (write_upload e t' data w)) t = Some u' \<and> continues u (sent_by t (Write e t' data)) u'"
proof (cases "find_upload w t'")
  case None
  with assms have "t' \<noteq> t" by auto
  with None assms show ?thesis by (simp add: write_upload_def)
next
  case (Some x)
  note x = found [OF assms(1) Some]
  show ?thesis
  proof (cases "up_closed x")
    case True
    with Some assms show ?thesis by (auto simp: write_upload_def continues_def)
  next
    case False
    show ?thesis
    proof (cases "write_data e w data x")
      case (Inl err)
      with False Some show ?thesis
        using continues_abort [OF assms(2) Some assms(1), of "sent_by t (Write e t' data)"] by (simp add: write_upload_def)
    next
      case (Inr v)
      obtain c fil buf where v: "v = x\<lparr>up_capacity := c, up_file := fil, up_buffer := buf, up_total := up_total x + int (length data)\<rparr>"
        and cat: "fil @ buf = up_file x @ up_buffer x @ data"
        using write_data_Inr [OF Inr x(3) False] by metis
      have "continues x data v" using False cat by (simp add: continues_def v)
      then have "\<exists>u'. find_upload (put_upload v w) t = Some u' \<and> continues u (sent_by t (Write e t' data)) u'"
        using assms(2) Some x(2) by (intro continues_put [OF assms(2), of x]) (auto simp: v)
      with Inr False Some show ?thesis by (simp add: write_upload_def)
    qed
  qed
qed

lemma flush_continues:
  assumes "registry_ok w" "find_upload w t = Some u"
  shows "\<exists>u'. find_upload (fst (flush_open e t' w)) t = Some u' \<and> continues u [] u'"
proof (cases "find_upload w t'")
  case None
  with assms show ?thesis by (simp add: flush_open_def)
next
  case (Some x)
  note x = found [OF assms(1) Some]
  show ?thesis
  proof (cases "flush_upload e x")
    case (Inl err)
    with Some assms show ?thesis
      using continues_abort [OF assms(2) Some assms(1), of "[]"] by (auto simp: flush_open_def)
  next
    case (Inr v)
    note v = flush_Inr [OF Inr]
    have "continues x [] v" using v by (simp add: continues_def)
    then have "\<exists>u'. find_upload (put_upload v w) t = Some u' \<and> continues u [] u'"
      using assms(2) Some x(2) by (intro continues_put [OF assms(2), of x]) (auto simp: v(1))
    with Inr v(2) Some show ?thesis by (simp add: flush_open_def)
  qed
qed

lemma promote_continues:
  assumes "registry_ok w" "find_upload w t = Some u"
  shows "\<exists>u'. find_upload (fst (promote_upload e t' r p m ov w)) t = Some u' \<and> continues u [] u'"
proof (cases rule: promote_cases [of e t' r p m ov w])
  case refused
  with assms show ?thesis by simp
next
  case (aborted x)
  with assms show ?thesis using continues_abort [OF assms(2) aborted(1) assms(1), of "[]"] by auto
next
  case (promoted x u1 v)
  note x = found [OF assms(1) promoted(1)]
  note v = promoted_upload [OF assms(1) promoted(1,4,7,6)]
  have "continues x [] v" using v flush_Inr [OF promoted(4)] by (simp add: continues_def)
  then have "\<exists>u'. find_upload (put_upload v w) t = Some u' \<and> continues u [] u'"
    using assms(2) promoted(1) x(2) v(3) by (intro continues_put [OF assms(2), of x]) auto
  with promoted(8) show ?thesis by simp
qed

lemma commit_continues:
  assumes "registry_ok w" "find_upload w t = Some u"
  shows "\<exists>u'. find_upload (fst (commit_upload e t' w)) t = Some u' \<and> continues u [] u'"
proof (cases rule: commit_cases [of e t' w])
  case (aborted x err)
  with assms show ?thesis using continues_abort [OF assms(2) aborted(1) assms(1), of "[]"] by auto
next
  case (published x u2)
  note x = found [OF assms(1) published(1)]
  note u2 = ready_upload [OF assms(1) published(1,4)]
  show ?thesis
    using assms(2) published(1,5) x(2) u2(3)
      continues_put [of "publish u2 w" t u x "finished (u2\<lparr>up_committed := True\<rparr>)" "[]"] by auto
qed (use assms in simp_all)

lemma run_op_continues:
  assumes "registry_ok w" "find_upload w t = Some u"
  shows "\<exists>u'. find_upload (run_op w op) t = Some u' \<and> continues u (sent_by t op) u'"
proof (cases op)
  case (Open e t' r p m ov ex st)
  show ?thesis
    by (cases rule: open_cases [of e t' r p m ov ex st w])
      (use assms Open append_find [OF assms(2)] in simp_all)
next
  case (Close t')
  then show ?thesis
    using assms continues_abort [OF assms(2) _ assms(1), of t' _ "[]"] by (auto simp: close_upload_def split: option.split)
next
  case (Delete r p)
  with assms show ?thesis by (simp add: delete_stored_def)
next
  case (Rename r p q)
  with assms show ?thesis by (simp add: rename_stored_def)
qed (use assms in \<open>simp_all del: sent_by.simps(1) add: write_continues flush_continues promote_continues commit_continues\<close>)

lemma run_continues:
  assumes "registry_ok w" "find_upload w t = Some u"
  shows "\<exists>u'. find_upload (foldl run_op w ops) t = Some u' \<and> continues u (sent t ops) u'"
  using assms
proof (induction ops arbitrary: w u)
  case Nil
  then show ?case by (simp add: sent_def)
next
  case (Cons op ops)
  obtain v where v: "find_upload (run_op w op) t = Some v" "continues u (sent_by t op) v"
    using run_op_continues [OF Cons.prems] by blast
  from Cons.IH [OF run_op_registry [OF Cons.prems(1)] v(1)] v(2) show ?case
    by (auto simp: sent_def intro: continues_trans)
qed

text \<open>
  C35: When an upload that was opened is published, whatever ran in between, its file holds
  exactly the concatenation of what was written to it since, the size reported is its length, and no other
  file changes.
\<close>

theorem published_file_is_what_was_written:
  assumes "registry_ok w" "open_upload e t r p m ov ex st w = (w0, Inr t)" "find_upload (foldl run_op w0 ops) t = Some u"
    and "\<not> up_committed u" "commit_upload e' t (foldl run_op w0 ops) = (w', Inr (q, n))"
  shows "\<exists>f. file_at w' (up_root u) q = Some f \<and> sf_content f = sent t ops \<and> n = int (length (sent t ops)) \<and>
    (\<forall>r' p'. (r', p') \<noteq> (up_root u, q) \<longrightarrow> file_at w' r' p' = file_at (foldl run_op w0 ops) r' p')"
proof -
  define w1 where "w1 = foldl run_op w0 ops"
  have reg0: "registry_ok w0" using open_registry [OF assms(1), of e t r p m ov ex st] assms(2) by simp
  then have reg: "registry_ok w1" unfolding w1_def by (rule uploads.run_invar)
  obtain u0 where u0: "find_upload w0 t = Some u0" "up_file u0 = []" "up_buffer u0 = []"
  proof (cases rule: open_cases [of e t r p m ov ex st w])
    case (refused err)
    with assms(2) show ?thesis by simp
  next
    case (opened c k exact)
    define v where "v = (new_upload t w r p m ov ex st)\<lparr>up_capacity := c\<rparr>"
    have "find_upload w t = None" using opened(2) keeps_token by auto
    then have "find_upload w0 t = Some v"
      using opened(1) assms(2) by (simp add: find_upload_def select_first_append v_def) (simp add: select_first_def)
    then show ?thesis using that by (simp add: v_def)
  qed
  have go: "continues u0 (sent t ops) u"
    using run_continues [OF reg0 u0(1), of ops] assms(3) by simp
  show ?thesis
  proof (cases rule: commit_cases [of e' t w1])
    case (again x)
    with assms(3,4) show ?thesis by (simp add: w1_def)
  next
    case (published x u2)
    have x: "x = u" using published(1) assms(3) by (simp add: w1_def)
    note u2 = ready_upload [OF reg published(1,4), unfolded x]
    have up: "up_file u2 = sent t ops" "up_root u2 = up_root u" "destination u2 = (up_root u, q)"
      using u2(1) go published(2,5) u0(2,3) assms(5) by (auto simp: continues_def x w1_def [symmetric] destination_def)
    have w': "w' = put_upload (finished (u2\<lparr>up_committed := True\<rparr>)) (publish u2 w1)" "n = up_total u2"
      using published(5) assms(5) by (auto simp: w1_def [symmetric])
    have at: "file_at w' r' p' = file_at (publish u2 w1) r' p'" for r' p'
      by (simp add: w' file_at_def)
    show ?thesis
      unfolding at w1_def [symmetric] using up u2(2) w'(2) by (simp add: file_at_publish)
  qed (use assms(5) in \<open>simp_all add: w1_def\<close>)
qed

end
