(* ===== verification/Upload_Witnesses.thy ===== *)
theory Upload_Witnesses
  imports Upload_Results
begin

text \<open>A datastore with one file, and an upload that replaces it while another one is written and given up.\<close>

definition sample_upload_env :: upload_env where
  "sample_upload_env = \<lparr>ue_quota_gib = 10, ue_artifact_gib = 10, ue_free_gib = 2, ue_free = 100 * gib, ue_parent_ok = True, ue_write_ok = True\<rparr>"

definition sample_world :: upload_world where
  "sample_world = \<lparr>uw_files = [\<lparr>sf_root = Datastore_root, sf_path = ''a'', sf_stamp = 0, sf_content = [1, 2]\<rparr>],
     uw_uploads = [], uw_stamp = 1\<rparr>"

definition sample_upload_ops :: "upload_op list" where
  "sample_upload_ops =
     [Open sample_upload_env ''u'' Datastore_root ''b'' 1000 False None False,
      Write sample_upload_env ''t'' [7, 8, 9],
      Write sample_upload_env ''u'' [1],
      Close ''u'',
      Write sample_upload_env ''t'' [10]]"

lemma sample_registry: "registry_ok sample_world"
  by (simp add: registry_ok_def sample_world_def live_records_def)

lemma sample_used: "used False sample_world = 2" "used True sample_world = 0"
  by (simp_all add: used_def root_bytes_def sample_world_def in_account_def is_artifact_def)

lemma sample_fits: "fits b (10 * gib) sample_world"
  by (cases b) (simp_all add: fits_def sample_used growth_of_all_def sample_world_def gib_def used_def root_bytes_def in_account_def is_artifact_def)

lemma sample_quota: "quota b sample_upload_env = 10 * gib"
  by (simp add: quota_def sample_upload_env_def)

lemma sample_steady: "\<forall>op\<in>set sample_upload_ops. steady (\<lambda>_. 10 * gib) op"
  by (simp add: sample_upload_ops_def sample_quota)


theorem accepted_bytes_can_be_published_witness:
  "snd (commit_upload sample_upload_env ''t'' (foldl run_op sample_world
       (Open sample_upload_env ''t'' Datastore_root ''a'' 1000 True None False # sample_upload_ops)))
     \<noteq> Inl (ValueError ''The configured storage quota would be exceeded.'')"
  by (rule accepted_bytes_can_be_published [where q = "\<lambda>_. 10 * gib"])
    (simp_all add: sample_registry sample_fits sample_quota sample_steady)

lemmas upload_eval = open_upload_def new_upload_def identity_at_def file_at_def select_first_def live_records_def reserve_def logical_limit_def
  physical_limit_def growth_bytes_def pending_bytes_def root_bytes_def credit_def gib_def sample_upload_env_def sample_world_def
  reservation_bytes_def max_reservation_step_def write_upload_def write_data_def find_upload_def put_upload_def buffer_loop.simps
  buffer_bytes_def bindE_def flush_upload_def same_account_def is_artifact_def close_upload_def abort_upload_def finished_def
  commit_upload_def ready_to_publish_def publish_def Let_def

definition sample_opened :: upload_world where
  "sample_opened = fst (open_upload sample_upload_env ''t'' Datastore_root ''a'' 1000 True None False sample_world)"

lemma sample_opened_token: "open_upload sample_upload_env ''t'' Datastore_root ''a'' 1000 True None False sample_world = (sample_opened, Inr ''t'')"
  by (simp add: sample_opened_def upload_eval)

lemma sample_run: 
  "find_upload (foldl run_op sample_opened sample_upload_ops) ''t'' =
     Some \<lparr>up_token = ''t'', up_root = Datastore_root, up_path = ''a'', up_original = Some (0, 2), up_capacity = 4,
      up_staging = False, up_max = 1000, up_overwrite = True, up_expected = None, up_total = 4, up_closed = False,
      up_committed = False, up_buffer = [7, 8, 9, 10], up_file = []\<rparr>"
  by (simp add: sample_opened_def sample_upload_ops_def upload_eval)

lemma sample_commit:
  "\<exists>w'. commit_upload sample_upload_env ''t'' (foldl run_op sample_opened sample_upload_ops) = (w', Inr (''a'', 4))"
  by (simp add: sample_opened_def sample_upload_ops_def upload_eval)

theorem published_file_is_what_was_written_witness:
  "\<exists>w' f. commit_upload sample_upload_env ''t'' (foldl run_op sample_opened sample_upload_ops) = (w', Inr (''a'', 4)) \<and>
     file_at w' Datastore_root ''a'' = Some f \<and> sf_content f = [7, 8, 9, 10]"
proof -
  obtain w' where w': "commit_upload sample_upload_env ''t'' (foldl run_op sample_opened sample_upload_ops) = (w', Inr (''a'', 4))"
    using sample_commit by blast
  have "sent ''t'' sample_upload_ops = [7, 8, 9, 10]"
    by (simp add: sent_def sample_upload_ops_def)
  with published_file_is_what_was_written [OF sample_registry sample_opened_token sample_run _ w'] w'
  show ?thesis by auto
qed

end
