(* ===== verification/Path_Text.thy ===== *)
theory Path_Text
  imports Prelude
begin

text \<open>Slash-separated paths as the datastore and the TFTP server read them.\<close>

definition strip_slashes :: "string \<Rightarrow> string" where
  "strip_slashes s = rev (dropWhile (\<lambda>c. c = CHR ''/'') (rev (dropWhile (\<lambda>c. c = CHR ''/'') s)))"

definition unix_slashes :: "string \<Rightarrow> string" where
  "unix_slashes s = map (\<lambda>c. if c = CHR 92 then CHR ''/'' else c) s"

text \<open>\<open>Path(s).parts\<close> of a relative path.\<close>

definition path_parts :: "string \<Rightarrow> string list" where
  "path_parts s = filter (\<lambda>w. w \<noteq> [] \<and> w \<noteq> ''.'') (split_on (CHR ''/'') s)"

definition join_path :: "string list \<Rightarrow> string" where
  "join_path ws = join_with ''/'' (filter (\<lambda>w. w \<noteq> []) ws)"

lemma split_on_sep: "split_on d (xs @ d # ys) = split_on d xs @ split_on d ys"
proof (induction xs)
  case Nil
  then show ?case by simp
next
  case (Cons c xs)
  then show ?case by (cases "split_on d xs") auto
qed

lemma path_parts_join: "path_parts (join_path [a, b]) = path_parts a @ path_parts b"
  by (cases "a = []"; cases "b = []") (simp_all add: join_path_def path_parts_def split_on_sep)

end
