(* ===== verification/Tftp.thy ===== *)
theory Tftp
  imports Net_Bytes Path_Text
begin

text \<open>
  The TFTP server of \<open>tftp.py\<close>: requests and options, the paths below the configured root, and the two
  transfer loops with their retransmissions.

  Text is held as its UTF-8 bytes, one character per byte: the names of the requests are bytes on the wire
  and bytes in the file system, and the separators the code looks for are ASCII.  A transfer runs
  against the list of what its socket will receive, each entry a datagram or a silence as long as the timeout;
  after the list the client stays silent.  Storage enters as the operations of the upload object.
\<close>

section \<open>Errors\<close>

datatype tftp_error =
    Conflict_error string
  | Datastore_error string
  | Permission_error string
  | Value_error string
  | Os_error string
  | Timeout_error string

fun error_message :: "tftp_error \<Rightarrow> string" where
  "error_message (Conflict_error m) = m"
| "error_message (Datastore_error m) = m"
| "error_message (Permission_error m) = m"
| "error_message (Value_error m) = m"
| "error_message (Os_error m) = m"
| "error_message (Timeout_error m) = m"

fun error_code :: "tftp_error \<Rightarrow> nat" where
  "error_code (Conflict_error m) = 6"
| "error_code (Datastore_error m) = 2"
| "error_code (Permission_error m) = 2"
| "error_code e = 0"

section \<open>Packets\<close>

definition text_bytes :: "string \<Rightarrow> bytes" where
  "text_bytes s = map (\<lambda>c. of_nat (of_char c)) s"

definition bytes_text :: "bytes \<Rightarrow> string" where
  "bytes_text bs = map (\<lambda>b. char_of (unat b)) bs"

definition data_packet :: "nat \<Rightarrow> bytes \<Rightarrow> bytes" where
  "data_packet block payload = be16 3 @ be16 block @ payload"

definition ack_packet :: "nat \<Rightarrow> bytes" where
  "ack_packet block = be16 4 @ be16 block"

definition error_packet :: "nat \<Rightarrow> string \<Rightarrow> bytes" where
  "error_packet code message = be16 5 @ be16 code @ take 500 (text_bytes message) @ [0]"

definition oack_packet :: "(string \<times> string) list \<Rightarrow> bytes" where
  "oack_packet options = be16 6 @ concat (map (\<lambda>(k, v). text_bytes k @ [0] @ text_bytes v @ [0]) options)"

section \<open>Requests\<close>

text \<open>\<open>bytes.decode('utf-8')\<close> succeeds.\<close>

definition continuation :: "byte \<Rightarrow> bool" where
  "continuation b \<longleftrightarrow> 128 \<le> unat b \<and> unat b < 192"

fun utf8_ok :: "bytes \<Rightarrow> bool" where
  "utf8_ok [] = True"
| "utf8_ok (a # bs) = (let n = unat a in
     if n < 128 then utf8_ok bs
     else if n < 194 then False
     else if n < 224 then (case bs of b # rest \<Rightarrow> continuation b \<and> utf8_ok rest | _ \<Rightarrow> False)
     else if n < 240 then (case bs of b # c # rest \<Rightarrow> continuation b \<and> continuation c \<and>
         (n = 224 \<longrightarrow> 160 \<le> unat b) \<and> (n = 237 \<longrightarrow> unat b < 160) \<and> utf8_ok rest | _ \<Rightarrow> False)
     else if n < 245 then (case bs of b # c # d # rest \<Rightarrow> continuation b \<and> continuation c \<and> continuation d \<and>
         (n = 240 \<longrightarrow> 144 \<le> unat b) \<and> (n = 244 \<longrightarrow> unat b < 144) \<and> utf8_ok rest | _ \<Rightarrow> False)
     else False)"

definition ascii_ok :: "bytes \<Rightarrow> bool" where
  "ascii_ok bs \<longleftrightarrow> list_all (\<lambda>b. unat b < 128) bs"

fun split_zero :: "bytes \<Rightarrow> bytes list" where
  "split_zero [] = [[]]"
| "split_zero (b # bs) = (if b = 0 then [] # split_zero bs
     else (case split_zero bs of [] \<Rightarrow> [[b]] | f # fs \<Rightarrow> (b # f) # fs))"

record tftp_request =
  rq_opcode :: nat
  rq_filename :: string
  rq_mode :: string
  rq_options :: "(string \<times> string) list"

text \<open>The options are a dictionary: the last value of a key counts, at the place of its first.\<close>

fun option_pairs :: "bytes list \<Rightarrow> (bytes \<times> bytes) list" where
  "option_pairs (k # v # fs) = (k, v) # option_pairs fs"
| "option_pairs fs = []"

definition option_dict :: "(bytes \<times> bytes) list \<Rightarrow> (string \<times> string) list" where
  "option_dict kvs = fold (\<lambda>(k, v). assoc_put (py_lower (bytes_text k)) (bytes_text v)) kvs []"

definition drop_last_empty :: "bytes list \<Rightarrow> bytes list" where
  "drop_last_empty fs = (if fs \<noteq> [] \<and> last fs = [] then butlast fs else fs)"

definition parse_request :: "bytes \<Rightarrow> tftp_error + tftp_request" where
  "parse_request packet =
     (if length packet < 4 then Inl (Value_error ''Malformed TFTP request'')
      else let opcode = from_be (slice 0 2 packet) in
      if opcode \<notin> {1, 2} then Inl (Value_error ''Expected a read or write request'')
      else let fields = drop_last_empty (split_zero (drop 2 packet)) in
      if length fields < 2 then Inl (Value_error ''Malformed TFTP request'')
      else if (length fields - 2) mod 2 \<noteq> 0 then Inl (Value_error ''Malformed TFTP option list'')
      else if \<not> utf8_ok (fields ! 0) \<or> \<not> ascii_ok (fields ! 1) \<or> \<not> list_all ascii_ok (drop 2 fields)
        then Inl (Value_error ''Malformed TFTP request'')
      else if py_lower (bytes_text (fields ! 1)) \<noteq> ''octet'' then Inl (Value_error ''Only octet (binary) transfers are supported'')
      else if fields ! 0 = [] then Inl (Value_error ''A filename is required'')
      else Inr \<lparr>rq_opcode = opcode, rq_filename = bytes_text (fields ! 0), rq_mode = py_lower (bytes_text (fields ! 1)),
        rq_options = option_dict (option_pairs (drop 2 fields))\<rparr>)"

section \<open>Options\<close>

definition int_option :: "string \<Rightarrow> tftp_error + int" where
  "int_option v = (case py_int v of Some i \<Rightarrow> Inr i
     | None \<Rightarrow> Inl (Value_error (''invalid literal for int() with base 10: '' @ repr_string v)))"

record transfer_options =
  to_block_size :: nat
  to_timeout :: nat
  to_accepted :: "(string \<times> string) list"

text \<open>\<open>_options\<close>, one option after the other.\<close>

definition block_size_option :: "(string \<times> string) list \<Rightarrow> tftp_error + (nat \<times> (string \<times> string) list)" where
  "block_size_option os = (case map_of os ''blksize'' of None \<Rightarrow> Inr (512, [])
     | Some v \<Rightarrow> (case int_option v of Inl e \<Rightarrow> Inl e
        | Inr n \<Rightarrow> if \<not> (8 \<le> n \<and> n \<le> 65464) then Inl (Value_error ''Invalid TFTP block size'')
            else Inr (nat n, [(''blksize'', show_int n)])))"

definition timeout_option :: "(string \<times> string) list \<Rightarrow> tftp_error + (nat \<times> (string \<times> string) list)" where
  "timeout_option os = (case map_of os ''timeout'' of None \<Rightarrow> Inr (3, [])
     | Some v \<Rightarrow> (case int_option v of Inl e \<Rightarrow> Inl e
        | Inr n \<Rightarrow> if \<not> (1 \<le> n \<and> n \<le> 10) then Inl (Value_error ''Invalid TFTP timeout'')
            else Inr (nat n, [(''timeout'', show_int n)])))"

definition size_option :: "(string \<times> string) list \<Rightarrow> int \<Rightarrow> bool \<Rightarrow> tftp_error + (string \<times> string) list" where
  "size_option os file_size write = (case map_of os ''tsize'' of None \<Rightarrow> Inr []
     | Some v \<Rightarrow> if \<not> write then Inr [(''tsize'', show_int file_size)]
       else (case int_option v of Inl e \<Rightarrow> Inl e | Inr n \<Rightarrow> Inr [(''tsize'', show_int n)]))"

definition tftp_options :: "(string \<times> string) list \<Rightarrow> int \<Rightarrow> bool \<Rightarrow> tftp_error + transfer_options" where
  "tftp_options os file_size write =
     (case block_size_option os of Inl e \<Rightarrow> Inl e
      | Inr (block_size, a) \<Rightarrow> (case timeout_option os of Inl e \<Rightarrow> Inl e
        | Inr (timeout, b) \<Rightarrow> (case size_option os file_size write of Inl e \<Rightarrow> Inl e
          | Inr c \<Rightarrow> Inr \<lparr>to_block_size = block_size, to_timeout = timeout, to_accepted = a @ b @ c\<rparr>)))"

section \<open>Paths\<close>

definition rooted_path :: "string \<Rightarrow> string \<Rightarrow> tftp_error + string" where
  "rooted_path base requested = (let r = strip_slashes (unix_slashes requested) in
     if ''..'' \<in> set (path_parts r) then Inl (Datastore_error ''The requested TFTP path is outside the configured root.'')
     else Inr (join_path [base, r]))"

text \<open>\<open>str.rpartition('/')\<close>: what is before and after the last slash.\<close>

definition after_slash :: "string \<Rightarrow> string" where
  "after_slash s = rev (takeWhile (\<lambda>c. c \<noteq> CHR ''/'') (rev s))"

definition before_slash :: "string \<Rightarrow> string" where
  "before_slash s = take (length s - length (after_slash s) - 1) s"

text \<open>The destination of an upload under the pattern \<open>{filename}\<close>.\<close>

definition upload_destination :: "string \<Rightarrow> string \<Rightarrow> tftp_error + string \<times> string" where
  "upload_destination base filename = (let f = strip_slashes (unix_slashes filename) in
     case rooted_path base (before_slash f) of Inl e \<Rightarrow> Inl e
     | Inr parent \<Rightarrow> if after_slash f = [] then Inl (Datastore_error ''A destination filename is required.'')
         else Inr (parent, after_slash f))"

section \<open>Downloads\<close>

datatype event = Datagram bytes | Silence

definition attempts :: nat where "attempts = 6"

text \<open>\<open>_exchange\<close>: what is sent, what is left to receive, and how it ends.\<close>

fun exchange :: "nat \<Rightarrow> bytes \<Rightarrow> nat \<Rightarrow> nat \<Rightarrow> event list \<Rightarrow> bytes list \<times> event list \<times> (tftp_error + unit)" where
  "exchange 0 payload opcode block inbox = ([], inbox, Inl (Timeout_error ''TFTP transfer timed out.''))"
| "exchange (Suc k) payload opcode block inbox =
     (case inbox of
        Datagram response # rest \<Rightarrow>
          if 4 \<le> length response \<and> from_be (slice 0 2 response) = 5
            then ([payload], rest, Inl (Os_error ''TFTP client reported an error.''))
          else if 4 \<le> length response \<and> from_be (slice 0 2 response) = opcode \<and> from_be (slice 2 4 response) = block
            then ([payload], rest, Inr ())
          else (case exchange k payload opcode block rest of (sent, left, res) \<Rightarrow> (payload # sent, left, res))
      | Silence # rest \<Rightarrow> (case exchange k payload opcode block rest of (sent, left, res) \<Rightarrow> (payload # sent, left, res))
      | [] \<Rightarrow> (case exchange k payload opcode block [] of (sent, left, res) \<Rightarrow> (payload # sent, left, res)))"

text \<open>The loop of \<open>_send_file\<close>; a block size is at least 8.\<close>

function send_blocks :: "nat \<Rightarrow> nat \<Rightarrow> bytes \<Rightarrow> event list \<Rightarrow> bytes list \<times> (tftp_error + nat)" where
  "send_blocks bsize block content inbox =
     (let payload = take bsize content in
      case exchange attempts (data_packet block payload) 4 block inbox of
        (sent, rest, Inl e) \<Rightarrow> (sent, Inl e)
      | (sent, rest, Inr u) \<Rightarrow>
          if length payload < bsize \<or> bsize = 0 then (sent, Inr (length payload))
          else (case send_blocks bsize ((block + 1) mod 65536) (drop bsize content) rest of
              (more_sent, Inl e) \<Rightarrow> (sent @ more_sent, Inl e)
            | (more_sent, Inr n) \<Rightarrow> (sent @ more_sent, Inr (length payload + n))))"
  by pat_completeness auto
termination by (relation "measure (\<lambda>(bsize, block, content, inbox). length content)") auto

declare send_blocks.simps [simp del]

definition send_file :: "(string \<Rightarrow> tftp_error + bytes) \<Rightarrow> string \<Rightarrow> tftp_request \<Rightarrow> event list \<Rightarrow> bytes list \<times> (tftp_error + nat)" where
  "send_file file base request inbox =
     (case rooted_path base (rq_filename request) of Inl e \<Rightarrow> ([], Inl e)
      | Inr path \<Rightarrow> (case file path of Inl e \<Rightarrow> ([], Inl e)
        | Inr content \<Rightarrow> (case tftp_options (rq_options request) (int (length content)) False of Inl e \<Rightarrow> ([], Inl e)
          | Inr os \<Rightarrow>
              if to_accepted os = [] then send_blocks (to_block_size os) 1 content inbox
              else (case exchange attempts (oack_packet (to_accepted os)) 4 0 inbox of
                  (sent, rest, Inl e) \<Rightarrow> (sent, Inl e)
                | (sent, rest, Inr u) \<Rightarrow> (case send_blocks (to_block_size os) 1 content rest of
                    (more_sent, res) \<Rightarrow> (sent @ more_sent, res))))))"

section \<open>Uploads\<close>

text \<open>
  What the server does with the upload object: \<open>write\<close>, \<open>commit\<close>, and leaving the \<open>with\<close> block.
\<close>

record 's upload_ops =
  op_write :: "bytes \<Rightarrow> 's \<Rightarrow> 's \<times> (tftp_error + unit)"
  op_commit :: "'s \<Rightarrow> 's \<times> (tftp_error + unit)"
  op_leave :: "'s \<Rightarrow> 's"

text \<open>
  The inner loop of \<open>_receive_file\<close>, with \<open>left\<close> attempts after this one.  A silence ends
  the attempt: the last answer is sent again.
\<close>

fun listen ::
    "'s upload_ops \<Rightarrow> nat \<Rightarrow> nat \<Rightarrow> nat \<Rightarrow> bytes \<Rightarrow> nat \<Rightarrow> 's \<Rightarrow> event list \<Rightarrow> bytes list \<times> 's \<times> (tftp_error + nat)" where
  "listen ops bsize left expected response sofar s [] =
     (replicate left response, s, Inl (Timeout_error ''TFTP upload timed out.''))"
| "listen ops bsize left expected response sofar s (Silence # inbox) =
     (case left of 0 \<Rightarrow> ([], s, Inl (Timeout_error ''TFTP upload timed out.''))
      | Suc k \<Rightarrow> (case listen ops bsize k expected response sofar s inbox of (sent, r) \<Rightarrow> (response # sent, r)))"
| "listen ops bsize left expected response sofar s (Datagram packet # inbox) =
     (if length packet < 4 then listen ops bsize left expected response sofar s inbox
      else let opcode = from_be (slice 0 2 packet); block = from_be (slice 2 4 packet) in
      if opcode = 5 then ([], s, Inl (Os_error ''Client cancelled the upload.''))
      else if opcode \<noteq> 3 then listen ops bsize left expected response sofar s inbox
      else if block = (expected + 65535) mod 65536
        then (case listen ops bsize left expected response sofar s inbox of (sent, r) \<Rightarrow> (ack_packet block # sent, r))
      else if block \<noteq> expected then listen ops bsize left expected response sofar s inbox
      else let payload = drop 4 packet in
        (case op_write ops payload s of
            (s1, Inl e) \<Rightarrow> ([error_packet 3 (error_message e)], s1, Inl e)
          | (s1, Inr u) \<Rightarrow>
              if length payload < bsize
              then (case op_commit ops s1 of
                  (s2, Inl e) \<Rightarrow> ([error_packet 6 (error_message e)], s2, Inl e)
                | (s2, Inr v) \<Rightarrow> ([ack_packet block], s2, Inr (sofar + length payload)))
              else (case listen ops bsize left ((expected + 1) mod 65536) (ack_packet block) (sofar + length payload) s1 inbox of
                  (sent, r) \<Rightarrow> (ack_packet block # sent, r))))"

definition receive_blocks :: "'s upload_ops \<Rightarrow> transfer_options \<Rightarrow> 's \<Rightarrow> event list \<Rightarrow> bytes list \<times> 's \<times> (tftp_error + nat)" where
  "receive_blocks ops os s inbox =
     (let response = (if to_accepted os \<noteq> [] then oack_packet (to_accepted os) else ack_packet 0) in
      case listen ops (to_block_size os) (attempts - 1) 1 response 0 s inbox of
        (sent, s', r) \<Rightarrow> (response # sent, op_leave ops s', r))"

end
