(* ===== verification/Tftp_Uploads.thy ===== *)
theory Tftp_Uploads
  imports Tftp_Facts Upload_Results
begin

text \<open>
  Uploads over TFTP: the receiving loop against any storage that keeps what it is given, and the same
  on the upload registry, while other uploads go on.
\<close>

section \<open>What a client sends\<close>

text \<open>
  Data packets are blocks of the file, in any order and number; anything else that is neither too short nor of
  another kind does not occur.
\<close>

definition genuine :: "nat \<Rightarrow> bytes \<Rightarrow> event \<Rightarrow> bool" where
  "genuine n F ev \<longleftrightarrow> (case ev of Silence \<Rightarrow> True
     | Datagram p \<Rightarrow> length p < 4 \<or> from_be (slice 0 2 p) \<noteq> 3 \<or> (\<exists>k<length (blocks n F). p = data_packet (Suc k) (blocks n F ! k)))"

text \<open>A datagram, as the loop sees it when block \<open>j + 1\<close> is due.\<close>

lemma genuine_cases:
  assumes "genuine n F (Datagram p)" "length (blocks n F) < 65536" "j < length (blocks n F)"
  obtains (other) "length p < 4 \<or> from_be (slice 0 2 p) \<noteq> 3" "from_be (slice 0 2 p) \<noteq> 5 \<or> length p < 4"
  | (cancel) "4 \<le> length p" "from_be (slice 0 2 p) = 5"
  | (due) "p = data_packet (Suc j) (blocks n F ! j)"
  | (stale) k where "p = data_packet (Suc k) (blocks n F ! k)" "k < length (blocks n F)" "k \<noteq> j"
proof (cases "length p < 4 \<or> from_be (slice 0 2 p) \<noteq> 3")
  case True
  then show ?thesis using other cancel by (cases "4 \<le> length p \<and> from_be (slice 0 2 p) = 5") auto
next
  case False
  with assms(1) obtain k where "k < length (blocks n F)" "p = data_packet (Suc k) (blocks n F ! k)"
    by (auto simp: genuine_def)
  then show ?thesis using due stale by (cases "k = j") auto
qed

lemma listen_other:
  "length p < 4 \<or> from_be (slice 0 2 p) \<noteq> 3 \<Longrightarrow> from_be (slice 0 2 p) \<noteq> 5 \<or> length p < 4 \<Longrightarrow>
     listen ops n left e resp sofar s (Datagram p # inbox) = listen ops n left e resp sofar s inbox"
  by (auto simp: Let_def)

lemma listen_cancel:
  "4 \<le> length p \<Longrightarrow> from_be (slice 0 2 p) = 5 \<Longrightarrow>
     listen ops n left e resp sofar s (Datagram p # inbox) = ([], s, Inl (Os_error ''Client cancelled the upload.''))"
  by (simp add: Let_def)

lemma listen_stale:
  "k < 65535 \<Longrightarrow> j < 65535 \<Longrightarrow> k \<noteq> j \<Longrightarrow>
     \<exists>out. listen ops n left (Suc j) resp sofar s (Datagram (data_packet (Suc k) q) # inbox) =
       (out @ fst (listen ops n left (Suc j) resp sofar s inbox), snd (listen ops n left (Suc j) resp sofar s inbox))"
  by (cases "Suc k = (Suc j + 65535) mod 65536")
    (auto simp: Let_def data_fields not_less intro: exI [of _ "[ack_packet (Suc k)]"] exI [of _ "[]"] split: prod.splits)

lemma listen_due:
  assumes "0 < n" "j < length (blocks n F)" "length (blocks n F) < 65536"
  shows "listen ops n left (Suc j) resp sofar s (Datagram (data_packet (Suc j) (blocks n F ! j)) # inbox) =
     (case op_write ops (blocks n F ! j) s of
        (s1, Inl e) \<Rightarrow> ([error_packet 3 (error_message e)], s1, Inl e)
      | (s1, Inr u) \<Rightarrow>
          if Suc j = length (blocks n F)
          then (case op_commit ops s1 of
              (s2, Inl e) \<Rightarrow> ([error_packet 6 (error_message e)], s2, Inl e)
            | (s2, Inr v) \<Rightarrow> ([ack_packet (Suc j)], s2, Inr (sofar + length (blocks n F ! j))))
          else (case listen ops n left (Suc (Suc j)) (ack_packet (Suc j)) (sofar + length (blocks n F ! j)) s1 inbox of
              (out, r) \<Rightarrow> (ack_packet (Suc j) # out, r)))"
proof -
  have "length (blocks n F ! j) < n \<longleftrightarrow> Suc j = length (blocks n F)"
    using block_lengths [OF assms(1,2)] assms(2) by auto
  moreover have "Suc j \<noteq> (Suc j + 65535) mod 65536" using assms(2,3) by simp
  moreover have "Suc j < length (blocks n F) \<Longrightarrow> (Suc j + 1) mod 65536 = Suc (Suc j)" using assms(3) by simp
  ultimately show ?thesis
    using assms(2,3) data_fields [of "Suc j" "blocks n F ! j"] by (simp add: Let_def not_less cong: if_cong)
qed

section \<open>Storage\<close>

text \<open>
  What the server relies on: an open upload holds what was written to it, and a commit publishes that.
\<close>

locale upload_storage =
  fixes ops :: "'s upload_ops"
    and content :: "'s \<Rightarrow> bytes option"
    and published :: "'s \<Rightarrow> bytes option"
  assumes write_appends: "content s = Some c \<Longrightarrow> op_write ops d s = (s', Inr ()) \<Longrightarrow> content s' = Some (c @ d)"
    and commit_publishes: "content s = Some c \<Longrightarrow> op_commit ops s = (s', Inr ()) \<Longrightarrow> published s' = Some c"
    and leave_keeps: "published (op_leave ops s) = published s"
begin

lemma listen_stores:
  assumes "0 < n" "length (blocks n F) < 65536"
  shows "\<forall>ev\<in>set inbox. genuine n F ev \<Longrightarrow> j < length (blocks n F) \<Longrightarrow> content s = Some (concat (take j (blocks n F))) \<Longrightarrow>
     sofar = length (concat (take j (blocks n F))) \<Longrightarrow> listen ops n left (Suc j) resp sofar s inbox = (out, s', Inr m) \<Longrightarrow>
     published s' = Some F \<and> m = length F"
proof (induction inbox arbitrary: left j resp sofar s out)
  case Nil
  then show ?case by simp
next
  case (Cons ev inbox)
  note prems = Cons.prems
  show ?case
  proof (cases ev)
    case Silence
    then show ?thesis using prems Cons.IH by (fastforce split: nat.splits prod.splits)
  next
    case (Datagram p)
    have gen: "genuine n F (Datagram p)" using prems(1) Datagram by simp
    show ?thesis
    proof (rule genuine_cases [OF gen assms(2) prems(2)], goal_cases other cancel due stale)
      case other
      with prems(5) Datagram have "listen ops n left (Suc j) resp sofar s inbox = (out, s', Inr m)"
        by (simp only: listen_other)
      with prems Cons.IH show ?thesis by simp
    next
      case cancel
      with prems(5) Datagram show ?thesis by (simp only: listen_cancel) simp
    next
      case (stale k)
      have small: "k < 65535" "j < 65535" using stale(2) prems(2) assms(2) by simp_all
      obtain more where "listen ops n left (Suc j) resp sofar s (Datagram p # inbox) =
          (more @ fst (listen ops n left (Suc j) resp sofar s inbox), snd (listen ops n left (Suc j) resp sofar s inbox))"
        using listen_stale [OF small stale(3), of ops n left resp sofar s "blocks n F ! k" inbox] unfolding stale(1) [symmetric] by blast
      with prems(5) Datagram have "listen ops n left (Suc j) resp sofar s inbox = (fst (listen ops n left (Suc j) resp sofar s inbox), s', Inr m)"
        by (metis prod.collapse snd_conv)
      with prems Cons.IH show ?thesis by simp
    next
      case due
      define b where "b = blocks n F ! j"
      have taken: "take (Suc j) (blocks n F) = take j (blocks n F) @ [b]"
        using prems(2) by (simp add: take_Suc_conv_app_nth b_def)
      note run = prems(5) [unfolded Datagram due listen_due [OF assms(1) prems(2) assms(2)], folded b_def]
      obtain s1 where w: "op_write ops b s = (s1, Inr ())"
        using run by (auto split: prod.splits sum.splits)
      have c1: "content s1 = Some (concat (take (Suc j) (blocks n F)))"
        using write_appends [OF prems(3) w] by (simp add: taken)
      have m1: "sofar + length b = length (concat (take (Suc j) (blocks n F)))"
        using prems(4) by (simp add: taken)
      show ?thesis
      proof (cases "Suc j = length (blocks n F)")
        case True
        then have all: "concat (take (Suc j) (blocks n F)) = F" by (simp add: concat_blocks)
        have "op_commit ops s1 = (s', Inr ()) \<and> m = sofar + length b"
          using run w True by (auto split: prod.splits sum.splits)
        then show ?thesis using commit_publishes [OF c1] m1 by (simp only: all)
      next
        case False
        with prems(2) have j: "Suc j < length (blocks n F)" by simp
        obtain more where "listen ops n left (Suc (Suc j)) (ack_packet (Suc j)) (sofar + length b) s1 inbox = (more, s', Inr m)"
          using run w False by (auto split: prod.splits)
        then show ?thesis using Cons.IH [OF _ j c1 m1] prems(1) by simp
      qed
    qed
  qed
qed

lemma receive_stores:
  assumes "0 < to_block_size os" "length (blocks (to_block_size os) F) < 65536" "\<forall>ev\<in>set inbox. genuine (to_block_size os) F ev"
    and "content s = Some []" "receive_blocks ops os s inbox = (out, s', Inr m)"
  shows "published s' = Some F \<and> m = length F"
proof -
  obtain resp more s1 where l: "listen ops (to_block_size os) (attempts - 1) (Suc 0) resp 0 s inbox = (more, s1, Inr m)" "s' = op_leave ops s1"
    using assms(5) by (auto simp: receive_blocks_def Let_def split: prod.splits if_splits)
  have "published s1 = Some F \<and> m = length F"
    by (rule listen_stores [OF assms(1,2,3) _ _ _ l(1)]) (simp_all add: assms(4))
  then show ?thesis using l(2) by (simp add: leave_keeps)
qed

end

section \<open>Storage on the upload registry\<close>

text \<open>
  The storage of one upload: before each call other operations of the toolkit may run, on other uploads and
  on the published files, and each call meets the settings of its time (entry \<open>k\<close> of \<open>sched\<close> for the
  k-th call).
\<close>

fun op_token :: "upload_op \<Rightarrow> string option" where
  "op_token (Open e t r p m ov ex st) = Some t"
| "op_token (Write e t data) = Some t"
| "op_token (Flush e t) = Some t"
| "op_token (Promote e t r p m ov) = Some t"
| "op_token (Commit e t) = Some t"
| "op_token (Close t) = Some t"
| "op_token op = None"

definition storage_error :: "py_error \<Rightarrow> tftp_error" where
  "storage_error e = (case e of ValueError m \<Rightarrow> Datastore_error m | OSError m \<Rightarrow> Os_error m | _ \<Rightarrow> Os_error [])"

definition elsewhere :: "string \<Rightarrow> (nat \<Rightarrow> upload_env \<times> upload_op list) \<Rightarrow> upload_world \<times> nat \<Rightarrow> upload_world" where
  "elsewhere t sched s = foldl run_op (fst s) (filter (\<lambda>op. op_token op \<noteq> Some t) (snd (sched (snd s))))"

definition registry_write :: "string \<Rightarrow> (nat \<Rightarrow> upload_env \<times> upload_op list) \<Rightarrow> bytes \<Rightarrow> upload_world \<times> nat \<Rightarrow> (upload_world \<times> nat) \<times> (tftp_error + unit)" where
  "registry_write t sched d s = (case write_upload (fst (sched (snd s))) t d (elsewhere t sched s) of
     (w, Inl e) \<Rightarrow> ((w, Suc (snd s)), Inl (storage_error e)) | (w, Inr u) \<Rightarrow> ((w, Suc (snd s)), Inr ()))"

definition registry_commit :: "string \<Rightarrow> (nat \<Rightarrow> upload_env \<times> upload_op list) \<Rightarrow> upload_world \<times> nat \<Rightarrow> (upload_world \<times> nat) \<times> (tftp_error + unit)" where
  "registry_commit t sched s = (case commit_upload (fst (sched (snd s))) t (elsewhere t sched s) of
     (w, Inl e) \<Rightarrow> ((w, Suc (snd s)), Inl (storage_error e)) | (w, Inr u) \<Rightarrow> ((w, Suc (snd s)), Inr ()))"

definition registry_storage :: "string \<Rightarrow> (nat \<Rightarrow> upload_env \<times> upload_op list) \<Rightarrow> (upload_world \<times> nat) upload_ops" where
  "registry_storage t sched = \<lparr>op_write = registry_write t sched, op_commit = registry_commit t sched,
     op_leave = (\<lambda>s. (close_upload t (fst s), snd s))\<rparr>"

text \<open>What the upload holds while it is open, and what its destination holds.\<close>

definition held :: "string \<Rightarrow> upload_root \<times> string \<Rightarrow> upload_world \<times> nat \<Rightarrow> bytes option" where
  "held t d s = (case find_upload (fst s) t of None \<Rightarrow> None
     | Some u \<Rightarrow> if registry_ok (fst s) \<and> \<not> up_closed u \<and> \<not> up_committed u \<and> destination u = d then Some (up_file u @ up_buffer u) else None)"

definition stored :: "upload_root \<times> string \<Rightarrow> upload_world \<times> nat \<Rightarrow> bytes option" where
  "stored d s = map_option sf_content (file_at (fst s) (fst d) (snd d))"

lemma find_abort_other: "find_upload w t' = Some x \<Longrightarrow> registry_ok w \<Longrightarrow> t' \<noteq> t \<Longrightarrow> find_upload (abort_upload x w) t = find_upload w t"
  using found(2) by (auto simp: abort_upload_def find_put_upload)

lemma run_op_other:
  assumes "registry_ok w" "op_token op \<noteq> Some t" "find_upload w t = Some u"
  shows "find_upload (run_op w op) t = Some u"
proof (cases op)
  case (Open e t' r p m ov ex st)
  show ?thesis
    by (cases rule: open_cases [of e t' r p m ov ex st w]) (use assms Open append_find [OF assms(3)] in simp_all)
next
  case (Write e t' d)
  then have "t' \<noteq> t" using assms(2) by simp
  show ?thesis
  proof (cases "find_upload w t'")
    case None
    with assms Write show ?thesis by (simp add: write_upload_def)
  next
    case (Some x)
    note x = found [OF assms(1) Some]
    show ?thesis
    proof (cases "up_closed x")
      case True
      with assms Write Some show ?thesis by (simp add: write_upload_def)
    next
      case False
      then show ?thesis
        using assms Write Some \<open>t' \<noteq> t\<close> find_abort_other [OF Some assms(1) \<open>t' \<noteq> t\<close>] write_ok(2) [OF _ x(3) False] x(2)
        by (auto simp: write_upload_def find_put_upload split: sum.split)
    qed
  qed
next
  case (Flush e t')
  then have "t' \<noteq> t" using assms(2) by simp
  show ?thesis
  proof (cases "find_upload w t'")
    case None
    with assms Flush show ?thesis by (simp add: flush_open_def)
  next
    case (Some x)
    note x = found [OF assms(1) Some]
    show ?thesis
      using assms Flush Some \<open>t' \<noteq> t\<close> find_abort_other [OF Some assms(1) \<open>t' \<noteq> t\<close>] flush_ok(2) [OF _ x(3)] x(2)
      by (auto simp: flush_open_def find_put_upload split: sum.split)
  qed
next
  case (Promote e t' r p m ov)
  then have "t' \<noteq> t" using assms(2) by simp
  show ?thesis
  proof (cases rule: promote_cases [of e t' r p m ov w])
    case (aborted x)
    with assms Promote \<open>t' \<noteq> t\<close> show ?thesis by (simp add: find_abort_other)
  next
    case (promoted x u1 v)
    note v = promoted_upload [OF assms(1) promoted(1,4,7,6)]
    with assms Promote \<open>t' \<noteq> t\<close> promoted(8) show ?thesis by (simp add: find_put_upload)
  qed (use assms Promote in simp)
next
  case (Commit e t')
  then have "t' \<noteq> t" using assms(2) by simp
  show ?thesis
  proof (cases rule: commit_cases [of e t' w])
    case (aborted x err)
    with assms Commit \<open>t' \<noteq> t\<close> show ?thesis by (simp add: find_abort_other)
  next
    case (published x u2)
    note u2 = ready_upload [OF assms(1) published(1,4)]
    with assms Commit \<open>t' \<noteq> t\<close> published(5) show ?thesis by (simp add: find_put_upload)
  qed (use assms Commit in simp_all)
next
  case (Close t')
  with assms show ?thesis by (auto simp: close_upload_def find_abort_other split: option.split)
next
  case (Delete r p)
  with assms show ?thesis by (simp add: delete_stored_def)
next
  case (Rename r p q)
  with assms show ?thesis by (simp add: rename_stored_def)
qed

lemma run_other:
  assumes "registry_ok w" "\<forall>op\<in>set ops. op_token op \<noteq> Some t" "find_upload w t = Some u"
  shows "find_upload (foldl run_op w ops) t = Some u"
  using assms
proof (induction ops arbitrary: w)
  case Nil
  then show ?case by simp
next
  case (Cons op ops)
  then show ?case using run_op_registry run_op_other by auto
qed

lemma elsewhere_keeps:
  assumes "registry_ok (fst s)" "find_upload (fst s) t = Some u"
  shows "registry_ok (elsewhere t sched s)" "find_upload (elsewhere t sched s) t = Some u"
  unfolding elsewhere_def by (rule uploads.run_invar [OF assms(1)], rule run_other [OF assms(1) _ assms(2)]) auto

lemma held_Some:
  assumes "held t d s = Some c"
  obtains u where "find_upload (fst s) t = Some u" "registry_ok (fst s)" "\<not> up_closed u" "\<not> up_committed u" "destination u = d" "c = up_file u @ up_buffer u"
  using assms by (auto simp: held_def split: option.splits if_splits)

lemma held_write:
  assumes "held t d s = Some c" "registry_write t sched data s = (s', Inr ())"
  shows "held t d s' = Some (c @ data)"
proof -
  obtain u where u: "find_upload (fst s) t = Some u" "registry_ok (fst s)" "\<not> up_closed u" "\<not> up_committed u" "destination u = d" "c = up_file u @ up_buffer u"
    using held_Some [OF assms(1)] by metis
  define w where "w = elsewhere t sched s"
  have w: "registry_ok w" "find_upload w t = Some u"
    unfolding w_def by (rule elsewhere_keeps [OF u(2,1)])+
  define e where "e = fst (sched (snd s))"
  obtain v where v: "write_data e w data u = Inr v" "s' = (put_upload v w, Suc (snd s))"
    using assms(2) u(3) w(2) unfolding registry_write_def w_def [symmetric] e_def [symmetric]
    by (auto simp: write_upload_def split: sum.splits)
  note ok = write_ok [OF v(1) found(3) [OF w] u(3)]
  obtain k fil buf where eq: "v = u\<lparr>up_capacity := k, up_file := fil, up_buffer := buf, up_total := up_total u + int (length data)\<rparr>"
      "fil @ buf = up_file u @ up_buffer u @ data"
    using write_data_Inr [OF v(1) found(3) [OF w] u(3)] by metis
  have "registry_ok (put_upload v w)"
    by (rule replace_registry [OF w(1) found(1) [OF w] u(3) ok(1,2,3)])
  moreover have "find_upload (put_upload v w) t = Some v"
    using w(2) ok(2) found(2) [OF w] by (simp add: find_put_upload)
  ultimately show ?thesis
    using ok u eq by (simp add: held_def v(2))
qed

lemma held_commit:
  assumes "held t d s = Some c" "registry_commit t sched s = (s', Inr ())"
  shows "stored d s' = Some c"
proof -
  obtain u where u: "find_upload (fst s) t = Some u" "registry_ok (fst s)" "\<not> up_closed u" "\<not> up_committed u" "destination u = d" "c = up_file u @ up_buffer u"
    using held_Some [OF assms(1)] by metis
  define w where "w = elsewhere t sched s"
  have w: "registry_ok w" "find_upload w t = Some u"
    unfolding w_def by (rule elsewhere_keeps [OF u(2,1)])+
  define e where "e = fst (sched (snd s))"
  have op: "registry_commit t sched s = (case commit_upload e t w of
     (w, Inl e) \<Rightarrow> ((w, Suc (snd s)), Inl (storage_error e)) | (w, Inr u) \<Rightarrow> ((w, Suc (snd s)), Inr ()))"
    by (simp add: registry_commit_def w_def e_def)
  show ?thesis
  proof (cases rule: commit_cases [of e t w])
    case (published x u2)
    have x: "x = u" using published(1) w(2) by simp
    note u2 = ready_upload [OF w(1) published(1,4), unfolded x]
    have "fst s' = put_upload (finished (u2\<lparr>up_committed := True\<rparr>)) (publish u2 w)"
      using assms(2) published(5) by (auto simp: op)
    then have at: "file_at (fst s') r p = file_at (publish u2 w) r p" for r p
      by (simp add: file_at_def)
    show ?thesis
      using u(5,6) u2(1,4) by (simp add: stored_def at file_at_publish)
  qed (use assms(2) u(4) w(2) in \<open>auto simp: op\<close>)
qed

interpretation registry: upload_storage "registry_storage t sched" "held t d" "stored d" for t sched d
proof
  show "held t d s = Some c \<Longrightarrow> op_write (registry_storage t sched) data s = (s', Inr ()) \<Longrightarrow> held t d s' = Some (c @ data)" for s c data s'
    using held_write by (simp add: registry_storage_def)
  show "held t d s = Some c \<Longrightarrow> op_commit (registry_storage t sched) s = (s', Inr ()) \<Longrightarrow> stored d s' = Some c" for s c s'
    using held_commit by (simp add: registry_storage_def)
  show "stored d (op_leave (registry_storage t sched) s) = stored d s" for s
    by (simp add: stored_def registry_storage_def file_at_def)
qed

end
