(* ===== verification/Tftp_Results.thy ===== *)
theory Tftp_Results
  imports Tftp_Uploads
begin

text \<open>What the TFTP server guarantees, and runs in which it does.\<close>

section \<open>Paths\<close>

text \<open>
  A requested path never leaves the configured root.  Whatever the client asks for, the path that
  is opened consists of the components of the root followed by components of which none is the
  parent folder; a request with such a component is refused.
\<close>

theorem rooted_path_stays_below:
  "(case rooted_path base requested of
      Inr path \<Rightarrow> \<exists>below. path_parts path = path_parts base @ below \<and> ''..'' \<notin> set below
    | Inl e \<Rightarrow> error_code e = 2 \<and> ''..'' \<in> set (path_parts (strip_slashes (unix_slashes requested))))"
  by (simp add: rooted_path_def Let_def path_parts_join)

section \<open>Uploads\<close>

text \<open>
  C37: an upload that completes stored the file.  A client sends the blocks of a file of at most 65535
  blocks; whatever is lost, repeated, delayed or mixed with other packets, and whatever other uploads and
  changes of files run in between, when the transfer reports success the destination holds
  exactly the file and the size reported is its length.
\<close>

theorem tftp_upload_stores_the_file:
  assumes "registry_ok w" "open_upload e t r p limit ov None False w = (w0, Inr t)"
    and "tftp_options options n True = Inr os" "length (blocks (to_block_size os) F) < 65536"
    and "\<forall>ev\<in>set inbox. genuine (to_block_size os) F ev"
    and "receive_blocks (registry_storage t sched) os (w0, 0) inbox = (out, (w', k), Inr m)"
  shows "(\<exists>f. file_at w' r p = Some f \<and> sf_content f = F) \<and> m = length F"
proof -
  have reg: "registry_ok w0" using open_registry [OF assms(1), of e t r p limit ov None False] assms(2) by simp
  have "held t (r, p) (w0, 0) = Some []"
  proof (cases rule: open_cases [of e t r p limit ov None False w])
    case (refused err)
    with assms(2) show ?thesis by simp
  next
    case (opened c i exact)
    define v where "v = (new_upload t w r p limit ov None False)\<lparr>up_capacity := c\<rparr>"
    have "find_upload w t = None" using opened(2) keeps_token by auto
    then have "find_upload w0 t = Some v"
      using opened(1) assms(2) by (simp add: find_upload_def select_first_append v_def) (simp add: select_first_def)
    then show ?thesis using reg by (simp add: held_def v_def destination_def)
  qed
  from registry.receive_stores [OF options_block_size [OF assms(3)] assms(4,5) this assms(6)]
  show ?thesis by (auto simp: stored_def)
qed








end
