(* ===== verification/Tftp_Witnesses.thy ===== *)
theory Tftp_Witnesses
  imports Tftp_Results Upload_Witnesses
begin

text \<open>A file of ten bytes in blocks of eight, uploaded over a lossy network.\<close>

definition sample_file :: bytes where
  "sample_file = [1, 2, 3, 4, 5, 6, 7, 8, 9, 10]"

definition sample_options :: transfer_options where
  "sample_options = \<lparr>to_block_size = 8, to_timeout = 3, to_accepted = [(''blksize'', ''8'')]\<rparr>"

definition sample_block :: "nat \<Rightarrow> event" where
  "sample_block k = Datagram (data_packet (Suc k) (blocks 8 sample_file ! k))"

definition sample_inbox :: "event list" where
  "sample_inbox = [Silence, sample_block 0, Silence, sample_block 0, sample_block 1]"

lemma show_eight: "show_int 8 = ''8''"
  by code_simp

lemma sample_option_values: "tftp_options [(''blksize'', ''8'')] 0 True = Inr sample_options"
  by (simp add: tftp_options_def block_size_option_def timeout_option_def size_option_def int_option_def py_int_def py_strip_def
    py_space_def py_digit_def decimal_value_def digit_value_def show_eight sample_options_def)

lemma sample_blocks: "blocks 8 sample_file = [[1, 2, 3, 4, 5, 6, 7, 8], [9, 10]]"
  by (simp add: sample_file_def blocks.simps)

lemma sample_genuine: "\<forall>ev\<in>set sample_inbox. genuine 8 sample_file ev \<and> \<not> refusal ev"
proof -
  have "genuine 8 sample_file (sample_block k)" if "k < length (blocks 8 sample_file)" for k
    using that by (auto simp: sample_block_def genuine_def)
  then have "genuine 8 sample_file (sample_block 0)" "genuine 8 sample_file (sample_block 1)"
    by (simp_all add: sample_blocks)
  moreover have "\<not> refusal (sample_block k)" for k
    by (simp add: sample_block_def refusal_def data_fields)
  ultimately have "list_all (\<lambda>k. genuine 8 sample_file (sample_block k) \<and> \<not> refusal (sample_block k)) [0, 1]" by simp
  then show ?thesis by (auto simp: sample_inbox_def genuine_def refusal_def)
qed

lemma sample_small: "length (blocks (to_block_size sample_options) sample_file) < 65536"
  by (simp add: sample_options_def sample_blocks)


definition sample_storage :: "(upload_world \<times> nat) upload_ops" where
  "sample_storage = registry_storage ''t'' (\<lambda>k. (sample_upload_env, if k = 1 then [Delete Datastore_root ''b''] else []))"

lemma sample_received:
  "\<exists>out w' k. receive_blocks sample_storage sample_options (sample_opened, 0) sample_inbox = (out, (w', k), Inr 10)"
  by (simp add: receive_blocks_def sample_options_def sample_inbox_def sample_block_def sample_blocks attempts_def data_packet_def be16_def
    slice_def from_be_def sample_storage_def registry_storage_def registry_write_def registry_commit_def elsewhere_def sample_opened_def
    delete_stored_def upload_eval)

theorem tftp_upload_stores_the_file_witness:
  "\<exists>out w' k f. receive_blocks sample_storage sample_options (sample_opened, 0) sample_inbox = (out, (w', k), Inr 10) \<and>
     file_at w' Datastore_root ''a'' = Some f \<and> sf_content f = sample_file"
proof -
  obtain out w' k where run: "receive_blocks sample_storage sample_options (sample_opened, 0) sample_inbox = (out, (w', k), Inr 10)"
    using sample_received by blast
  have "\<forall>ev\<in>set sample_inbox. genuine (to_block_size sample_options) sample_file ev"
    using sample_genuine by (simp add: sample_options_def)
  from tftp_upload_stores_the_file [OF sample_registry sample_opened_token sample_option_values sample_small this run [unfolded sample_storage_def]]
  show ?thesis using run by blast
qed

end
