(* ===== verification/Datastore.thy ===== *)
theory Datastore
  imports Path_Text
begin

text \<open>
  \<open>LocalDatastore\<close> of \<open>datastore.py\<close>: files and folders below one root, addressed by relative paths
  that a user types.  The tree is the list of its entries, each with the names on the way from the root;
  the root itself is not an entry.  Where the root lies, and what exists outside it, are arguments:
  a path may leave the root through its parent and must be refused.  No entry is a symbolic link, and the
  operations of one call are not interrupted.
\<close>

section \<open>Trees\<close>

datatype node = Folder | File bytes

type_synonym tree = "(string list \<times> node) list"

definition node_at :: "tree \<Rightarrow> string list \<Rightarrow> node option" where
  "node_at t p = (if p = [] then Some Folder else map_of t p)"

definition is_folder :: "tree \<Rightarrow> string list \<Rightarrow> bool" where
  "is_folder t p = (node_at t p = Some Folder)"

text \<open>A folder with nothing in it.\<close>

definition is_empty_folder :: "tree \<Rightarrow> string list \<Rightarrow> bool" where
  "is_empty_folder t p \<longleftrightarrow> is_folder t p \<and> (\<forall>q\<in>fst ` set t. butlast q \<noteq> p)"

definition starts_in :: "string list \<Rightarrow> string list \<Rightarrow> bool" where
  "starts_in p q \<longleftrightarrow> take (length p) q = p"

section \<open>Resolving a path\<close>

text \<open>
  The file system around the datastore: \<open>home\<close> is the absolute path of the root, \<open>outside\<close> tells what
  lies at the absolute paths that are not below it.
\<close>

record surroundings =
  home :: "string list"
  outside :: "string list \<Rightarrow> node option"

definition node_abs :: "surroundings \<Rightarrow> tree \<Rightarrow> string list \<Rightarrow> node option" where
  "node_abs S t a = (if starts_in (home S) a then node_at t (drop (length (home S)) a) else outside S a)"

definition is_file :: "node option \<Rightarrow> bool" where
  "is_file n = (case n of Some (File c) \<Rightarrow> True | _ \<Rightarrow> False)"

text \<open>\<open>Path.resolve(strict=True)\<close> from an existing place, name by name.\<close>

fun walk :: "surroundings \<Rightarrow> tree \<Rightarrow> string list \<Rightarrow> string list \<Rightarrow> string list result" where
  "walk S t cur [] = Inr cur"
| "walk S t cur (w # ws) =
     (if w = ''..'' then walk S t (butlast cur) ws
      else if is_file (node_abs S t cur) then Inl (OSError ''Not a directory'')
      else if node_abs S t (cur @ [w]) \<noteq> None then walk S t (cur @ [w]) ws
      else Inl (ValueError ''The datastore path is invalid or unavailable.''))"

definition resolve_path :: "surroundings \<Rightarrow> tree \<Rightarrow> bool \<Rightarrow> string \<Rightarrow> string list result" where
  "resolve_path S t allow_root relative_path =
     (let raw = strip_slashes (unix_slashes relative_path) in
      if CHR 0x00 \<in> set raw then Inl (ValueError ''The datastore path is invalid.'')
      else bindE (walk S t (home S) (path_parts raw)) (\<lambda>a.
        if \<not> starts_in (home S) a then Inl (ValueError ''The datastore path is invalid or unavailable.'')
        else if \<not> allow_root \<and> a = home S then Inl (ValueError ''The datastore root cannot be changed or deleted.'')
        else Inr (drop (length (home S)) a)))"

definition validate_name :: "string \<Rightarrow> string result" where
  "validate_name name = (let value = py_strip name in
     if value = [] \<or> value \<in> {''.'', ''..''} then Inl (ValueError ''Enter a file or folder name.'')
     else if 255 < length value \<or> CHR ''/'' \<in> set value \<or> CHR 92 \<in> set value \<or> CHR 0x00 \<in> set value
       then Inl (ValueError ''Names must be 255 characters or fewer and cannot contain slashes.'')
     else Inr value)"

definition ensure_available :: "tree \<Rightarrow> string list \<Rightarrow> unit result" where
  "ensure_available t p = (if node_at t p \<noteq> None
     then Inl (ValueError (last p @ '' already exists. Rename or remove it first.'')) else Inr ())"

definition open_folder :: "surroundings \<Rightarrow> tree \<Rightarrow> string \<Rightarrow> string list result" where
  "open_folder S t relative_path = bindE (resolve_path S t True relative_path) (\<lambda>p.
     if is_folder t p then Inr p else Inl (ValueError ''The requested datastore path is not a folder.''))"

definition open_file :: "surroundings \<Rightarrow> tree \<Rightarrow> string \<Rightarrow> bytes result" where
  "open_file S t relative_path = bindE (resolve_path S t True relative_path) (\<lambda>p.
     case node_at t p of Some (File c) \<Rightarrow> Inr c | _ \<Rightarrow> Inl (ValueError ''The requested datastore file was not found.''))"

record description =
  ds_name :: string
  ds_path :: string
  ds_is_folder :: bool
  ds_bytes :: nat

definition describe_entry :: "surroundings \<Rightarrow> tree \<Rightarrow> string \<Rightarrow> description result" where
  "describe_entry S t relative_path = bindE (resolve_path S t False relative_path) (\<lambda>p.
     Inr \<lparr>ds_name = last p, ds_path = join_with ''/'' p, ds_is_folder = is_folder t p,
       ds_bytes = (case node_at t p of Some (File c) \<Rightarrow> length c | _ \<Rightarrow> 0)\<rparr>)"

text \<open>\<open>usage\<close>: files, folders and bytes.\<close>

definition usage_of :: "tree \<Rightarrow> nat \<times> nat \<times> nat" where
  "usage_of t = (length (filter (\<lambda>(p, n). n \<noteq> Folder) t), length (filter (\<lambda>(p, n). n = Folder) t),
     sum_list (map (\<lambda>(p, n). case n of File c \<Rightarrow> length c | Folder \<Rightarrow> 0) t))"

section \<open>Changing the tree\<close>

text \<open>\<open>os.rename\<close> to a free destination: the entry moves with everything below it.\<close>

definition moved_path :: "string list \<Rightarrow> string list \<Rightarrow> string list \<Rightarrow> string list" where
  "moved_path src dst p = (if starts_in src p then dst @ drop (length src) p else p)"

definition os_rename :: "string list \<Rightarrow> string list \<Rightarrow> tree \<Rightarrow> tree result" where
  "os_rename src dst t =
     (if node_at t src = None \<or> src = [] \<or> dst = [] \<or> \<not> is_folder t (butlast dst) then Inl (OSError ''No such file or directory'')
      else if starts_in src dst then Inl (OSError ''Invalid argument'')
      else Inr (map (\<lambda>(p, n). (moved_path src dst p, n)) t))"

definition remove_entry :: "string list \<Rightarrow> tree \<Rightarrow> tree" where
  "remove_entry p t = filter (\<lambda>(q, n). q \<noteq> p) t"

definition create_folder :: "surroundings \<Rightarrow> string \<Rightarrow> string \<Rightarrow> tree \<Rightarrow> tree \<times> string list result" where
  "create_folder S relative_path name t =
     (case bindE (resolve_path S t True relative_path) (\<lambda>parent.
        if \<not> is_folder t parent then Inl (ValueError ''The destination is not a folder.'')
        else bindE (validate_name name) (\<lambda>n. bindE (ensure_available t (parent @ [n])) (\<lambda>_. Inr (parent @ [n])))) of
      Inl e \<Rightarrow> (t, Inl e)
    | Inr p \<Rightarrow> (t @ [(p, Folder)], Inr p))"

definition rename_entry :: "surroundings \<Rightarrow> string \<Rightarrow> string \<Rightarrow> tree \<Rightarrow> tree \<times> string list result" where
  "rename_entry S relative_path new_name t =
     (case bindE (resolve_path S t False relative_path) (\<lambda>src. bindE (validate_name new_name) (\<lambda>n.
        let dst = butlast src @ [n] in
        if dst = src then Inr (src, t)
        else bindE (ensure_available t dst) (\<lambda>_. bindE (os_rename src dst t) (\<lambda>t'. Inr (dst, t'))))) of
      Inl e \<Rightarrow> (t, Inl e)
    | Inr (p, t') \<Rightarrow> (t', Inr p))"

definition delete_entry :: "surroundings \<Rightarrow> string \<Rightarrow> tree \<Rightarrow> tree \<times> unit result" where
  "delete_entry S relative_path t = (case resolve_path S t False relative_path of
      Inl e \<Rightarrow> (t, Inl e)
    | Inr p \<Rightarrow> if is_folder t p \<and> \<not> is_empty_folder t p
        then (t, Inl (ValueError ''Folders must be empty before they can be deleted.''))
        else (remove_entry p t, Inr ()))"

section \<open>Several entries at once\<close>

fun unique_paths :: "surroundings \<Rightarrow> tree \<Rightarrow> string list list \<Rightarrow> string list \<Rightarrow> string list list result" where
  "unique_paths S t seen [] = Inr []"
| "unique_paths S t seen (v # vs) = bindE (resolve_path S t False v) (\<lambda>p.
     if p \<in> set seen then unique_paths S t seen vs
     else bindE (unique_paths S t (p # seen) vs) (\<lambda>ps. Inr (p # ps)))"

definition unique_entries :: "surroundings \<Rightarrow> tree \<Rightarrow> string list \<Rightarrow> string list list result" where
  "unique_entries S t relative_paths =
     (if relative_paths = [] then Inl (ValueError ''Select at least one file or folder.'')
      else if 500 < length relative_paths then Inl (ValueError ''Select no more than 500 items at once.'')
      else unique_paths S t [] relative_paths)"

definition delete_entries :: "surroundings \<Rightarrow> string list \<Rightarrow> tree \<Rightarrow> tree \<times> nat result" where
  "delete_entries S relative_paths t = (case unique_entries S t relative_paths of
      Inl e \<Rightarrow> (t, Inl e)
    | Inr ps \<Rightarrow> (case select_first (\<lambda>p. is_folder t p \<and> \<not> is_empty_folder t p) ps of
        Some p \<Rightarrow> (t, Inl (ValueError (last p @ '' is not empty. Empty folders before bulk deletion.'')))
      | None \<Rightarrow> (fold remove_entry ps t, Inr (length ps))))"

text \<open>The first loop of \<open>move_files\<close>: where every source goes.\<close>

fun plan_moves :: "tree \<Rightarrow> string list \<Rightarrow> string list list \<Rightarrow> string list list \<Rightarrow> (string list \<times> string list) list result" where
  "plan_moves t dest used [] = Inr []"
| "plan_moves t dest used (src # srcs) =
     (if is_folder t src \<and> starts_in src dest
        then Inl (ValueError (last src @ '' cannot be moved into itself or one of its subfolders.''))
      else let target = dest @ [last src] in
      if target = src then Inl (ValueError (last src @ '' is already in that folder.''))
      else if target \<in> set used \<or> node_at t target \<noteq> None
        then Inl (ValueError (last src @ '' already exists in the destination folder.''))
      else bindE (plan_moves t dest (target # used) srcs) (\<lambda>ms. Inr ((src, target) # ms)))"

text \<open>
  The second loop: the k-th rename may also fail for a reason of its own.  What was moved is moved back, last
  first; a failure on the way back is ignored.
\<close>

definition rename_back :: "(string list \<times> string list) \<Rightarrow> tree \<Rightarrow> tree" where
  "rename_back m t = (case os_rename (snd m) (fst m) t of Inl e \<Rightarrow> t | Inr t' \<Rightarrow> t')"

fun run_moves :: "(nat \<Rightarrow> string option) \<Rightarrow> nat \<Rightarrow> (string list \<times> string list) list \<Rightarrow> (string list \<times> string list) list \<Rightarrow> tree \<Rightarrow> tree \<times> unit result" where
  "run_moves trouble k moved [] t = (t, Inr ())"
| "run_moves trouble k moved ((src, dst) # ms) t =
     (case (case trouble k of Some e \<Rightarrow> Inl (OSError e) | None \<Rightarrow> os_rename src dst t) of
        Inr t' \<Rightarrow> run_moves trouble (Suc k) ((src, dst) # moved) ms t'
      | Inl e \<Rightarrow> (fold rename_back moved t,
          Inl (ValueError (''The selected items could not be moved: '' @ (case e of OSError m \<Rightarrow> m | _ \<Rightarrow> [])))))"

definition move_entries :: "surroundings \<Rightarrow> (nat \<Rightarrow> string option) \<Rightarrow> string list \<Rightarrow> string \<Rightarrow> tree \<Rightarrow> tree \<times> nat result" where
  "move_entries S trouble relative_paths destination_path t =
     (case bindE (unique_entries S t relative_paths) (\<lambda>sources. bindE (resolve_path S t True destination_path) (\<lambda>dest.
        if \<not> is_folder t dest then Inl (ValueError ''Choose an existing destination folder.'')
        else plan_moves t dest [] sources)) of
      Inl e \<Rightarrow> (t, Inl e)
    | Inr moves \<Rightarrow> (case run_moves trouble 0 [] moves t of
        (t', Inl e) \<Rightarrow> (t', Inl e) | (t', Inr u) \<Rightarrow> (t', Inr (length moves))))"

end
