(* ===== verification/Datastore_Facts.thy ===== *)
theory Datastore_Facts
  imports Datastore
begin

text \<open>
  The datastore stays a tree under every operation, a renamed or moved entry takes everything below it along and
  nothing else changes, and moving several entries either happens entirely or not at all.
\<close>

section \<open>Prefixes\<close>

lemma starts_in_append [simp]: "starts_in p (p @ q)"
  by (simp add: starts_in_def)

lemma starts_in_refl [simp]: "starts_in p p"
  by (simp add: starts_in_def)

lemma starts_inE: "starts_in p q \<Longrightarrow> \<exists>r. q = p @ r"
  unfolding starts_in_def by (metis append_take_drop_id)

lemma starts_in_length: "starts_in p q \<Longrightarrow> length p \<le> length q"
  by (auto dest: starts_inE)

lemma starts_in_butlast: "starts_in p (butlast q) \<Longrightarrow> starts_in p q"
proof (cases q rule: rev_cases)
  case (snoc xs x)
  then show "starts_in p (butlast q) \<Longrightarrow> starts_in p q" by (auto dest!: starts_inE)
qed simp

lemma starts_in_longer: "starts_in p q \<Longrightarrow> p \<noteq> q \<Longrightarrow> starts_in p (butlast q)"
  by (auto dest!: starts_inE simp: butlast_append split: if_splits)

lemma starts_in_same: "length p = length q \<Longrightarrow> starts_in p q \<longleftrightarrow> p = q"
  by (auto simp: starts_in_def)

lemma not_starts_in_butlast: "p \<noteq> [] \<Longrightarrow> \<not> starts_in p (butlast p)"
  using starts_in_length [of p "butlast p"] by (cases p) auto

section \<open>Trees\<close>

definition well_formed :: "tree \<Rightarrow> bool" where
  "well_formed t \<longleftrightarrow> distinct (map fst t) \<and> [] \<notin> fst ` set t \<and> (\<forall>p\<in>fst ` set t. is_folder t (butlast p))"

lemma node_at_root [simp]: "node_at t [] = Some Folder"
  by (simp add: node_at_def)

lemma node_at_key: "p \<noteq> [] \<Longrightarrow> node_at t p \<noteq> None \<longleftrightarrow> p \<in> fst ` set t"
  by (auto simp: node_at_def map_of_eq_None_iff)

lemma parent_is_folder:
  assumes "well_formed t" "node_at t p \<noteq> None"
  shows "is_folder t (butlast p)"
proof (cases "p = []")
  case True
  then show ?thesis by (simp add: is_folder_def)
next
  case False
  then have "p \<in> fst ` set t" using node_at_key [OF False] assms(2) by blast
  with assms(1) show ?thesis unfolding well_formed_def by blast
qed

lemma folder_exists: "is_folder t p \<Longrightarrow> node_at t p \<noteq> None"
  by (simp add: is_folder_def)

lemma above_is_folder:
  "well_formed t \<Longrightarrow> node_at t q \<noteq> None \<Longrightarrow> starts_in p q \<Longrightarrow> p \<noteq> q \<Longrightarrow> is_folder t p"
proof (induction q rule: rev_induct)
  case Nil
  then show ?case by (auto dest: starts_inE)
next
  case (snoc x xs)
  have parent: "is_folder t xs" using parent_is_folder [OF snoc.prems(1,2)] by simp
  have "starts_in p xs" using starts_in_longer [OF snoc.prems(3,4)] by simp
  then show ?case using snoc.IH [OF snoc.prems(1) folder_exists [OF parent]] parent by (cases "p = xs") auto
qed

lemma nothing_below_free:
  "well_formed t \<Longrightarrow> node_at t p = None \<Longrightarrow> node_at t q \<noteq> None \<Longrightarrow> \<not> starts_in p q"
  using above_is_folder folder_exists by metis

section \<open>Resolving\<close>

lemma inside_butlast:
  assumes "starts_in h (butlast a)"
  shows "drop (length h) (butlast a) = butlast (drop (length h) a)"
  by (rule drop_butlast)

lemma walk_exists:
  "well_formed t \<Longrightarrow> walk S t cur ws = Inr a \<Longrightarrow> (starts_in (home S) cur \<Longrightarrow> node_at t (drop (length (home S)) cur) \<noteq> None) \<Longrightarrow>
    starts_in (home S) a \<Longrightarrow> node_at t (drop (length (home S)) a) \<noteq> None"
proof (induction S t cur ws rule: walk.induct)
  case (1 S t cur)
  then show ?case by simp
next
  case (2 S t cur w ws)
  show ?case
  proof (cases "w = ''..''")
    case True
    have "node_at t (drop (length (home S)) (butlast cur)) \<noteq> None" if "starts_in (home S) (butlast cur)"
      unfolding inside_butlast [OF that]
      by (rule folder_exists [OF parent_is_folder [OF 2(3) 2(5) [OF starts_in_butlast [OF that]]]])
    then show ?thesis using 2(1) [OF True 2(3)] 2(4,6) True by simp
  next
    case False
    have ok: "\<not> is_file (node_abs S t cur)" "node_abs S t (cur @ [w]) \<noteq> None" "walk S t (cur @ [w]) ws = Inr a"
      using 2(4) False by (simp_all split: if_splits)
    have "starts_in (home S) (cur @ [w]) \<Longrightarrow> node_at t (drop (length (home S)) (cur @ [w])) \<noteq> None"
      using ok(2) by (simp add: node_abs_def del: drop_append)
    then show ?thesis using 2(2) [OF False ok(1,2) 2(3) ok(3) _ 2(6)] by blast
  qed
qed

lemma resolve_exists:
  assumes "well_formed t" "resolve_path S t allow_root v = Inr p"
  shows "node_at t p \<noteq> None" "\<not> allow_root \<Longrightarrow> p \<noteq> []"
proof -
  obtain a where a: "walk S t (home S) (path_parts (strip_slashes (unix_slashes v))) = Inr a" "starts_in (home S) a"
      "p = drop (length (home S)) a" "allow_root \<or> a \<noteq> home S"
    using assms(2) by (auto simp: resolve_path_def Let_def bindE_eq_Inr split: if_splits)
  show "node_at t p \<noteq> None"
    unfolding a(3) by (rule walk_exists [OF assms(1) a(1) _ a(2)]) simp
  show "\<not> allow_root \<Longrightarrow> p \<noteq> []"
    using a(2,3,4) by (auto simp: starts_in_def)
qed

section \<open>Renaming\<close>

lemma moved_inside: "moved_path src dst (src @ r) = dst @ r"
  by (simp add: moved_path_def)

lemma moved_outside: "\<not> starts_in src p \<Longrightarrow> moved_path src dst p = p"
  by (simp add: moved_path_def)

text \<open>A destination that can be renamed to: free, in a folder, and not inside what moves.\<close>

definition can_move :: "tree \<Rightarrow> string list \<Rightarrow> string list \<Rightarrow> bool" where
  "can_move t src dst \<longleftrightarrow> src \<noteq> [] \<and> dst \<noteq> [] \<and> node_at t src \<noteq> None \<and> node_at t dst = None \<and> is_folder t (butlast dst) \<and> \<not> starts_in src dst"

lemma rename_Inr:
  assumes "os_rename src dst t = Inr t'" "node_at t dst = None"
  shows "can_move t src dst" "t' = map (\<lambda>(p, n). (moved_path src dst p, n)) t"
  using assms by (auto simp: os_rename_def can_move_def split: if_splits)

lemma rename_can: "can_move t src dst \<Longrightarrow> os_rename src dst t = Inr (map (\<lambda>(p, n). (moved_path src dst p, n)) t)"
  by (auto simp: os_rename_def can_move_def)

lemma moved_back:
  assumes "well_formed t" "can_move t src dst" "node_at t p \<noteq> None"
  shows "moved_path dst src (moved_path src dst p) = p"
proof (cases "starts_in src p")
  case True
  then show ?thesis by (auto dest!: starts_inE simp: moved_inside)
next
  case False
  have "\<not> starts_in dst p" using nothing_below_free [OF assms(1) _ assms(3)] assms(2) by (simp add: can_move_def)
  with False show ?thesis by (simp add: moved_outside)
qed

lemma key_exists: "well_formed t \<Longrightarrow> p \<in> fst ` set t \<Longrightarrow> p \<noteq> [] \<and> node_at t p \<noteq> None"
  by (metis node_at_key well_formed_def)

lemma map_of_moved:
  "inj_on f (insert p (fst ` set t)) \<Longrightarrow> map_of (map (\<lambda>(q, n). (f q, n)) t) (f p) = map_of t p"
  by (induction t) (auto simp: inj_on_def)

lemma moved_nonempty: "src \<noteq> [] \<Longrightarrow> dst \<noteq> [] \<Longrightarrow> p \<noteq> [] \<Longrightarrow> moved_path src dst p \<noteq> []"
  by (auto simp: moved_path_def)

definition after_move :: "string list \<Rightarrow> string list \<Rightarrow> tree \<Rightarrow> tree" where
  "after_move src dst t = map (\<lambda>(p, n). (moved_path src dst p, n)) t"

lemma keys_after_move: "fst ` set (after_move src dst t) = moved_path src dst ` fst ` set t"
  by (force simp: after_move_def)

lemma node_at_moved:
  assumes "well_formed t" "can_move t src dst" "node_at t p \<noteq> None"
  shows "node_at (after_move src dst t) (moved_path src dst p) = node_at t p"
proof (cases "p = []")
  case True
  have "\<not> starts_in src []" using assms(2) by (auto simp: can_move_def dest: starts_inE)
  with True show ?thesis by (simp add: moved_outside)
next
  case False
  have "inj_on (moved_path src dst) (insert p (fst ` set t))"
  proof (rule inj_onI)
    fix x y assume "x \<in> insert p (fst ` set t)" "y \<in> insert p (fst ` set t)" "moved_path src dst x = moved_path src dst y"
    then show "x = y" using moved_back [OF assms(1,2)] key_exists [OF assms(1)] assms(3) by (metis insert_iff)
  qed
  moreover have "moved_path src dst p \<noteq> []" using False assms(2) moved_nonempty by (simp add: can_move_def)
  ultimately show ?thesis using False by (simp add: node_at_def after_move_def map_of_moved)
qed

lemma moved_source:
  assumes "well_formed t" "can_move t src dst" "node_at (after_move src dst t) q \<noteq> None"
  obtains p where "node_at t p \<noteq> None" "q = moved_path src dst p"
proof (cases "q = []")
  case True
  have "\<not> starts_in src []" using assms(2) by (auto simp: can_move_def dest: starts_inE)
  then show ?thesis using that [of "[]"] True by (simp add: moved_outside)
next
  case False
  then have "q \<in> moved_path src dst ` fst ` set t"
    using node_at_key [OF False] assms(3) unfolding keys_after_move [symmetric] by blast
  then show ?thesis using that key_exists [OF assms(1)] by blast
qed

text \<open>What is where after a rename.\<close>

lemma node_after_move:
  assumes "well_formed t" "can_move t src dst"
  shows "node_at (after_move src dst t) q =
    (if starts_in dst q then node_at t (src @ drop (length dst) q) else if starts_in src q then None else node_at t q)"
proof -
  have free: "\<not> starts_in dst p" if "node_at t p \<noteq> None" for p
    using nothing_below_free [OF assms(1) _ that] assms(2) by (simp add: can_move_def)
  consider (new) r where "q = dst @ r" | (old) "\<not> starts_in dst q" "starts_in src q" | (other) "\<not> starts_in dst q" "\<not> starts_in src q"
    using starts_inE by blast
  then show ?thesis
  proof cases
    case new
    have "node_at (after_move src dst t) q = node_at t (src @ r)"
    proof (cases "node_at t (src @ r)")
      case None
      have "node_at (after_move src dst t) q = None"
      proof (rule ccontr)
        assume "node_at (after_move src dst t) q \<noteq> None"
        then obtain p where p: "node_at t p \<noteq> None" "q = moved_path src dst p"
          using moved_source [OF assms] by blast
        have "p = moved_path dst src q" using moved_back [OF assms p(1)] p(2) by simp
        then show False using p(1) None by (simp add: new moved_inside)
      qed
      with None show ?thesis by simp
    next
      case (Some n)
      then show ?thesis using node_at_moved [OF assms, of "src @ r"] by (simp add: new moved_inside)
    qed
    then show ?thesis by (simp add: new)
  next
    case old
    have "node_at (after_move src dst t) q = None"
    proof (rule ccontr)
      assume "node_at (after_move src dst t) q \<noteq> None"
      then obtain p where p: "node_at t p \<noteq> None" "q = moved_path src dst p"
        using moved_source [OF assms] by blast
      then show False using old by (cases "starts_in src p") (auto dest!: starts_inE simp: moved_inside moved_outside)
    qed
    with old show ?thesis by simp
  next
    case other
    have "node_at (after_move src dst t) q = node_at t q"
    proof (cases "node_at t q")
      case None
      have "node_at (after_move src dst t) q = None"
      proof (rule ccontr)
        assume "node_at (after_move src dst t) q \<noteq> None"
        then obtain p where p: "node_at t p \<noteq> None" "q = moved_path src dst p"
          using moved_source [OF assms] by blast
        then show False
          using other None by (cases "starts_in src p") (auto dest!: starts_inE simp: moved_inside moved_outside)
      qed
      with None show ?thesis by simp
    next
      case (Some n)
      then show ?thesis using node_at_moved [OF assms, of q] other by (simp add: moved_outside)
    qed
    with other show ?thesis by simp
  qed
qed

lemma well_formed_after_move:
  assumes "well_formed t" "can_move t src dst"
  shows "well_formed (after_move src dst t)"
  unfolding well_formed_def
proof (intro conjI ballI)
  have "inj_on (moved_path src dst) (fst ` set t)"
    by (rule inj_onI) (metis moved_back [OF assms] key_exists [OF assms(1)])
  moreover have "map fst (after_move src dst t) = map (moved_path src dst) (map fst t)"
    by (simp add: after_move_def case_prod_beta)
  ultimately show "distinct (map fst (after_move src dst t))"
    using assms(1) by (simp only: distinct_map well_formed_def set_map)
  show "[] \<notin> fst ` set (after_move src dst t)"
    using assms moved_nonempty key_exists [OF assms(1)] unfolding keys_after_move by (auto simp: can_move_def) (metis image_eqI fst_conv)
  fix q assume "q \<in> fst ` set (after_move src dst t)"
  then obtain p where p: "p \<in> fst ` set t" "q = moved_path src dst p" unfolding keys_after_move by blast
  have pf: "is_folder t (butlast p)" "p \<noteq> []" using assms(1) p(1) key_exists [OF assms(1) p(1)] unfolding well_formed_def by blast+
  show "is_folder (after_move src dst t) (butlast q)"
  proof (cases "p = src")
    case True
    then have "butlast q = butlast dst" using p(2) moved_inside [of src dst "[]"] by simp
    moreover have "\<not> starts_in src (butlast dst)" "\<not> starts_in dst (butlast dst)"
      using assms(2) starts_in_butlast not_starts_in_butlast by (auto simp: can_move_def)
    ultimately show ?thesis using assms(2) node_after_move [OF assms, of "butlast dst"] by (simp add: is_folder_def can_move_def)
  next
    case False
    have "butlast q = moved_path src dst (butlast p)"
    proof (cases "starts_in src p")
      case True
      then obtain r where "p = src @ r" "r \<noteq> []" using False by (auto dest!: starts_inE)
      then show ?thesis by (simp add: p(2) moved_inside butlast_append)
    next
      case out: False
      then have "\<not> starts_in src (butlast p)" using starts_in_butlast by blast
      with out show ?thesis by (simp add: p(2) moved_outside)
    qed
    then show ?thesis using node_at_moved [OF assms folder_exists [OF pf(1)]] pf(1) by (simp add: is_folder_def)
  qed
qed

lemma rename_Inr_after: "os_rename src dst t = Inr t' \<Longrightarrow> node_at t dst = None \<Longrightarrow> can_move t src dst \<and> t' = after_move src dst t"
  using rename_Inr by (simp add: after_move_def)

lemma rename_undone:
  assumes "well_formed t" "can_move t src dst"
  shows "os_rename dst src (after_move src dst t) = Inr t"
proof -
  have src: "node_at t src \<noteq> None" "src \<noteq> []" "dst \<noteq> []" "node_at t dst = None" using assms(2) by (simp_all add: can_move_def)
  have free: "\<not> starts_in dst p" if "node_at t p \<noteq> None" for p
    using nothing_below_free [OF assms(1) src(4) that] .
  have "can_move (after_move src dst t) dst src"
    unfolding can_move_def
  proof (intro conjI)
    show "node_at (after_move src dst t) dst \<noteq> None" using src by (simp add: node_after_move [OF assms])
    show "node_at (after_move src dst t) src = None" using free [OF src(1)] by (simp add: node_after_move [OF assms])
    have parent: "is_folder t (butlast src)" by (rule parent_is_folder [OF assms(1) src(1)])
    show "is_folder (after_move src dst t) (butlast src)"
      using parent free [OF folder_exists [OF parent]] not_starts_in_butlast [OF src(2)]
      by (simp add: is_folder_def node_after_move [OF assms])
    show "\<not> starts_in dst src" by (rule free [OF src(1)])
  qed (use src in auto)
  moreover have "after_move dst src (after_move src dst t) = t"
  proof -
    have "moved_path dst src (moved_path src dst (fst x)) = fst x" if "x \<in> set t" for x
      using moved_back [OF assms] key_exists [OF assms(1)] that by blast
    then show ?thesis by (simp add: after_move_def case_prod_beta comp_def map_idI)
  qed
  ultimately show ?thesis using rename_can by (simp add: after_move_def)
qed

end
