(* ===== verification/Datastore_Results.thy ===== *)
theory Datastore_Results
  imports Datastore_Facts "HOL-Library.Multiset"
begin

text \<open>What the operations of the datastore keep, and that moving entries happens as a whole.\<close>

section \<open>Single entries\<close>

definition childless :: "tree \<Rightarrow> string list \<Rightarrow> bool" where
  "childless t p \<longleftrightarrow> (\<forall>q\<in>fst ` set t. butlast q \<noteq> p)"

lemma childless_file: "well_formed t \<Longrightarrow> \<not> is_folder t p \<Longrightarrow> childless t p"
  by (auto simp: well_formed_def childless_def)

lemma node_at_remove: "p \<noteq> [] \<Longrightarrow> node_at (remove_entry p t) q = (if q = p then None else node_at t q)"
proof -
  assume "p \<noteq> []"
  have "map_of (filter (\<lambda>(q, n). q \<noteq> p) t) q = (if q = p then None else map_of t q)" for q
    by (induction t) auto
  then show ?thesis using \<open>p \<noteq> []\<close> by (auto simp: node_at_def remove_entry_def)
qed

lemma remove_well_formed:
  assumes "well_formed t" "childless t p" "p \<noteq> []"
  shows "well_formed (remove_entry p t)"
  unfolding well_formed_def
proof (intro conjI ballI)
  show "distinct (map fst (remove_entry p t))"
    using assms(1) by (simp add: well_formed_def remove_entry_def distinct_map inj_on_def)
  show "[] \<notin> fst ` set (remove_entry p t)"
    using assms(1) by (auto simp: well_formed_def remove_entry_def)
  fix q assume "q \<in> fst ` set (remove_entry p t)"
  then have "q \<in> fst ` set t" by (auto simp: remove_entry_def)
  then have "is_folder t (butlast q)" "butlast q \<noteq> p"
    using assms(1,2) unfolding well_formed_def childless_def by blast+
  then show "is_folder (remove_entry p t) (butlast q)"
    by (simp add: is_folder_def node_at_remove [OF assms(3)])
qed

lemma remove_childless: "childless t p \<Longrightarrow> childless (remove_entry q t) p"
  by (auto simp: childless_def remove_entry_def)

lemma fold_remove:
  "well_formed t \<Longrightarrow> \<forall>p\<in>set ps. childless t p \<and> p \<noteq> [] \<Longrightarrow> well_formed (fold remove_entry ps t)"
  by (induction ps arbitrary: t) (auto simp: remove_well_formed remove_childless)

lemma create_well_formed:
  assumes "well_formed t"
  shows "well_formed (fst (create_folder S v name t))"
proof (cases "snd (create_folder S v name t)")
  case (Inl e)
  then show ?thesis using assms by (auto simp: create_folder_def split: sum.splits)
next
  case (Inr p)
  then obtain parent n where p: "is_folder t parent" "node_at t (parent @ [n])  = None" "p = parent @ [n]"
    and t': "fst (create_folder S v name t) = t @ [(p, Folder)]"
    by (auto simp: create_folder_def bindE_eq_Inr ensure_available_def split: sum.splits if_splits)
  have at: "node_at (t @ [(parent @ [n], Folder)]) q = (if q = parent @ [n] then Some Folder else node_at t q)" for q
    using p(2) by (auto simp: node_at_def map_add_def split: option.split)
  have new: "parent @ [n] \<notin> fst ` set t" using p(2) node_at_key [of "parent @ [n]" t] by simp
  show ?thesis
    using assms p(1) new unfolding t' p(3) well_formed_def by (auto simp: is_folder_def at)
qed

lemma rename_entry_cases:
  assumes "well_formed t"
  obtains (refused) "fst (rename_entry S v name t) = t"
  | (moved) src n where "resolve_path S t False v = Inr src" "validate_name name = Inr n" "can_move t src (butlast src @ [n])"
      "rename_entry S v name t = (after_move src (butlast src @ [n]) t, Inr (butlast src @ [n]))"
proof -
  define body where "body = bindE (resolve_path S t False v) (\<lambda>src. bindE (validate_name name) (\<lambda>n.
        let dst = butlast src @ [n] in
        if dst = src then Inr (src, t)
        else bindE (ensure_available t dst) (\<lambda>_. bindE (os_rename src dst t) (\<lambda>t'. Inr (dst, t')))))"
  have op: "rename_entry S v name t = (case body of Inl e \<Rightarrow> (t, Inl e) | Inr (p, t') \<Rightarrow> (t', Inr p))"
    by (simp add: rename_entry_def body_def)
  show ?thesis
proof (cases body)
  case (Inl e)
  then show ?thesis using refused by (simp add: op)
next
  case (Inr pt)
  then obtain src n where sn: "resolve_path S t False v = Inr src" "validate_name name = Inr n"
    and rest: "(let dst = butlast src @ [n] in
        if dst = src then Inr (src, t)
        else bindE (ensure_available t dst) (\<lambda>_. bindE (os_rename src dst t) (\<lambda>t'. Inr (dst, t')))) = Inr pt"
    unfolding body_def by (auto simp: bindE_eq_Inr)
  show ?thesis
  proof (cases "butlast src @ [n] = src")
    case True
    then have "pt = (src, t)" using rest by (simp add: Let_def)
    then show ?thesis using refused Inr by (simp add: op)
  next
    case False
    then obtain t' where "node_at t (butlast src @ [n]) = None" "os_rename src (butlast src @ [n]) t = Inr t'" "pt = (butlast src @ [n], t')"
      using rest by (auto simp: Let_def bindE_eq_Inr ensure_available_def split: if_splits)
    then show ?thesis using moved [OF sn] rename_Inr_after Inr by (fastforce simp: op)
  qed
qed
qed

lemma rename_entry_well_formed:
  assumes "well_formed t"
  shows "well_formed (fst (rename_entry S v name t))"
  by (cases rule: rename_entry_cases [OF assms, of S v name]) (simp_all add: assms well_formed_after_move)

lemma delete_entry_cases:
  assumes "well_formed t"
  obtains (refused) "fst (delete_entry S v t) = t"
  | (gone) p where "fst (delete_entry S v t) = remove_entry p t" "childless t p" "p \<noteq> []"
proof (cases "resolve_path S t False v")
  case (Inl e)
  then show ?thesis using refused by (simp add: delete_entry_def)
next
  case (Inr p)
  have "p \<noteq> []" using resolve_exists(2) [OF assms Inr] by simp
  moreover have "is_folder t p \<longrightarrow> is_empty_folder t p \<Longrightarrow> childless t p"
    using childless_file [OF assms] by (auto simp: is_empty_folder_def childless_def)
  ultimately show ?thesis
    using refused gone [of p] Inr by (cases "is_folder t p \<and> \<not> is_empty_folder t p") (auto simp: delete_entry_def)
qed

lemma unique_paths_found:
  "well_formed t \<Longrightarrow> unique_paths S t seen vs = Inr ps \<Longrightarrow> \<forall>p\<in>set ps. node_at t p \<noteq> None \<and> p \<noteq> []"
proof (induction S t seen vs arbitrary: ps rule: unique_paths.induct)
  case (1 S t seen)
  then show ?case by simp
next
  case (2 S t seen v vs)
  then obtain p where p: "resolve_path S t False v = Inr p" by (auto simp: bindE_eq_Inr)
  note ex = resolve_exists [OF 2(3) p]
  show ?case
  proof (cases "p \<in> set seen")
    case True
    then show ?thesis using 2(1) [OF True 2(3)] 2(4) by (simp add: p)
  next
    case False
    then obtain qs where "unique_paths S t (p # seen) vs = Inr qs" "ps = p # qs"
      using 2(4) by (auto simp: p bindE_eq_Inr)
    then show ?thesis using 2(2) [OF False 2(3)] ex by simp
  qed
qed

lemma unique_entries_found: "well_formed t \<Longrightarrow> unique_entries S t vs = Inr ps \<Longrightarrow> \<forall>p\<in>set ps. node_at t p \<noteq> None \<and> p \<noteq> []"
  using unique_paths_found by (auto simp: unique_entries_def split: if_splits)

lemma delete_entries_cases:
  assumes "well_formed t"
  obtains (refused) "fst (delete_entries S vs t) = t"
  | (gone) ps where "fst (delete_entries S vs t) = fold remove_entry ps t" "\<forall>p\<in>set ps. childless t p \<and> p \<noteq> []"
proof (cases "unique_entries S t vs")
  case (Inl e)
  then show ?thesis using refused by (simp add: delete_entries_def)
next
  case (Inr ps)
  show ?thesis
  proof (cases "select_first (\<lambda>p. is_folder t p \<and> \<not> is_empty_folder t p) ps")
    case None
    then have "\<forall>p\<in>set ps. is_folder t p \<longrightarrow> is_empty_folder t p" by (auto simp: select_first_None)
    then have "\<forall>p\<in>set ps. childless t p"
      using childless_file [OF assms] by (auto simp: is_empty_folder_def childless_def)
    then show ?thesis using gone None Inr unique_entries_found [OF assms Inr] by (simp add: delete_entries_def)
  next
    case (Some p)
    then show ?thesis using refused Inr by (simp add: delete_entries_def)
  qed
qed

section \<open>Moving several entries\<close>

text \<open>Moves that are planned: each goes to its own free name in the same folder.\<close>

definition planned :: "tree \<Rightarrow> string list \<Rightarrow> (string list \<times> string list) list \<Rightarrow> bool" where
  "planned t dest ms \<longleftrightarrow> distinct (map snd ms) \<and> (\<forall>m\<in>set ms. snd m = dest @ [last (fst m)] \<and> node_at t (snd m) = None)"

lemma plan_moves_planned:
  "plan_moves t dest used srcs = Inr ms \<Longrightarrow> planned t dest ms \<and> set (map snd ms) \<inter> set used = {} \<and> map fst ms = srcs"
proof (induction t dest used srcs arbitrary: ms rule: plan_moves.induct)
  case (1 t dest used)
  then show ?case by (simp add: planned_def)
next
  case (2 t dest used src srcs)
  define target where "target = dest @ [last src]"
  obtain ns where ns: "plan_moves t dest (target # used) srcs = Inr ns" "ms = (src, target) # ns"
    and ok: "target \<notin> set used" "node_at t target = None" "\<not> (is_folder t src \<and> starts_in src dest)" "target \<noteq> src"
    using 2(2) by (auto simp: Let_def bindE_eq_Inr target_def split: if_splits)
  have IH: "planned t dest ns \<and> set (map snd ns) \<inter> set (target # used) = {} \<and> map fst ns = srcs"
    using 2(1) [OF ok(3) target_def ok(4)] ok(1,2) ns(1) by blast
  then have apart: "target \<notin> snd ` set ns" "snd ` set ns \<inter> set used = {}" by auto
  have "distinct (map snd ns)" "\<forall>m\<in>set ns. snd m = dest @ [last (fst m)] \<and> node_at t (snd m) = None"
    using IH unfolding planned_def by blast+
  then have "planned t dest ms"
    unfolding planned_def ns(2) list.map distinct.simps using apart(1) ok(2) by (intro conjI ballI) (auto simp: target_def)
  then show ?case using apart IH ok(1) by (simp add: ns(2))
qed

lemma planned_after:
  assumes "well_formed t" "planned t dest ((src, dst) # ms)" "can_move t src dst"
  shows "planned (after_move src dst t) dest ms"
proof -
  have "node_at (after_move src dst t) (snd m) = None" if "m \<in> set ms" for m
  proof -
    have "distinct (map snd ((src, dst) # ms))" using assms(2) unfolding planned_def by blast
    then have "snd m \<noteq> dst" using that by (metis distinct.simps(2) image_eqI list.set_map list.simps(9) snd_conv)
    moreover have "snd m = dest @ [last (fst m)]" "node_at t (snd m) = None" "dst = dest @ [last src]"
      using assms(2) that unfolding planned_def by auto
    ultimately have m: "snd m = dest @ [last (fst m)]" "node_at t (snd m) = None" "snd m \<noteq> dst" "dst = dest @ [last src]" by blast+
    then have "\<not> starts_in dst (snd m)" using starts_in_same [of dst "snd m"] by simp
    then show ?thesis using m(2) by (simp add: node_after_move [OF assms(1,3)])
  qed
  then show ?thesis using assms(2) by (auto simp: planned_def)
qed

lemma run_moves_whole:
  "well_formed t \<Longrightarrow> planned t dest ms \<Longrightarrow> run_moves trouble k moved ms t = (t', res) \<Longrightarrow>
     (case res of Inl e \<Rightarrow> t' = fold rename_back moved t
      | Inr u \<Rightarrow> t' = fold (\<lambda>(src, dst). after_move src dst) ms t \<and> well_formed t')"
proof (induction trouble k moved ms t arbitrary: t' rule: run_moves.induct)
  case (1 trouble k moved t)
  then show ?case by auto
next
  case (2 trouble k moved src dst ms t)
  define step where "step = (case trouble k of Some e \<Rightarrow> Inl (OSError e) | None \<Rightarrow> os_rename src dst t)"
  show ?case
  proof (cases step)
    case (Inl e)
    then show ?thesis using 2(4) by (auto simp: step_def)
  next
    case (Inr t1)
    have free: "node_at t dst = None" using 2(3) by (auto simp: planned_def)
    have "os_rename src dst t = Inr t1" using Inr by (auto simp: step_def split: option.splits)
    then have t1: "can_move t src dst" "t1 = after_move src dst t" using rename_Inr_after [OF _ free] by blast+
    have run: "run_moves trouble (Suc k) ((src, dst) # moved) ms t1 = (t', res)"
      using 2(4) Inr by (simp add: step_def)
    have undone: "rename_back (src, dst) t1 = t"
      using rename_undone [OF 2(2) t1(1)] by (simp add: rename_back_def t1(2))
    note IH = 2(1) [OF Inr [unfolded step_def] _ _ run]
    have "well_formed t1" "planned t1 dest ms"
      using well_formed_after_move [OF 2(2) t1(1)] planned_after [OF 2(2,3) t1(1)] by (simp_all add: t1(2))
    note whole = IH [OF this]
    show ?thesis
    proof (cases res)
      case (Inl e)
      with whole undone show ?thesis by simp
    next
      case inr: (Inr u)
      have "t' = fold (\<lambda>(src, dst). after_move src dst) ms t1 \<and> well_formed t'"
        using whole unfolding inr sum.case .
      then show ?thesis unfolding inr t1(2) by auto
    qed
  qed
qed

lemma move_entries_cases:
  assumes "well_formed t"
  obtains (kept) e where "move_entries S trouble vs d t = (t, Inl e)"
  | (moved) dest ms where "move_entries S trouble vs d t = (fold (\<lambda>(src, dst). after_move src dst) ms t, Inr (length ms))"
      "well_formed (fold (\<lambda>(src, dst). after_move src dst) ms t)" "unique_entries S t vs = Inr (map fst ms)"
      "resolve_path S t True d = Inr dest" "\<forall>m\<in>set ms. snd m = dest @ [last (fst m)]"
proof (cases "bindE (unique_entries S t vs) (\<lambda>sources. bindE (resolve_path S t True d) (\<lambda>dest.
        if \<not> is_folder t dest then Inl (ValueError ''Choose an existing destination folder.'')
        else plan_moves t dest [] sources))")
  case (Inl e)
  then show ?thesis using kept by (simp add: move_entries_def)
next
  case (Inr ms)
  then obtain sources dest where s: "unique_entries S t vs = Inr sources" "resolve_path S t True d = Inr dest" "plan_moves t dest [] sources = Inr ms"
    by (auto simp: bindE_eq_Inr split: if_splits)
  note plan = plan_moves_planned [OF s(3)]
  obtain t' res where run: "run_moves trouble 0 [] ms t = (t', res)" by fastforce
  note whole = run_moves_whole [OF assms conjunct1 [OF plan] run]
  show ?thesis
  proof (cases res)
    case (Inl e)
    with whole run Inr show ?thesis using kept by (simp add: move_entries_def)
  next
    case inr: (Inr u)
    have dest: "\<forall>m\<in>set ms. snd m = dest @ [last (fst m)]" using plan unfolding planned_def by blast
    have t': "t' = fold (\<lambda>(src, dst). after_move src dst) ms t" and "well_formed t'"
      using whole unfolding inr sum.case by blast+
    then have formed: "well_formed (fold (\<lambda>(src, dst). after_move src dst) ms t)" by (simp only:)
    have "move_entries S trouble vs d t = (fold (\<lambda>(src, dst). after_move src dst) ms t, Inr (length ms))"
      unfolding t' [symmetric] using Inr run inr by (simp add: move_entries_def)
    moreover have "unique_entries S t vs = Inr (map fst ms)" using s(1) plan by simp
    ultimately show ?thesis using moved [of ms dest] formed s(2) dest by blast
  qed
qed


section \<open>Runs\<close>

datatype ds_op =
    Create_folder string string
  | Rename_entry string string
  | Delete_entry string
  | Delete_entries "string list"
  | Move_entries "nat \<Rightarrow> string option" "string list" string

fun ds_step :: "surroundings \<Rightarrow> tree \<Rightarrow> ds_op \<Rightarrow> tree" where
  "ds_step S t (Create_folder v name) = fst (create_folder S v name t)"
| "ds_step S t (Rename_entry v name) = fst (rename_entry S v name t)"
| "ds_step S t (Delete_entry v) = fst (delete_entry S v t)"
| "ds_step S t (Delete_entries vs) = fst (delete_entries S vs t)"
| "ds_step S t (Move_entries trouble vs d) = fst (move_entries S trouble vs d t)"

fun deletes :: "ds_op \<Rightarrow> bool" where
  "deletes (Delete_entry v) = True"
| "deletes (Delete_entries vs) = True"
| "deletes op = False"

definition file_contents :: "tree \<Rightarrow> node multiset" where
  "file_contents t = filter_mset (\<lambda>n. n \<noteq> Folder) (mset (map snd t))"

lemma contents_after_move [simp]: "file_contents (after_move src dst t) = file_contents t"
  by (simp add: file_contents_def after_move_def case_prod_beta comp_def)

lemma contents_fold_move [simp]: "file_contents (fold (\<lambda>(src, dst). after_move src dst) ms t) = file_contents t"
  by (induction ms arbitrary: t) auto

lemma contents_remove: "file_contents (remove_entry p t) \<subseteq># file_contents t"
proof -
  have "mset (map snd (filter (\<lambda>(q, n). q \<noteq> p) t)) \<subseteq># mset (map snd t)"
    by (induction t) (auto intro: subset_mset.order_trans)
  then show ?thesis unfolding file_contents_def remove_entry_def by (rule multiset_filter_mono)
qed

lemma contents_fold_remove: "file_contents (fold remove_entry ps t) \<subseteq># file_contents t"
  by (induction ps arbitrary: t) (auto intro: subset_mset.order_trans contents_remove)

lemma contents_create: "file_contents (fst (create_folder S v name t)) = file_contents t"
  by (auto simp: create_folder_def file_contents_def split: sum.split)

lemma ds_step_well_formed:
  assumes "well_formed t"
  shows "well_formed (ds_step S t op)"
proof (cases op)
  case (Delete_entry v)
  then show ?thesis by (cases rule: delete_entry_cases [OF assms, of S v]) (simp_all add: assms remove_well_formed)
next
  case (Delete_entries vs)
  then show ?thesis by (cases rule: delete_entries_cases [OF assms, of S vs]) (simp_all add: assms fold_remove)
next
  case (Move_entries trouble vs d)
  then show ?thesis by (cases rule: move_entries_cases [OF assms, of S trouble vs d]) (simp_all add: assms)
qed (simp_all add: assms create_well_formed rename_entry_well_formed)

lemma ds_step_contents:
  assumes "well_formed t"
  shows "file_contents (ds_step S t op) \<subseteq># file_contents t" "\<not> deletes op \<Longrightarrow> file_contents (ds_step S t op) = file_contents t"
proof -
  show keep: "file_contents (ds_step S t op) = file_contents t" if "\<not> deletes op"
  proof (cases op)
    case (Rename_entry v name)
    then show ?thesis by (cases rule: rename_entry_cases [OF assms, of S v name]) simp_all
  next
    case (Move_entries trouble vs d)
    then show ?thesis by (cases rule: move_entries_cases [OF assms, of S trouble vs d]) simp_all
  qed (use that in \<open>simp_all add: contents_create\<close>)
  show "file_contents (ds_step S t op) \<subseteq># file_contents t"
  proof (cases "deletes op")
    case True
    then show ?thesis
    proof (cases op)
      case (Delete_entry v)
      then show ?thesis by (cases rule: delete_entry_cases [OF assms, of S v]) (simp_all add: contents_remove)
    next
      case (Delete_entries vs)
      then show ?thesis by (cases rule: delete_entries_cases [OF assms, of S vs]) (simp_all add: contents_fold_remove)
    qed simp_all
  next
    case False
    with keep show ?thesis by simp
  qed
qed

section \<open>Names\<close>

text \<open>A name that stands for itself in a path: no separator, no NUL, not a dot or two.\<close>

definition plain_name :: "string \<Rightarrow> bool" where
  "plain_name w \<longleftrightarrow> w \<notin> {[], ''.'', ''..''} \<and> set w \<inter> {CHR ''/'', CHR 92, CHR 0x00} = {}"

definition plain_names :: "tree \<Rightarrow> bool" where
  "plain_names t \<longleftrightarrow> (\<forall>p\<in>fst ` set t. \<forall>w\<in>set p. plain_name w)"

lemma validated_plain: "validate_name name = Inr n \<Longrightarrow> plain_name n"
  by (auto simp: validate_name_def plain_name_def Let_def split: if_splits)

lemma plain_at: "plain_names t \<Longrightarrow> node_at t p \<noteq> None \<Longrightarrow> w \<in> set p \<Longrightarrow> plain_name w"
  using node_at_key [of p t] by (cases "p = []") (auto simp: plain_names_def)

lemma moved_path_names: "set (moved_path src dst p) \<subseteq> set p \<union> set dst"
  by (auto simp: moved_path_def dest: in_set_dropD)

lemma moved_plain: "plain_names t \<Longrightarrow> \<forall>w\<in>set dst. plain_name w \<Longrightarrow> plain_names (after_move src dst t)"
  unfolding plain_names_def keys_after_move using moved_path_names [of src dst] by blast

lemma fold_moved_plain:
  "plain_names t \<Longrightarrow> \<forall>m\<in>set ms. \<forall>w\<in>set (snd m). plain_name w \<Longrightarrow>
     plain_names (fold (\<lambda>(src, dst). after_move src dst) ms t)"
  by (induction ms arbitrary: t) (auto simp: moved_plain)

lemma removed_plain: "plain_names t \<Longrightarrow> plain_names (remove_entry p t)"
  by (auto simp: plain_names_def remove_entry_def)

lemma fold_removed_plain: "plain_names t \<Longrightarrow> plain_names (fold remove_entry ps t)"
  by (induction ps arbitrary: t) (auto simp: removed_plain)

lemma created_plain:
  assumes "well_formed t" "plain_names t"
  shows "plain_names (fst (create_folder S v name t))"
proof (cases "snd (create_folder S v name t)")
  case (Inl e)
  then show ?thesis using assms by (auto simp: create_folder_def split: sum.splits)
next
  case (Inr p)
  then obtain parent n where p: "resolve_path S t True v = Inr parent" "validate_name name = Inr n" "p = parent @ [n]"
    and t': "fst (create_folder S v name t) = t @ [(p, Folder)]"
    by (auto simp: create_folder_def bindE_eq_Inr split: sum.splits if_splits)
  have "\<forall>w\<in>set parent. plain_name w"
    using plain_at [OF assms(2) resolve_exists(1) [OF assms(1) p(1)]] by blast
  then show ?thesis using assms(2) validated_plain [OF p(2)] unfolding t' p(3) by (auto simp: plain_names_def)
qed

lemma ds_step_plain:
  assumes "well_formed t" "plain_names t"
  shows "plain_names (ds_step S t op)"
proof (cases op)
  case (Rename_entry v name)
  show ?thesis
    unfolding Rename_entry ds_step.simps
  proof (rule rename_entry_cases [OF assms(1), of S v name], goal_cases refused moved)
    case (moved src n)
    have "\<forall>w\<in>set (butlast src @ [n]). plain_name w"
      using plain_at [OF assms(2) resolve_exists(1) [OF assms(1) moved(1)]] validated_plain [OF moved(2)] by (auto dest: in_set_butlastD)
    then show ?case using moved(4) moved_plain [OF assms(2)] by simp
  qed (simp add: assms)
next
  case (Delete_entry v)
  then show ?thesis by (cases rule: delete_entry_cases [OF assms(1), of S v]) (simp_all add: assms removed_plain)
next
  case (Delete_entries vs)
  then show ?thesis by (cases rule: delete_entries_cases [OF assms(1), of S vs]) (simp_all add: assms fold_removed_plain)
next
  case (Move_entries trouble vs d)
  show ?thesis
    unfolding Move_entries ds_step.simps
  proof (rule move_entries_cases [OF assms(1), of S trouble vs d], goal_cases kept moved)
    case (moved dest ms)
    have "\<forall>w\<in>set (snd m). plain_name w" if "m \<in> set ms" for m
    proof -
      have "node_at t (fst m) \<noteq> None" "fst m \<noteq> []"
        using unique_entries_found [OF assms(1) moved(3)] that by auto
      then have "plain_name (last (fst m))" using plain_at [OF assms(2)] last_in_set by blast
      then show ?thesis
        using moved(5) that plain_at [OF assms(2) resolve_exists(1) [OF assms(1) moved(4)]] by auto
    qed
    then show ?case using moved(1) fold_moved_plain [OF assms(2)] by simp
  qed (simp add: assms)
qed (simp_all add: assms created_plain)

definition ds_ok :: "tree \<Rightarrow> bool" where
  "ds_ok t \<longleftrightarrow> well_formed t \<and> plain_names t"

lemma ds_step_ok: "ds_ok t \<Longrightarrow> ds_ok (ds_step S t op)"
  unfolding ds_ok_def using ds_step_well_formed ds_step_plain by blast

interpretation datastore: step_system "ds_step S" ds_ok for S
  by unfold_locales (rule ds_step_ok)

text \<open>
  C40: whatever the users of the datastore do, in whatever order, it stays a tree: every entry lies in an existing
  folder, no two at one place, and every name stands for itself in a path.  No file is ever changed or
  doubled, and none is lost unless something is deleted.
\<close>

theorem datastore_keeps_its_files:
  assumes "well_formed t" "plain_names t"
  shows "well_formed (foldl (ds_step S) t ops) \<and> plain_names (foldl (ds_step S) t ops) \<and>
    file_contents (foldl (ds_step S) t ops) \<subseteq># file_contents t \<and>
    (list_all (\<lambda>op. \<not> deletes op) ops \<longrightarrow> file_contents (foldl (ds_step S) t ops) = file_contents t)"
proof -
  have "ds_ok t" using assms by (simp add: ds_ok_def)
  then have "ds_ok (foldl (ds_step S) t ops)" by (rule datastore.run_invar)
  moreover have "file_contents (foldl (ds_step S) t ops) \<subseteq># file_contents t \<and>
      (list_all (\<lambda>op. \<not> deletes op) ops \<longrightarrow> file_contents (foldl (ds_step S) t ops) = file_contents t)"
    using assms(1)
  proof (induction ops arbitrary: t)
    case Nil
    then show ?case by simp
  next
    case (Cons op ops)
    note step = ds_step_contents [OF Cons.prems, where S = S and op = op]
    from Cons.IH [OF ds_step_well_formed [OF Cons.prems, of S op]] step show ?case
      by (auto intro: subset_mset.order_trans)
  qed
  ultimately show ?thesis by (simp add: ds_ok_def)
qed

end
