(* ===== verification/Datastore_Witnesses.thy ===== *)
theory Datastore_Witnesses
  imports Datastore_Results
begin

text \<open>A folder with a file, an empty folder and a file beside them; moves that fail halfway and moves that succeed.\<close>

definition sample_tree :: tree where
  "sample_tree = [([''a''], Folder), ([''a'', ''f''], File [1]), ([''b''], Folder), ([''g''], File [2])]"

definition sample_place :: surroundings where
  "sample_place = \<lparr>home = [''data''], outside = (\<lambda>_. None)\<rparr>"


lemma sample_ok: "well_formed sample_tree" "plain_names sample_tree"
  by (auto simp: sample_tree_def well_formed_def plain_names_def plain_name_def is_folder_def node_at_def)

definition second_fails :: "nat \<Rightarrow> string option" where
  "second_fails k = (if k = 1 then Some ''Device or resource busy'' else None)"



definition sample_ops :: "ds_op list" where
  "sample_ops = [Create_folder ''a'' '' new '', Rename_entry ''a/f'' ''h'', Move_entries second_fails [''a'', ''g''] ''b'',
     Move_entries (\<lambda>_. None) [''a''] ''b'', Rename_entry ''../x'' ''y'']"

theorem datastore_keeps_its_files_witness:
  "well_formed (foldl (ds_step sample_place) sample_tree sample_ops) \<and> plain_names (foldl (ds_step sample_place) sample_tree sample_ops) \<and>
   file_contents (foldl (ds_step sample_place) sample_tree sample_ops) = file_contents sample_tree"
  using datastore_keeps_its_files [OF sample_ok, of sample_place sample_ops] by (simp add: sample_ops_def)

end
