(* ===== verification/Spec2Isabelle.thy ===== *)
theory Spec2Isabelle
  imports Distributed_Witnesses Login_Throttle Json_Stream Diagnostic_Witnesses Dhcp_Facts Replay_Facts
    Schedule_Witnesses Telnet_Facts Upload_Witnesses Tftp_Witnesses
    Datastore_Witnesses
begin

text \<open>
  TWN Toolkit is a self-hosted Flask application for network engineers.  A Mainframe serves the web
  interface, queues long-running work for worker processes and for remote Agents, runs scheduled
  automations, and offers diagnostic tools and file transfers.  The development models the parts of
  \<open>twn_toolkit\<close> that decide something themselves: the queues and their state machines, the admission and
  quota rules, the calendar, and the codecs of the protocols the repository speaks itself.

  \<^bold>\<open>How the parts interact.\<close>  A web request passes the login throttle.  Its work becomes a row of a queue in
  SQLite: the diagnostic queue (work of this host), the distributed queue (work of an Agent, whose answer
  comes back in chunks) or the job table of the automations (filled by the condition loop, by the calendar
  and by startup events).  Workers claim rows under a lease or token, report progress and settle them.  Results
  are archived as JSON, and files are published through the upload registry.  Everything that crosses two
  components is modelled as a value one hands to the other: a claimed row, a sealed payload, an occurrence, a byte
  string.

  \<^bold>\<open>Conventions.\<close>
  \<^item> An SQLite table is the list of its rows in insertion order (\<open>update_rows\<close>, \<open>delete_rows\<close>, \<open>select_first\<close> of
    Prelude).  A method that runs inside one write transaction is one function from the state to the state and a
    result; an exception is an \<open>Inl\<close> of \<open>py_error\<close> and leaves the state as it was, as the rollback does.
  \<^item> Interleaving of processes is a list of operations folded over the state; whatever is proved of \<open>foldl\<close> over
    any list holds of every schedule of transactions.
  \<^item> The clock, random identifiers and what the operating system answers are arguments of the operation that asks
    for them, with nothing assumed of them unless a theorem names it.
  \<^item> Machine bytes are \<open>8 word\<close>; Python integers are \<open>int\<close> or \<open>nat\<close>; floats are reals, their rounding is
    not modelled.  Characters are code points below 256, and en dashes of messages are written as hyphens.
  \<^item> Third-party code is a parameter: the Fernet cipher and sealer, the keyed hash, the time zone and
    \<open>fromisoformat\<close>, action and condition implementations, the socket of a channel.

  \<^bold>\<open>Theories.\<close>
  \<^item> Prelude: results, tables, text, bytes, and the three interfaces below.
  \<^item> Payloads, Distributed_Store, Response_Transfer: \<open>distributed_payloads.py\<close>, \<open>distributed_jobs.py\<close> and
    \<open>distributed_response.py\<close> (records \<open>job\<close>, \<open>chunk\<close>, \<open>transfer\<close>, \<open>store\<close>; one function per method of
    \<open>DistributedJobStore\<close> and \<open>ResponseChunksMixin\<close>).  Distributed_Jobs holds the interleaved operations and the
    at-most-once theorems, Distributed_Facts fencing, history and claiming, Response_Facts the chunk
    invariant and the delivery of a verified response, Distributed_Witnesses and Demo_Cipher concrete runs.
  \<^item> Login_Throttle: \<open>login_throttle.py\<close>, model and theorems (bounded table, honest retry time, at most the
    limit per window).
  \<^item> Json_Text, Json_Stream: the standard \<open>json\<close> encoder and decoder on trees, the chunked writer of
    \<open>json_stream.py\<close> and the gated reader of \<open>retained_json.py\<close>, with their equivalence and round trip.
  \<^item> Diagnostic_Store, Diagnostic_Jobs: \<open>diagnostic_jobs.py\<close> with the scrubbing and interruption rules of
    \<open>bulk_ssh_jobs.py\<close>, \<open>certificate_jobs.py\<close> and \<open>export_jobs.py\<close>; Diagnostic_Facts and Diagnostic_Witnesses:
    capacity, at-most-once execution, settled runs, reviewed revisions, preview receipts, recovery.
  \<^item> Net_Bytes, Dhcp, Dhcp_Facts: \<open>dhcp_tools.py\<close>: building a DISCOVER and its frame, extracting and decoding
    replies; what is built is read back.
  \<^item> Packet_Replay, Replay_Facts: \<open>packet_replay_tools.py\<close>: parsing, VLAN and address rewriting, the send plan.
  \<^item> Automation_Store (state, stages), Automation_Definitions (saving and deleting), Automation_Queue (due checks
    and the trigger state machine), Automation_Jobs (the job table), Automation_Events (startup events),
    Automation_Schedule (enabling, calendar occurrences), Automation_Pipeline (the engine): \<open>automation.py\<close> and
    \<open>automation_execution.py\<close>.  Automation_Facts, Trigger_Facts, Stage_Facts, Pipeline_Facts, Occurrence_Facts
    and the Witnesses theories hold the theorems.
  \<^item> Calendar, Schedule, Schedule_Facts, Schedule_Dates, Schedule_Results: \<open>schedule_tools.py\<close>: Gregorian dates,
    rules, and that the next occurrence is exactly the earliest one of the rules' meaning.
  \<^item> Telnet_Channel, Telnet_Facts: \<open>telnet_client.py\<close>: the reader is independent of how the stream is cut.
  \<^item> Uploads: \<open>uploads.py\<close> (record \<open>upload\<close> is the object and its registry record, \<open>upload_world\<close> the published
    files and the registry); Upload_Facts, Upload_Quota, Upload_Results, Upload_Witnesses: the quota, the
    reservations and the published contents over any interleaving.
  \<^item> Path_Text: slash-separated paths.  Datastore: \<open>datastore.py\<close>, a tree of files and folders below a root, how a typed path
    is resolved, and the operations of \<open>LocalDatastore\<close>; Datastore_Facts (trees, renaming and undoing it),
    Datastore_Results, Datastore_Witnesses: moving several entries happens entirely or not at all, and no operation
    breaks the tree or loses a file it does not delete.
  \<^item> Tftp: \<open>tftp.py\<close>: requests, options, paths, and the sending and receiving loops run against the list of
    what the socket receives; Tftp_Facts, Tftp_Uploads, Tftp_Results, Tftp_Witnesses: when a download
    completes and what it sends, and that an upload stores exactly the file while other uploads go on.

  \<^bold>\<open>Interfaces.\<close>  \<open>step_system\<close> (operations that keep an invariant, in any order) is interpreted on the
  distributed queue, the response chunks, the diagnostic queue, the automation job table, the scheduled automations,
  the upload registry and the datastore.  \<open>step_budget\<close> extends it with a potential that only grants refill; the
  at-most-once theorems of the distributed and the diagnostic queue are its \<open>run_spend\<close> on those models.
  \<open>upload_storage\<close> (Tftp_Uploads) is what the TFTP server relies on when it writes, commits and leaves an upload; it is
  interpreted on the upload registry, with other operations of the toolkit running between the calls.
  \<open>prefix_codec\<close> (a decoder that reads one encoded item from the front of any buffer) is interpreted on
  the DHCP options.

  \<^bold>\<open>Bounds and fuel.\<close>  Loops are structural recursion or \<open>function\<close> with a measure.  Three searches of the
  source are bounded, and the theorems show the bounds suffice: \<open>resolve_from\<close> tries the 181 minutes the source tries
  for a local time that does not exist, the monthly rules look at 36 months, and a day rule at three
  days.  The six attempts of the TFTP loops are a counter of the model as of the source.  Where an exploration is cut in the source (\<open>MAX_BUCKETS\<close>, job limits, nesting of 64 or 65) the
  model has the same constant.

  \<^bold>\<open>What modelling showed.\<close>  \<open>fail_job\<close> of the automations settles a row whatever its status; the archive writer
  accepts one level of nesting more than the reader; the Telnet reader ends a subnegotiation at a
  doubled IAC followed by SE; a TFTP download counts every stray datagram as an attempt and answers it with
  a retransmission; a TFTP upload has six timeouts for the whole transfer, not for each block; a datastore
  path that goes on below a file ends in an exception the datastore does not turn into its own.

  \<^bold>\<open>Not modelled.\<close>  Flask routes, templates and browser code; setup, service control, upgrades and the
  network brokers, which run other programs and edit system files; SSH, SNMP, RADIUS, SMTP, LDAP, TLS
  and ACME clients, whose protocols live in third-party libraries; Scapy capture, LLDP and multicast tools;
  threads and sockets of the workers and of the distributed transport; authentication and audit tables;
  investigations and reports; schema migrations.  Inside the modelled files: table creation and legacy columns,
  artifact directories swept by cleanups, external writers and symbolic links of uploads and of the datastore,
  listings and archives of the datastore, interface-change
  conditions and history pages of automations, years outside 1 to 9999, abbreviated IPv4 texts.
\<close>

end
